(* ===== verification/Prelude.thy ===== *)
theory Prelude
  imports Complex_Main "HOL-Library.AList" "HOL-Library.List_Lexorder" "HOL-Library.Char_ord"
    "HOL-Library.Product_Lexorder"
begin

text \<open>
  Shared vocabulary of the development: the exceptions the Python code raises, results of
  operations that may raise, dictionaries as ordered association lists, the string functions
  the code uses, and a small locale for step functions that keep an invariant.
\<close>

named_theorems res_simps \<open>rules that evaluate results of fallible operations\<close>
named_theorems dict_simps \<open>rules about dictionaries\<close>

section \<open>Exceptions and fallible results\<close>

text \<open>
  One constructor per exception class that the modelled code raises or catches, with the message
  where the code gives one. The \<open>Denied\<close> classes and \<open>SandboxViolation\<close> derive from Python's
  \<open>PermissionError\<close>; \<open>CredentialParseError\<close>, \<open>PluginSecurityError\<close> and \<open>PluginPackageError\<close> from
  \<open>ValueError\<close>; the other classes of the code derive from \<open>RuntimeError\<close>; \<open>BrokerApiError\<close> stands for \<open>TossApiError\<close> and \<open>KbApiError\<close>.
  \<open>InvalidOperation\<close> and \<open>DivisionByZero\<close> are the traps of Python's default decimal context.
\<close>

datatype py_error =
    ValueError string
  | PermissionError string
  | KeyError string
  | RuntimeError string
  | TypeError string
  | AttributeError string
  | AssertionError string
  | EnvironmentTransitionError string
  | LiveApprovalDenied string
  | LiveBrokerDenied string
  | SecretAccessDenied string
  | CredentialParseError string
  | KbOrderSchemaUnavailable string
  | BrokerApiError string
  | PluginModeDenied string
  | SandboxViolation string
  | PluginSecurityError string
  | PluginPackageError string
  | PluginLifecycleError string
  | SkillRegistryError string
  | SkillExecutionError string
  | PluginInstallError string
  | PluginRollbackError string
  | OSError string
  | InvalidOperation
  | DivisionByZero

fun is_permission_error :: "py_error \<Rightarrow> bool" where
  "is_permission_error (PermissionError _) = True"
| "is_permission_error (LiveApprovalDenied _) = True"
| "is_permission_error (LiveBrokerDenied _) = True"
| "is_permission_error (SecretAccessDenied _) = True"
| "is_permission_error (PluginModeDenied _) = True"
| "is_permission_error (SandboxViolation _) = True"
| "is_permission_error _ = False"

fun is_value_error :: "py_error \<Rightarrow> bool" where
  "is_value_error (ValueError _) = True"
| "is_value_error (CredentialParseError _) = True"
| "is_value_error (PluginSecurityError _) = True"
| "is_value_error (PluginPackageError _) = True"
| "is_value_error _ = False"

fun is_key_error :: "py_error \<Rightarrow> bool" where
  "is_key_error (KeyError _) = True"
| "is_key_error _ = False"

text \<open>\<open>str(exc)\<close>; that of a \<open>KeyError\<close> shows the key in quotes.\<close>

fun err_message :: "py_error \<Rightarrow> string" where
  "err_message (ValueError m) = m"
| "err_message (PermissionError m) = m"
| "err_message (KeyError m) = [CHR 0x27] @ m @ [CHR 0x27]"
| "err_message (RuntimeError m) = m"
| "err_message (TypeError m) = m"
| "err_message (AttributeError m) = m"
| "err_message (AssertionError m) = m"
| "err_message (EnvironmentTransitionError m) = m"
| "err_message (LiveApprovalDenied m) = m"
| "err_message (LiveBrokerDenied m) = m"
| "err_message (SecretAccessDenied m) = m"
| "err_message (CredentialParseError m) = m"
| "err_message (KbOrderSchemaUnavailable m) = m"
| "err_message (BrokerApiError m) = m"
| "err_message (PluginModeDenied m) = m"
| "err_message (SandboxViolation m) = m"
| "err_message (PluginSecurityError m) = m"
| "err_message (PluginPackageError m) = m"
| "err_message (PluginLifecycleError m) = m"
| "err_message (SkillRegistryError m) = m"
| "err_message (SkillExecutionError m) = m"
| "err_message (PluginInstallError m) = m"
| "err_message (PluginRollbackError m) = m"
| "err_message (OSError m) = m"
| "err_message InvalidOperation = ''InvalidOperation''"
| "err_message DivisionByZero = ''DivisionByZero''"

type_synonym 'a res = "py_error + 'a"

definition res_bind :: "'e + 'a \<Rightarrow> ('a \<Rightarrow> 'e + 'b) \<Rightarrow> 'e + 'b" where
  "res_bind r f = (case r of Inl e \<Rightarrow> Inl e | Inr x \<Rightarrow> f x)"

text \<open>Evaluation unfolds the binding, so that nothing under it is evaluated before its value is known.\<close>

declare res_bind_def [code_unfold]

text \<open>The statement \<open>if cond: raise e\<close>.\<close>

definition raise_if :: "bool \<Rightarrow> 'e \<Rightarrow> 'e + unit" where
  "raise_if c e = (if c then Inl e else Inr ())"

lemma res_bind_simps [simp, res_simps]:
  "res_bind (Inl e) f = Inl e"
  "res_bind (Inr x) f = f x"
  by (simp_all add: res_bind_def)

lemma res_bind_eq_Inr [res_simps]:
  "res_bind r f = Inr y \<longleftrightarrow> (\<exists>x. r = Inr x \<and> f x = Inr y)"
  by (cases r) auto

lemma res_bind_eq_Inl [res_simps]:
  "res_bind r f = Inl e \<longleftrightarrow> r = Inl e \<or> (\<exists>x. r = Inr x \<and> f x = Inl e)"
  by (cases r) auto

lemma raise_if_eq [res_simps]:
  "raise_if c e = Inr u \<longleftrightarrow> \<not> c"
  "raise_if c e = Inl e' \<longleftrightarrow> c \<and> e' = e"
  by (auto simp: raise_if_def)

lemma raise_if_simps [simp]:
  "raise_if True e = Inl e"
  "raise_if False e = Inr ()"
  by (simp_all add: raise_if_def)

lemma map_sum_id_eq [res_simps]:
  "map_sum id g r = Inr y \<longleftrightarrow> (\<exists>x. r = Inr x \<and> y = g x)"
  "map_sum id g r = Inl e \<longleftrightarrow> r = Inl e"
  by (cases r; auto)+

definition is_ok :: "'e + 'a \<Rightarrow> bool" where
  "is_ok r = (case r of Inl _ \<Rightarrow> False | Inr _ \<Rightarrow> True)"

lemma is_ok_simps [simp, res_simps]:
  "is_ok (Inr x)" "\<not> is_ok (Inl e)"
  by (simp_all add: is_ok_def)

lemma is_ok_bind [res_simps]:
  "is_ok (res_bind r f) \<longleftrightarrow> (\<exists>x. r = Inr x \<and> is_ok (f x))"
  by (cases r) auto

lemma is_ok_iff: "is_ok r \<longleftrightarrow> (\<exists>x. r = Inr x)"
  by (cases r) auto

text \<open>
  Operations on a state that may raise: the state at the time of the exception is kept.
\<close>

type_synonym ('s, 'a) st = "'s \<Rightarrow> 'a res \<times> 's"

definition st_bind :: "('s, 'a) st \<Rightarrow> ('a \<Rightarrow> ('s, 'b) st) \<Rightarrow> ('s, 'b) st" where
  "st_bind f g s = (case f s of (Inl e, s') \<Rightarrow> (Inl e, s') | (Inr x, s') \<Rightarrow> g x s')"

definition st_lift :: "'a res \<Rightarrow> ('s, 'a) st" where
  "st_lift r s = (r, s)"

declare st_bind_def [code_unfold]

lemma st_lift_simps [simp]: "st_lift r s = (r, s)"
  by (simp add: st_lift_def)

lemma st_bind_Inr [res_simps]:
  "st_bind f g s = (Inr y, s'') \<longleftrightarrow> (\<exists>x s'. f s = (Inr x, s') \<and> g x s' = (Inr y, s''))"
  by (auto simp: st_bind_def split: prod.splits sum.splits)

lemma st_bind_cases:
  assumes "st_bind f g s = (r, s'')"
  obtains (first) e where "f s = (Inl e, s'')" "r = Inl e"
  | (second) x s' where "f s = (Inr x, s')" "g x s' = (r, s'')"
  using assms by (auto simp: st_bind_def split: prod.splits sum.splits)

section \<open>Dictionaries\<close>

text \<open>
  A Python dictionary keeps its insertion order, and the order is observed where the code
  iterates over \<open>.items()\<close>. It is an association list with distinct keys: reading is
  \<^const>\<open>map_of\<close>, \<open>d[k] = v\<close> is \<^const>\<open>AList.update\<close>, which keeps the place of a known key
  and appends a new one, and \<open>del d[k]\<close> is \<^const>\<open>AList.delete\<close>.
\<close>

type_synonym ('k, 'v) dict = "('k \<times> 'v) list"

abbreviation dict_get :: "('k, 'v) dict \<Rightarrow> 'k \<Rightarrow> 'v option" where
  "dict_get \<equiv> map_of"

abbreviation dict_set :: "'k \<Rightarrow> 'v \<Rightarrow> ('k, 'v) dict \<Rightarrow> ('k, 'v) dict" where
  "dict_set \<equiv> AList.update"

text \<open>\<open>d.get(k, default)\<close>.\<close>

definition dict_get_or :: "('k, 'v) dict \<Rightarrow> 'k \<Rightarrow> 'v \<Rightarrow> 'v" where
  "dict_get_or d k v = (case dict_get d k of None \<Rightarrow> v | Some x \<Rightarrow> x)"

abbreviation dict_wf :: "('k, 'v) dict \<Rightarrow> bool" where
  "dict_wf d \<equiv> distinct (map fst d)"

lemma dict_get_set [simp, dict_simps]:
  "dict_get (dict_set k v d) k' = (if k' = k then Some v else dict_get d k')"
  by (simp add: update_conv')

lemma dict_wf_set [simp, intro, dict_simps]: "dict_wf d \<Longrightarrow> dict_wf (dict_set k v d)"
  by (rule distinct_update)

lemma dict_get_or_set [dict_simps]:
  "dict_get_or (dict_set k v d) k' w = (if k' = k then v else dict_get_or d k' w)"
  by (simp add: dict_get_or_def)

lemma dict_get_mem: "dict_get d k = Some v \<Longrightarrow> (k, v) \<in> set d"
  by (rule map_of_SomeD)

lemma dict_mem_get: "dict_wf d \<Longrightarrow> (k, v) \<in> set d \<Longrightarrow> dict_get d k = Some v"
  by simp

lemma dict_set_same: "dict_get d k = Some v \<Longrightarrow> dict_wf d \<Longrightarrow> dict_set k v d = d"
  by (induction d) (auto split: if_splits)

lemma set_dict_set_subset: "set (dict_set k v d) \<subseteq> insert (k, v) (set d)"
  by (induction d) auto

lemma dict_all_set:
  "(\<forall>(k, v) \<in> set d. P k v) \<Longrightarrow> P k0 v0 \<Longrightarrow> (\<forall>(k, v) \<in> set (dict_set k0 v0 d). P k v)"
  using set_dict_set_subset [of k0 v0 d] by fast

lemma dict_set_nonempty [simp]: "dict_set k v d \<noteq> []"
  by (cases d) auto

lemma dict_set_key_mem: "fst ` set (dict_set k v d) = insert k (fst ` set d)"
  by (induction d) auto

lemma dict_keys_set_all:
  "(\<forall>k \<in> fst ` set d. P k) \<Longrightarrow> P k0 \<Longrightarrow> (\<forall>k \<in> fst ` set (dict_set k0 v d). P k)"
  unfolding dict_set_key_mem by simp

text \<open>A sum over the values of a dictionary changes by the difference at the key.\<close>

lemma dict_sum_set:
  fixes f :: "'v \<Rightarrow> 'a :: ab_group_add"
  assumes "dict_wf d"
  shows "sum_list (map (f \<circ> snd) (dict_set k v d)) =
    sum_list (map (f \<circ> snd) d) - (case dict_get d k of None \<Rightarrow> 0 | Some w \<Rightarrow> f w) + f v"
  using assms
proof (induction d)
  case (Cons p d)
  then show ?case
    by (cases "fst p = k") (auto simp: algebra_simps split: option.splits)
qed simp

section \<open>Strings\<close>

text \<open>
  Python strings are lists of characters. \<open>str.strip\<close> removes the ASCII white space and
  \<open>str.upper\<close> and \<open>str.lower\<close> change the case of ASCII letters: the model covers ASCII text.
\<close>

definition py_isspace :: "char \<Rightarrow> bool" where
  "py_isspace c = (let n = of_char c :: int in (9 \<le> n \<and> n \<le> 13) \<or> (28 \<le> n \<and> n \<le> 32))"

definition lstrip :: "string \<Rightarrow> string" where
  "lstrip s = dropWhile py_isspace s"

definition strip :: "string \<Rightarrow> string" where
  "strip s = rev (dropWhile py_isspace (rev (lstrip s)))"

definition upper_char :: "char \<Rightarrow> char" where
  "upper_char c = (let n = of_char c :: int in if 97 \<le> n \<and> n \<le> 122 then char_of (n - 32) else c)"

definition lower_char :: "char \<Rightarrow> char" where
  "lower_char c = (let n = of_char c :: int in if 65 \<le> n \<and> n \<le> 90 then char_of (n + 32) else c)"

definition upper :: "string \<Rightarrow> string" where
  "upper s = map upper_char s"

definition lower :: "string \<Rightarrow> string" where
  "lower s = map lower_char s"

definition starts_with :: "string \<Rightarrow> string \<Rightarrow> bool" where
  "starts_with p s = (take (length p) s = p)"

lemma hd_dropWhile_not: "dropWhile P xs \<noteq> [] \<Longrightarrow> \<not> P (hd (dropWhile P xs))"
  by (rule hd_dropWhile)

lemma strip_Nil [simp]: "strip [] = []"
  by (simp add: strip_def lstrip_def)

text \<open>White space at neither end: the text \<open>strip\<close> leaves alone.\<close>

definition stripped :: "string \<Rightarrow> bool" where
  "stripped s = (s = [] \<or> (\<not> py_isspace (hd s) \<and> \<not> py_isspace (last s)))"

lemma strip_id: "stripped s \<Longrightarrow> strip s = s"
proof (cases s)
  case (Cons c cs)
  assume st: "stripped s"
  then have c: "\<not> py_isspace (hd s)" and l: "\<not> py_isspace (last s)"
    using Cons by (auto simp: stripped_def)
  have "lstrip s = s" using c Cons by (simp add: lstrip_def)
  moreover have "dropWhile py_isspace (rev s) = rev s"
    using l Cons by (metis dropWhile_eq_self_iff hd_rev)
  ultimately show ?thesis by (simp add: strip_def)
qed simp

lemma stripped_strip: "stripped (strip s)"
proof (cases "strip s = []")
  case False
  define u where "u = lstrip s"
  have strip_u: "strip s = rev (dropWhile py_isspace (rev u))" by (simp add: strip_def u_def)
  have last: "\<not> py_isspace (last (strip s))"
    using False hd_dropWhile_not [of py_isspace "rev u"] by (simp add: strip_u last_rev)
  have une: "u \<noteq> []" using False strip_u by auto
  have "\<not> py_isspace (hd u)"
    using une hd_dropWhile_not [of py_isspace s] by (simp add: u_def lstrip_def)
  moreover have "u = strip s @ rev (takeWhile py_isspace (rev u))"
    by (metis strip_u rev_append rev_rev_ident takeWhile_dropWhile_id)
  then have "hd u = hd (strip s)" using False by (metis hd_append2)
  ultimately show ?thesis using last by (simp add: stripped_def)
qed (simp add: stripped_def)

lemma strip_idem [simp]: "strip (strip s) = strip s"
  by (rule strip_id [OF stripped_strip])

text \<open>\<open>s.split(c)\<close> for a single character, and \<open>c.join(parts)\<close>.\<close>

fun split_on :: "char \<Rightarrow> string \<Rightarrow> string list" where
  "split_on c [] = [[]]"
| "split_on c (x # xs) = (if x = c then [] # split_on c xs
     else (case split_on c xs of [] \<Rightarrow> [[x]] | p # ps \<Rightarrow> (x # p) # ps))"

fun join_with :: "string \<Rightarrow> string list \<Rightarrow> string" where
  "join_with sep [] = []"
| "join_with sep [p] = p"
| "join_with sep (p # q # ps) = p @ sep @ join_with sep (q # ps)"

lemma split_on_nonempty [simp]: "split_on c s \<noteq> []"
  by (induction s) (auto split: list.splits)

lemma split_on_absent: "c \<notin> set s \<Longrightarrow> split_on c s = [s]"
  by (induction s) auto

lemma split_on_sep: "split_on c (s @ c # t) = split_on c s @ split_on c t"
  by (induction s) (auto split: list.splits)

lemma split_on_append: "c \<notin> set s \<Longrightarrow> split_on c (s @ c # t) = s # split_on c t"
  by (simp add: split_on_sep split_on_absent)

text \<open>\<open>s.rstrip(c)\<close>, \<open>s.endswith(p)\<close> and \<open>c in s\<close> for a character.\<close>

definition rstrip_char :: "char \<Rightarrow> string \<Rightarrow> string" where
  "rstrip_char c s = rev (dropWhile ((=) c) (rev s))"

definition ends_with :: "string \<Rightarrow> string \<Rightarrow> bool" where
  "ends_with p s = starts_with (rev p) (rev s)"

lemma starts_with_append [simp]: "starts_with p (p @ s)"
  by (simp add: starts_with_def)

lemma starts_with_iff: "starts_with p s \<longleftrightarrow> (\<exists>r. s = p @ r)"
proof
  assume "starts_with p s"
  then have "s = p @ drop (length p) s" by (metis append_take_drop_id starts_with_def)
  then show "\<exists>r. s = p @ r" by blast
qed auto

lemma of_char_range: "0 \<le> (of_char c :: int)" "(of_char c :: int) < 256"
proof -
  have "(of_char c :: int) mod 256 = of_char c" by (rule of_char_mod_256)
  then show "0 \<le> (of_char c :: int)" "(of_char c :: int) < 256"
    using pos_mod_sign [of 256 "of_char c :: int"] pos_mod_bound [of 256 "of_char c :: int"] by simp_all
qed

lemma char_code: "(of_char c :: int) = n \<Longrightarrow> c = char_of n"
  by (metis char_of_char)

lemma rstrip_char_prefix: "\<exists>r. s = rstrip_char c s @ r"
  by (metis rev_append rev_rev_ident rstrip_char_def takeWhile_dropWhile_id)

section \<open>Runs of a step function\<close>

text \<open>
  A component whose operations are one step function over events: what every step keeps, every
  run keeps. Clients instantiate the invariant with what they need and get its closure under
  any sequence of operations.
\<close>

locale step_invariant =
  fixes step :: "'s \<Rightarrow> 'e \<Rightarrow> 's"
    and inv :: "'s \<Rightarrow> bool"
  assumes step_inv: "inv s \<Longrightarrow> inv (step s e)"
begin

lemma run_inv: "inv s \<Longrightarrow> inv (foldl step s es)"
  by (induction es arbitrary: s) (auto intro: step_inv)

lemma run_prefix_inv: "inv s \<Longrightarrow> inv (foldl step s (take n es))"
  by (rule run_inv)

end

text \<open>
  The same with an observation that, once it satisfies a property under the invariant, no step
  changes any more: terminal states.
\<close>

locale step_stable = step_invariant step inv
  for step :: "'s \<Rightarrow> 'e \<Rightarrow> 's" and inv :: "'s \<Rightarrow> bool" +
  fixes obs :: "'k \<Rightarrow> 's \<Rightarrow> 'o"
    and final :: "'o \<Rightarrow> bool"
  assumes step_final: "inv s \<Longrightarrow> final (obs k s) \<Longrightarrow> obs k (step s e) = obs k s"
begin

lemma run_final: "inv s \<Longrightarrow> final (obs k s) \<Longrightarrow> obs k (foldl step s es) = obs k s"
proof (induction es arbitrary: s)
  case (Cons e es)
  then have "obs k (step s e) = obs k s" and "inv (step s e)"
    by (auto intro: step_inv step_final)
  then show ?case using Cons by simp
qed simp

end

text \<open>
  An observation whose steps follow a state diagram: an abstract specification that the steps
  refine. When a run ends in a state it did not start in, it entered that state by a move of the
  diagram and has stayed there since.
\<close>

locale follows_diagram =
  fixes step :: "'s \<Rightarrow> 'e \<Rightarrow> 's"
    and obs :: "'s \<Rightarrow> 'k \<Rightarrow> 'o"
    and move :: "'o \<Rightarrow> 'o \<Rightarrow> bool"
  assumes step_moves: "move (obs s k) (obs (step s e) k)"
begin

definition entered :: "'s \<Rightarrow> 'k \<Rightarrow> 'o \<Rightarrow> 'e list \<Rightarrow> 'e \<Rightarrow> 'e list \<Rightarrow> bool" where
  "entered s k t es1 e es2 = (obs (foldl step s es1) k \<noteq> t \<and> move (obs (foldl step s es1) k) t
     \<and> (\<forall>n. obs (foldl step s (es1 @ e # take n es2)) k = t))"

lemma run_entered:
  assumes "obs s k \<noteq> t" and "obs (foldl step s es) k = t"
  shows "\<exists>es1 e es2. es = es1 @ e # es2 \<and> entered s k t es1 e es2"
  using assms(2)
proof (induction es rule: rev_induct)
  case (snoc e es)
  show ?case
  proof (cases "obs (foldl step s es) k = t")
    case True
    then obtain es1 e1 es2 where i: "es = es1 @ e1 # es2" "entered s k t es1 e1 es2" using snoc.IH by blast
    have "obs (foldl step s (es1 @ e1 # take n (es2 @ [e]))) k = t" for n
    proof (cases "n \<le> length es2")
      case True
      then show ?thesis using i(2) by (simp add: entered_def)
    next
      case False
      then have "es1 @ e1 # take n (es2 @ [e]) = es @ [e]" using i(1) by simp
      then show ?thesis using snoc.prems by metis
    qed
    then have "entered s k t es1 e1 (es2 @ [e])" using i(2) by (simp add: entered_def)
    then show ?thesis using i(1) by (metis append_Cons append_assoc)
  next
    case False
    have "entered s k t es e []"
      using False snoc.prems step_moves [of "foldl step s es" k e] by (simp add: entered_def)
    then show ?thesis by (metis append_Nil)
  qed
qed (use assms(1) in simp)

end

end
