(* ===== verification/Decimals.thy ===== *)
theory Decimals
  imports Prelude
begin

text \<open>
  Python's \<open>decimal.Decimal\<close> under its default context: 28 significant digits, ties to even.
  A finite decimal is the rational number it denotes; every arithmetic operation is the exact
  operation followed by the rounding of the context. The same rounding with base 2 and 53 digits
  is the arithmetic of Python's \<open>float\<close> in its normal range.
  Not modelled: NaN, infinities, signed zeros, the exponent that only \<open>str\<close> shows, and the
  exponent limit of the context (about a million).
\<close>

type_synonym decimal = rat

section \<open>Rounding to a number of significant digits\<close>

text \<open>Number of digits of a non-negative integer in base \<open>b\<close>.\<close>

function ndig :: "int \<Rightarrow> int \<Rightarrow> nat" where
  "ndig b n = (if n < b \<or> b < 2 then 1 else Suc (ndig b (n div b)))"
  by pat_completeness auto
termination
proof (relation "measure (\<lambda>(b, n). nat n)", goal_cases)
  case (2 b n)
  then have "n div b < n" "0 \<le> n div b"
    by (auto simp: int_div_less_self pos_imp_zdiv_nonneg_iff)
  then show ?case using 2 by auto
qed auto

declare ndig.simps [simp del]

text \<open>The exponent of the leading digit: \<open>b ^ lead b x \<le> x < b ^ (lead b x + 1)\<close> for positive \<open>x\<close>.\<close>

definition lead :: "int \<Rightarrow> rat \<Rightarrow> int" where
  "lead b x = (let (p, q) = quotient_of x; e = int (ndig b p) - int (ndig b q)
     in if of_int b powi e \<le> x then e else e - 1)"

text \<open>Nearest integer, ties to the even neighbour.\<close>

definition half_even :: "rat \<Rightarrow> int" where
  "half_even x = (let f = \<lfloor>x\<rfloor>; d = x - of_int f
     in if d < 1/2 then f else if 1/2 < d then f + 1 else if even f then f else f + 1)"

definition round_sig :: "int \<Rightarrow> nat \<Rightarrow> rat \<Rightarrow> rat" where
  "round_sig b k x = (if x = 0 then 0
     else let u = of_int b powi (lead b \<bar>x\<bar> - (int k - 1)) in of_int (half_even (x / u)) * u)"

lemma half_even_of_int [simp]: "half_even (of_int n) = n"
  by (simp add: half_even_def)

lemma half_even_cases: "half_even x = \<lfloor>x\<rfloor> \<or> half_even x = \<lfloor>x\<rfloor> + 1"
  by (simp add: half_even_def Let_def)

lemma half_even_error: "\<bar>of_int (half_even x) - x\<bar> \<le> 1/2"
proof -
  have "of_int \<lfloor>x\<rfloor> \<le> x" "x < of_int \<lfloor>x\<rfloor> + 1" by linarith+
  then show ?thesis by (auto simp: half_even_def Let_def)
qed

lemma half_even_mono: "x \<le> y \<Longrightarrow> half_even x \<le> half_even y"
proof -
  assume xy: "x \<le> y"
  then have fl: "\<lfloor>x\<rfloor> \<le> \<lfloor>y\<rfloor>" by (rule floor_mono)
  show ?thesis
  proof (cases "\<lfloor>x\<rfloor> = \<lfloor>y\<rfloor>")
    case True
    then show ?thesis using xy by (auto simp: half_even_def Let_def)
  next
    case False
    then have "\<lfloor>x\<rfloor> + 1 \<le> \<lfloor>y\<rfloor>" using fl by linarith
    then show ?thesis using half_even_cases [of x] half_even_cases [of y] by linarith
  qed
qed

lemma half_even_minus: "half_even (- x) = - half_even x"
proof (cases "x = of_int \<lfloor>x\<rfloor>")
  case True
  then show ?thesis by (metis half_even_of_int of_int_minus)
next
  case False
  define f where "f = \<lfloor>x\<rfloor>"
  define d where "d = x - of_int f"
  have d: "0 < d" "d < 1" using False unfolding f_def d_def by linarith+
  have fm: "\<lfloor>- x\<rfloor> = - f - 1"
    using d unfolding d_def by linarith
  have hx: "half_even x = (if d < 1/2 then f else if 1/2 < d then f + 1 else if even f then f else f + 1)"
    by (simp add: half_even_def Let_def f_def d_def)
  have "- x - of_int (- f - 1) = 1 - d" by (simp add: d_def)
  then have "half_even (- x) = (if 1 - d < 1/2 then - f - 1 else if 1/2 < 1 - d then - f
      else if even (- f - 1) then - f - 1 else - f)"
    by (simp add: half_even_def fm Let_def)
  then show ?thesis using d unfolding hx by (simp split: if_splits)
qed

subsection \<open>The leading exponent\<close>

lemma ndig_bounds:
  assumes "2 \<le> b" and "1 \<le> n"
  shows "b ^ (ndig b n - 1) \<le> n \<and> n < b ^ ndig b n \<and> 1 \<le> ndig b n"
  using assms
proof (induction b n rule: ndig.induct)
  case (1 b n)
  show ?case
  proof (cases "n < b")
    case True
    then show ?thesis using 1 by (simp add: ndig.simps [of b n])
  next
    case False
    define m where "m = n div b"
    have m: "1 \<le> m" using False 1(2) by (simp add: m_def pos_imp_zdiv_pos_iff int_one_le_iff_zero_less)
    have IH: "b ^ (ndig b m - 1) \<le> m" "m < b ^ ndig b m" "1 \<le> ndig b m"
      using 1(1) False 1(2) m by (auto simp: m_def)
    have nd: "ndig b n = Suc (ndig b m)" using False 1(2) by (simp add: ndig.simps [of b n] m_def)
    have dm: "n = b * m + n mod b" by (simp add: m_def)
    have "0 \<le> n mod b" "n mod b < b" using 1(2) by simp_all
    then have lo: "b * m \<le> n" and hi: "n < b * (m + 1)"
      using dm by (linarith, simp add: algebra_simps)
    obtain j where j: "ndig b m = Suc j" using IH(3) by (cases "ndig b m") auto
    have "b ^ ndig b m = b * b ^ (ndig b m - 1)" by (simp add: j)
    also have "\<dots> \<le> b * m" using IH(1) 1(2) by (intro mult_left_mono) auto
    finally have "b ^ (ndig b n - 1) \<le> n" using lo nd by simp
    moreover have "b * (m + 1) \<le> b * b ^ ndig b m" using IH(2) 1(2) by (intro mult_left_mono) auto
    then have "n < b ^ ndig b n" using hi nd by simp
    ultimately show ?thesis using nd by simp
  qed
qed

lemma lead_bounds:
  assumes b: "2 \<le> b" and x: "0 < x"
  shows "of_int b powi lead b x \<le> x" and "x < of_int b powi (lead b x + 1)"
proof -
  let ?B = "of_int b :: rat"
  have B: "1 < ?B" using b by simp
  obtain p q where pq: "quotient_of x = (p, q)" by (cases "quotient_of x")
  have q: "0 < q" using pq by (rule quotient_of_denom_pos)
  have xpq: "x = of_int p / of_int q" using pq by (rule quotient_of_div)
  have p: "0 < p" using x q by (simp add: xpq zero_less_divide_iff)
  define e where "e = int (ndig b p) - int (ndig b q)"
  note np = ndig_bounds [of b p] and nq = ndig_bounds [of b q]
  have P: "?B ^ (ndig b p - 1) \<le> of_int p" "of_int p < ?B ^ ndig b p"
    using np b p by (auto simp flip: of_int_power)
  have Q: "?B ^ (ndig b q - 1) \<le> of_int q" "of_int q < ?B ^ ndig b q"
    using nq b q by (auto simp flip: of_int_power)
  have n1: "1 \<le> ndig b p" "1 \<le> ndig b q" using np nq b p q by auto
  have B0: "?B \<noteq> 0 \<or> m \<noteq> n" for m n :: int using B by auto
  have "x < ?B powi (e + 1)"
  proof -
    have "x < ?B ^ ndig b p / ?B ^ (ndig b q - 1)"
      unfolding xpq using P Q B q p by (intro frac_less) auto
    also have "\<dots> = ?B powi (int (ndig b p) - int (ndig b q - 1))"
      unfolding power_int_diff [OF B0] by simp
    also have "int (ndig b p) - int (ndig b q - 1) = e + 1" using n1 by (simp add: e_def)
    finally show ?thesis .
  qed
  moreover have "?B powi (e - 1) \<le> x"
  proof -
    have e1: "e - 1 = int (ndig b p - 1) - int (ndig b q)" using n1 by (simp add: e_def of_nat_diff)
    have "?B powi (e - 1) = ?B ^ (ndig b p - 1) / ?B ^ ndig b q"
      unfolding e1 power_int_diff [OF B0] by simp
    also have "\<dots> \<le> x" unfolding xpq using P Q B q p by (intro frac_le) auto
    finally show ?thesis .
  qed
  moreover have "lead b x = (if ?B powi e \<le> x then e else e - 1)"
    by (simp add: lead_def pq e_def Let_def)
  ultimately show "?B powi lead b x \<le> x" "x < ?B powi (lead b x + 1)"
    by (auto simp: not_le)
qed

subsection \<open>Properties of the rounding\<close>

definition sig_unit :: "int \<Rightarrow> nat \<Rightarrow> rat \<Rightarrow> rat" where
  "sig_unit b k x = of_int b powi (lead b \<bar>x\<bar> - (int k - 1))"

lemma round_sig_unit: "x \<noteq> 0 \<Longrightarrow> round_sig b k x = of_int (half_even (x / sig_unit b k x)) * sig_unit b k x"
  by (simp add: round_sig_def sig_unit_def Let_def)

lemma sig_unit_pos: "2 \<le> b \<Longrightarrow> 0 < sig_unit b k x"
  by (simp add: sig_unit_def)

lemma sig_unit_minus [simp]: "sig_unit b k (- x) = sig_unit b k x"
  by (simp add: sig_unit_def)

lemma round_sig_zero [simp]: "round_sig b k 0 = 0"
  by (simp add: round_sig_def)

lemma round_sig_minus: "round_sig b k (- x) = - round_sig b k x"
  by (cases "x = 0") (simp_all add: round_sig_unit half_even_minus)

lemma base_powi_add: "2 \<le> (b :: int) \<Longrightarrow> (of_int b :: rat) powi (m + n) = of_int b powi m * of_int b powi n"
  by (rule power_int_add) auto

lemma base_powi_split:
  assumes "2 \<le> (b :: int)" and "1 \<le> k"
  shows "(of_int b :: rat) powi lead b \<bar>x\<bar> = of_int (b ^ (k - 1)) * sig_unit b k x"
    and "(of_int b :: rat) powi (lead b \<bar>x\<bar> + 1) = of_int (b ^ k) * sig_unit b k x"
proof -
  let ?B = "of_int b :: rat"
  have "lead b \<bar>x\<bar> = int (k - 1) + (lead b \<bar>x\<bar> - (int k - 1))" using assms(2) by simp
  then have "?B powi lead b \<bar>x\<bar> = ?B powi int (k - 1) * sig_unit b k x"
    unfolding sig_unit_def by (metis base_powi_add [OF assms(1)])
  then show "?B powi lead b \<bar>x\<bar> = of_int (b ^ (k - 1)) * sig_unit b k x"
    by (simp only: power_int_of_nat of_int_power)
  have "lead b \<bar>x\<bar> + 1 = int k + (lead b \<bar>x\<bar> - (int k - 1))" by simp
  then have "?B powi (lead b \<bar>x\<bar> + 1) = ?B powi int k * sig_unit b k x"
    unfolding sig_unit_def by (metis base_powi_add [OF assms(1)])
  then show "?B powi (lead b \<bar>x\<bar> + 1) = of_int (b ^ k) * sig_unit b k x"
    by (simp only: power_int_of_nat of_int_power)
qed

lemma scaled_bounds:
  assumes "2 \<le> b" and "1 \<le> k" and "0 < x"
  shows "of_int (b ^ (k - 1)) \<le> x / sig_unit b k x" and "x / sig_unit b k x < of_int (b ^ k)"
  using lead_bounds [OF assms(1,3)] base_powi_split [OF assms(1,2), of x] sig_unit_pos [OF assms(1), of k x] assms(3)
  by (simp_all add: pos_le_divide_eq pos_divide_less_eq)

lemma half_even_ge: "of_int n \<le> x \<Longrightarrow> n \<le> half_even x"
  using half_even_mono [of "of_int n" x] by simp

lemma half_even_le: "x \<le> of_int n \<Longrightarrow> half_even x \<le> n"
  using half_even_mono [of x "of_int n"] by simp

lemma round_sig_range:
  assumes "2 \<le> b" and "1 \<le> k" and "0 < x"
  shows "of_int b powi lead b x \<le> round_sig b k x" and "round_sig b k x \<le> of_int b powi (lead b x + 1)"
proof -
  note sc = scaled_bounds [OF assms]
  have "b ^ (k - 1) \<le> half_even (x / sig_unit b k x)" by (rule half_even_ge [OF sc(1)])
  then have lo: "of_int (b ^ (k - 1)) \<le> (of_int (half_even (x / sig_unit b k x)) :: rat)"
    by (simp only: of_int_le_iff)
  have "half_even (x / sig_unit b k x) \<le> b ^ k" by (rule half_even_le) (use sc(2) in linarith)
  then have hi: "(of_int (half_even (x / sig_unit b k x)) :: rat) \<le> of_int (b ^ k)"
    by (simp only: of_int_le_iff)
  note u = sig_unit_pos [OF assms(1), of k x]
  show "of_int b powi lead b x \<le> round_sig b k x" "round_sig b k x \<le> of_int b powi (lead b x + 1)"
    using base_powi_split [OF assms(1,2), of x] mult_right_mono [OF lo less_imp_le [OF u]]
      mult_right_mono [OF hi less_imp_le [OF u]] assms(3)
    by (simp_all add: round_sig_unit)
qed

lemma round_sig_pos: "2 \<le> b \<Longrightarrow> 1 \<le> k \<Longrightarrow> 0 < x \<Longrightarrow> 0 < round_sig b k x"
  by (rule less_le_trans [OF _ round_sig_range(1)]) (simp_all add: zero_less_power_int)

lemma round_sig_mono_pos:
  assumes b: "2 \<le> b" and k: "1 \<le> k" and x: "0 < x" and xy: "x \<le> y"
  shows "round_sig b k x \<le> round_sig b k y"
proof -
  let ?B = "of_int b :: rat"
  have B: "1 < ?B" using b by simp
  have y: "0 < y" using x xy by simp
  have "?B powi lead b x < ?B powi (lead b y + 1)"
    using lead_bounds [OF b x] lead_bounds [OF b y] xy by linarith
  then have "lead b x < lead b y + 1"
    using B by (metis linorder_not_less power_int_increasing less_imp_le)
  then consider "lead b x = lead b y" | "lead b x + 1 \<le> lead b y" by linarith
  then show ?thesis
  proof cases
    case 1
    then have u: "sig_unit b k x = sig_unit b k y" using x y by (simp add: sig_unit_def)
    have "x / sig_unit b k x \<le> y / sig_unit b k y"
      unfolding u by (rule divide_right_mono [OF xy less_imp_le [OF sig_unit_pos [OF b]]])
    then have "half_even (x / sig_unit b k x) \<le> half_even (y / sig_unit b k y)" by (rule half_even_mono)
    then show ?thesis using x y sig_unit_pos [OF b, of k y] u by (simp add: round_sig_unit)
  next
    case 2
    have "round_sig b k x \<le> ?B powi (lead b x + 1)" by (rule round_sig_range(2) [OF b k x])
    also have "\<dots> \<le> ?B powi lead b y" using 2 B by (simp add: power_int_increasing)
    also have "\<dots> \<le> round_sig b k y" by (rule round_sig_range(1) [OF b k y])
    finally show ?thesis .
  qed
qed

lemma round_sig_mono:
  assumes b: "2 \<le> b" and k: "1 \<le> k" and xy: "x \<le> y"
  shows "round_sig b k x \<le> round_sig b k y"
proof -
  have pos: "0 < z \<Longrightarrow> 0 < round_sig b k z" for z by (rule round_sig_pos [OF b k])
  consider "0 < x" | "y < 0" | "x \<le> 0" "0 \<le> y" by linarith
  then show ?thesis
  proof cases
    case 1
    then show ?thesis by (rule round_sig_mono_pos [OF b k _ xy])
  next
    case 2
    then have "round_sig b k (- y) \<le> round_sig b k (- x)"
      using xy by (intro round_sig_mono_pos [OF b k]) auto
    then show ?thesis by (simp add: round_sig_minus)
  next
    case 3
    have "round_sig b k x \<le> 0"
      using 3(1) pos [of "- x"] by (cases "x = 0") (auto simp: round_sig_minus)
    moreover have "0 \<le> round_sig b k y"
      using 3(2) pos [of y] by (cases "y = 0") auto
    ultimately show ?thesis by simp
  qed
qed

subsection \<open>Numbers with few digits are not changed\<close>

lemma round_sig_exact_pos:
  assumes b: "2 \<le> b" and k: "1 \<le> k" and x: "0 < x"
    and rep: "x = of_int n * of_int b powi e" and n: "\<bar>n\<bar> < b ^ k"
  shows "round_sig b k x = x"
proof -
  let ?B = "of_int b :: rat"
  define E where "E = lead b \<bar>x\<bar> - (int k - 1)"
  have B: "1 < ?B" using b by simp
  have "E \<le> e"
  proof (rule ccontr)
    assume "\<not> E \<le> e"
    then have le: "e + int k \<le> lead b \<bar>x\<bar>" by (simp add: E_def)
    have "?B powi e * of_int (b ^ k) = ?B powi (e + int k)"
      by (simp only: base_powi_add [OF b] power_int_of_nat of_int_power)
    also have "\<dots> \<le> ?B powi lead b \<bar>x\<bar>" using le B by (simp add: power_int_increasing)
    also have "\<dots> \<le> x" using lead_bounds(1) [OF b x] x by simp
    also have "\<dots> = ?B powi e * of_int n" by (simp add: rep)
    finally have "of_int (b ^ k) \<le> (of_int n :: rat)" using b by (simp add: mult_le_cancel_left_pos)
    then have "b ^ k \<le> n" by (simp only: of_int_le_iff)
    then show False using n by linarith
  qed
  then obtain j where j: "e = int j + E" by (metis add.commute zle_iff_zadd)
  have u: "sig_unit b k x = ?B powi E" by (simp add: sig_unit_def E_def)
  have xu: "x = of_int (n * b ^ j) * sig_unit b k x"
    unfolding u by (simp only: rep j base_powi_add [OF b] power_int_of_nat of_int_mult of_int_power mult.assoc)
  then have "x / sig_unit b k x = of_int (n * b ^ j)"
    using sig_unit_pos [OF b, of k x] by (metis less_irrefl nonzero_eq_divide_eq)
  then have he: "half_even (x / sig_unit b k x) = n * b ^ j" by (metis half_even_of_int)
  have "round_sig b k x = of_int (half_even (x / sig_unit b k x)) * sig_unit b k x"
    using x by (intro round_sig_unit) simp
  also have "\<dots> = x" unfolding he by (rule xu [symmetric])
  finally show ?thesis .
qed

lemma round_sig_exact:
  assumes b: "2 \<le> b" and k: "1 \<le> k"
    and rep: "x = of_int n * of_int b powi e" and n: "\<bar>n\<bar> < b ^ k"
  shows "round_sig b k x = x"
proof -
  consider "x = 0" | "0 < x" | "0 < - x" by linarith
  then show ?thesis
  proof cases
    case 3
    have "- x = of_int (- n) * of_int b powi e" by (simp add: rep)
    moreover have "\<bar>- n\<bar> < b ^ k" using n by simp
    ultimately have "round_sig b k (- x) = - x" by (rule round_sig_exact_pos [OF b k 3])
    then show ?thesis by (simp add: round_sig_minus)
  qed (use round_sig_exact_pos [OF b k _ rep n] in auto)
qed

lemma round_sig_rep:
  assumes b: "2 \<le> b" and k: "1 \<le> k"
  shows "\<exists>n e. round_sig b k x = of_int n * of_int b powi e \<and> \<bar>n\<bar> < b ^ k"
proof (cases "x = 0")
  case True
  then show ?thesis using b by (intro exI [of _ 0]) auto
next
  case False
  define m where "m = half_even (x / sig_unit b k x)"
  define E where "E = lead b \<bar>x\<bar> - (int k - 1)"
  have r: "round_sig b k x = of_int m * of_int b powi E"
    using False by (simp add: round_sig_unit m_def sig_unit_def E_def)
  have ax: "0 < \<bar>x\<bar>" using False by simp
  have "half_even (\<bar>x\<bar> / sig_unit b k x) \<le> b ^ k"
    using scaled_bounds(2) [OF b k ax] by (intro half_even_le) (simp add: sig_unit_def)
  moreover have "\<bar>m\<bar> = \<bar>half_even (\<bar>x\<bar> / sig_unit b k x)\<bar>"
    by (cases "0 \<le> x") (simp_all add: m_def half_even_minus)
  moreover have "0 \<le> half_even (\<bar>x\<bar> / sig_unit b k x)"
    using sig_unit_pos [OF b, of k x] by (intro half_even_ge) simp
  ultimately have le: "\<bar>m\<bar> \<le> b ^ k" by linarith
  show ?thesis
  proof (cases "\<bar>m\<bar> = b ^ k")
    case False
    then show ?thesis using r le by (intro exI [of _ m] exI [of _ E]) simp
  next
    case True
    obtain i where i: "k = Suc i" using k by (cases k) auto
    define n where "n = sgn m * b ^ i"
    have "m = sgn m * b ^ k" unfolding True [symmetric] by (simp add: mult_sgn_abs)
    then have "m = n * b" by (simp only: n_def i power_Suc2 mult.assoc)
    then have "round_sig b k x = of_int n * of_int b powi (1 + E)"
      using r by (simp only: base_powi_add [OF b]) simp
    moreover have "\<bar>n\<bar> < b ^ k" using b i by (auto simp: n_def abs_mult sgn_if)
    ultimately show ?thesis by blast
  qed
qed

lemma round_sig_idem: "2 \<le> b \<Longrightarrow> 1 \<le> k \<Longrightarrow> round_sig b k (round_sig b k x) = round_sig b k x"
  using round_sig_rep [of b k x] round_sig_exact [of b k "round_sig b k x"] by metis

lemma round_sig_error:
  assumes b: "2 \<le> b" and k: "1 \<le> k"
  shows "\<bar>round_sig b k x - x\<bar> \<le> \<bar>x\<bar> / (2 * of_int b ^ (k - 1))"
proof (cases "x = 0")
  case False
  let ?u = "sig_unit b k x" and ?P = "(of_int b :: rat) ^ (k - 1)"
  have u: "0 < ?u" by (rule sig_unit_pos [OF b])
  have P: "0 < ?P" using b by simp
  have "?P * ?u \<le> \<bar>x\<bar>"
    using lead_bounds(1) [OF b, of "\<bar>x\<bar>"] base_powi_split(1) [OF b k, of x] False by simp
  then have "?u / 2 \<le> \<bar>x\<bar> / (2 * ?P)" using P by (simp add: field_simps)
  moreover have "round_sig b k x - x = (of_int (half_even (x / ?u)) - x / ?u) * ?u"
    using False u by (simp add: round_sig_unit left_diff_distrib)
  then have "\<bar>round_sig b k x - x\<bar> = \<bar>of_int (half_even (x / ?u)) - x / ?u\<bar> * ?u"
    using u by (simp add: abs_mult)
  moreover have "\<bar>of_int (half_even (x / ?u)) - x / ?u\<bar> * ?u \<le> 1 / 2 * ?u"
    using half_even_error u by (intro mult_right_mono) auto
  ultimately show ?thesis by linarith
qed simp

section \<open>What clients rely on\<close>

text \<open>
  The laws of a correctly rounded arithmetic that the account, risk and ledger proofs use: the
  rounding is monotone, odd, idempotent and keeps zero and the sign.
\<close>

locale rounding =
  fixes rnd :: "rat \<Rightarrow> rat"
  assumes rnd_mono: "x \<le> y \<Longrightarrow> rnd x \<le> rnd y"
    and rnd_minus: "rnd (- x) = - rnd x"
    and rnd_idem: "rnd (rnd x) = rnd x"
    and rnd_pos: "0 < x \<Longrightarrow> 0 < rnd x"
    and rnd_small_error: "\<bar>rnd x - x\<bar> \<le> \<bar>x\<bar> / 2"
begin

lemma rnd_zero [simp]: "rnd 0 = 0"
  using rnd_minus [of 0] by simp

lemma rnd_nonneg: "0 \<le> x \<Longrightarrow> 0 \<le> rnd x"
  using rnd_mono [of 0 x] by simp

lemma rnd_neg: "x < 0 \<Longrightarrow> rnd x < 0"
  using rnd_pos [of "- x"] by (simp add: rnd_minus)

lemma rnd_nonneg_iff: "0 \<le> rnd x \<longleftrightarrow> 0 \<le> x"
  using rnd_nonneg [of x] rnd_neg [of x] by linarith

lemma rnd_pos_iff: "0 < rnd x \<longleftrightarrow> 0 < x"
  using rnd_pos [of x] rnd_mono [of x 0] by (cases "0 < x") auto

lemma rnd_neg_iff: "rnd x < 0 \<longleftrightarrow> x < 0"
  using rnd_nonneg_iff [of x] by linarith

lemma rnd_eq_zero_iff: "rnd x = 0 \<longleftrightarrow> x = 0"
  using rnd_neg_iff [of x] rnd_pos_iff [of x] by auto

lemma rnd_le_fixed: "x \<le> c \<Longrightarrow> rnd c = c \<Longrightarrow> rnd x \<le> c"
  using rnd_mono [of x c] by simp

lemma rnd_ge_fixed: "c \<le> x \<Longrightarrow> rnd c = c \<Longrightarrow> c \<le> rnd x"
  using rnd_mono [of c x] by simp

lemma rnd_le_double: "0 \<le> x \<Longrightarrow> rnd x \<le> 2 * x"
  using rnd_small_error [of x] by linarith

lemma rnd_diff_nonneg: "b \<le> a \<Longrightarrow> 0 \<le> rnd (a - b)"
  by (rule rnd_nonneg) simp

lemma rnd_mult_nonneg: "0 \<le> a \<Longrightarrow> 0 \<le> b \<Longrightarrow> 0 \<le> rnd (a * b)"
  by (rule rnd_nonneg) simp

lemma rnd_add_pos: "0 \<le> a \<Longrightarrow> 0 < b \<Longrightarrow> 0 < rnd (a + b)"
  by (rule rnd_pos) simp

lemma rnd_add_le: "rnd a = a \<Longrightarrow> 0 \<le> b \<Longrightarrow> a \<le> rnd (a + b)"
  by (rule rnd_ge_fixed) auto

end

lemma round_sig_rounding:
  assumes b: "2 \<le> b" and k: "2 \<le> k"
  shows "rounding (round_sig b k)"
proof
  have k1: "1 \<le> k" using k by simp
  fix x y :: rat
  show "x \<le> y \<Longrightarrow> round_sig b k x \<le> round_sig b k y" by (rule round_sig_mono [OF b k1])
  show "round_sig b k (- x) = - round_sig b k x" by (rule round_sig_minus)
  show "round_sig b k (round_sig b k x) = round_sig b k x" by (rule round_sig_idem [OF b k1])
  show "0 < x \<Longrightarrow> 0 < round_sig b k x" by (rule round_sig_pos [OF b k1])
  have "(1 :: rat) \<le> of_int b ^ (k - 1)" using b by simp
  then have "\<bar>x\<bar> / (2 * of_int b ^ (k - 1)) \<le> \<bar>x\<bar> / 2" by (intro divide_left_mono) auto
  then show "\<bar>round_sig b k x - x\<bar> \<le> \<bar>x\<bar> / 2" using round_sig_error [OF b k1, of x] by linarith
qed

end
