(* ===== verification/Decimal_Ops.thy ===== *)
theory Decimal_Ops
  imports Decimals
begin

text \<open>
  The operations of \<open>decimal.Decimal\<close> the code uses, over the rounding of \<open>Decimals\<close>:
  the operators, \<open>sum\<close>, \<open>quantize\<close> and \<open>to_integral_value\<close>, and the amounts (cents, lots)
  on which they are exact.
\<close>

section \<open>Operations\<close>

definition fix28 :: "rat \<Rightarrow> decimal" where
  "fix28 x = round_sig 10 28 x"

definition dadd :: "decimal \<Rightarrow> decimal \<Rightarrow> decimal" where
  "dadd x y = fix28 (x + y)"

definition dsub :: "decimal \<Rightarrow> decimal \<Rightarrow> decimal" where
  "dsub x y = fix28 (x - y)"

definition dmul :: "decimal \<Rightarrow> decimal \<Rightarrow> decimal" where
  "dmul x y = fix28 (x * y)"

text \<open>Unary minus and \<open>abs\<close> round to the context as well.\<close>

definition dneg :: "decimal \<Rightarrow> decimal" where
  "dneg x = fix28 (- x)"

definition dabs :: "decimal \<Rightarrow> decimal" where
  "dabs x = fix28 \<bar>x\<bar>"

text \<open>Division by zero is trapped: \<open>x / 0\<close> raises \<open>DivisionByZero\<close> and \<open>0 / 0\<close> \<open>InvalidOperation\<close>.\<close>

definition ddiv :: "decimal \<Rightarrow> decimal \<Rightarrow> decimal res" where
  "ddiv x y = (if y = 0 then (if x = 0 then Inl InvalidOperation else Inl DivisionByZero)
     else Inr (fix28 (x / y)))"

text \<open>\<open>sum(xs, Decimal("0"))\<close>.\<close>

definition dsum :: "decimal list \<Rightarrow> decimal" where
  "dsum xs = foldl dadd 0 xs"

text \<open>Truncation towards zero; \<open>to_integral_value(rounding=ROUND_DOWN)\<close>.\<close>

definition trunc :: "rat \<Rightarrow> int" where
  "trunc x = (if 0 \<le> x then \<lfloor>x\<rfloor> else - \<lfloor>- x\<rfloor>)"

text \<open>
  \<open>x.quantize(Decimal(1).scaleb(-d), rounding=ROUND_DOWN)\<close>: \<open>d\<close> decimal places, and
  \<open>InvalidOperation\<close> when the coefficient needs more than 28 digits.
\<close>

definition quantize_down :: "nat \<Rightarrow> decimal \<Rightarrow> decimal res" where
  "quantize_down d x = (let n = trunc (x * 10 ^ d)
     in if 10 ^ 28 \<le> \<bar>n\<bar> then Inl InvalidOperation else Inr (of_int n / 10 ^ d))"

text \<open>The same with the context's rounding, ties to even.\<close>

definition quantize_even :: "nat \<Rightarrow> decimal \<Rightarrow> decimal res" where
  "quantize_even d x = (let n = half_even (x * 10 ^ d)
     in if 10 ^ 28 \<le> \<bar>n\<bar> then Inl InvalidOperation else Inr (of_int n / 10 ^ d))"

section \<open>The decimal context satisfies the rounding laws\<close>

interpretation ctx: rounding fix28
proof -
  have "rounding (round_sig 10 28)" by (rule round_sig_rounding) simp_all
  then show "rounding fix28" by (simp add: fix28_def [abs_def])
qed

lemmas dec_sign_simps =
  ctx.rnd_nonneg_iff ctx.rnd_pos_iff ctx.rnd_neg_iff ctx.rnd_eq_zero_iff

lemma fix28_rep: "x = of_int n * 10 powi e \<Longrightarrow> \<bar>n\<bar> < 10 ^ 28 \<Longrightarrow> fix28 x = x"
  using round_sig_exact [of 10 28 x n e] by (simp add: fix28_def)

lemma fix28_error: "\<bar>fix28 x - x\<bar> \<le> \<bar>x\<bar> / (2 * 10 ^ 27)"
  using round_sig_error [of 10 28 x] by (simp add: fix28_def)

lemma ddiv_Inr: "y \<noteq> 0 \<Longrightarrow> ddiv x y = Inr (fix28 (x / y))"
  by (simp add: ddiv_def)

lemma ddiv_eq_Inr [res_simps]: "ddiv x y = Inr z \<longleftrightarrow> y \<noteq> 0 \<and> z = fix28 (x / y)"
  by (auto simp: ddiv_def)

section \<open>Truncation\<close>

lemma trunc_of_int [simp]: "trunc (of_int n) = n"
  by (simp add: trunc_def flip: of_int_minus)

lemma trunc_nonneg: "0 \<le> x \<Longrightarrow> 0 \<le> trunc x"
  by (simp add: trunc_def)

lemma trunc_le: "0 \<le> x \<Longrightarrow> of_int (trunc x) \<le> x"
  by (simp add: trunc_def)

lemma trunc_abs_le: "\<bar>of_int (trunc x)\<bar> \<le> \<bar>x\<bar>"
proof (cases "0 \<le> x")
  case True
  then have "(0 :: rat) \<le> of_int \<lfloor>x\<rfloor>" by simp
  then show ?thesis using True by (simp add: trunc_def)
next
  case False
  then have "(0 :: rat) \<le> of_int \<lfloor>- x\<rfloor>" by simp
  moreover have "of_int \<lfloor>- x\<rfloor> \<le> - x" by (rule of_int_floor_le)
  ultimately show ?thesis using False by (simp add: trunc_def)
qed

lemma trunc_minus: "trunc (- x) = - trunc x"
  by (cases "x = 0") (auto simp: trunc_def)

lemma trunc_pos_iff: "0 < trunc x \<longleftrightarrow> 1 \<le> x"
  by (auto simp: trunc_def)

lemma trunc_mono: "x \<le> y \<Longrightarrow> trunc x \<le> trunc y"
  by (auto simp: trunc_def floor_mono)
    (meson floor_mono le_minus_iff neg_0_le_iff_le order.trans zero_le_floor linear neg_le_0_iff_le)

lemma quantize_down_eq_Inr [res_simps]:
  "quantize_down d x = Inr y \<longleftrightarrow> \<bar>trunc (x * 10 ^ d)\<bar> < 10 ^ 28 \<and> y = of_int (trunc (x * 10 ^ d)) / 10 ^ d"
  by (auto simp: quantize_down_def Let_def)

lemma quantize_down_nonneg: "quantize_down d x = Inr y \<Longrightarrow> 0 \<le> x \<Longrightarrow> 0 \<le> y \<and> y \<le> x"
  using trunc_nonneg [of "x * 10 ^ d"] trunc_le [of "x * 10 ^ d"]
  by (auto simp: quantize_down_eq_Inr pos_divide_le_eq)

section \<open>Amounts on a grid are exact\<close>

text \<open>\<open>x\<close> has at most \<open>d\<close> decimal places.\<close>

definition grid :: "nat \<Rightarrow> rat \<Rightarrow> bool" where
  "grid d x = (of_int \<lfloor>x * 10 ^ d\<rfloor> = x * 10 ^ d)"

text \<open>An amount of at most \<open>d\<close> places and less than \<open>10 ^ m\<close>.\<close>

definition amount :: "nat \<Rightarrow> nat \<Rightarrow> rat \<Rightarrow> bool" where
  "amount d m x = (grid d x \<and> \<bar>x\<bar> < 10 ^ m)"

lemma gridI: "x * 10 ^ d = of_int n \<Longrightarrow> grid d x"
  by (simp add: grid_def)

lemma gridE: "grid d x \<Longrightarrow> (\<And>n. x * 10 ^ d = of_int n \<Longrightarrow> P) \<Longrightarrow> P"
  by (metis grid_def)

lemma grid_zero [simp]: "grid d 0"
  by (simp add: grid_def)

lemma grid_add: "grid d x \<Longrightarrow> grid d y \<Longrightarrow> grid d (x + y)"
  by (elim gridE, rule gridI [where n = "_ + _"]) (simp add: distrib_right)

lemma grid_minus: "grid d x \<Longrightarrow> grid d (- x)"
  by (elim gridE, rule gridI [where n = "- _"]) simp

lemma grid_diff: "grid d x \<Longrightarrow> grid d y \<Longrightarrow> grid d (x - y)"
  using grid_add [OF _ grid_minus, of d x y] by simp

lemma grid_div: "grid d (of_int n / 10 ^ d)"
  by (rule gridI [where n = n]) simp

lemma fix28_grid: "grid d x \<Longrightarrow> \<bar>x\<bar> * 10 ^ d < 10 ^ 28 \<Longrightarrow> fix28 x = x"
proof (elim gridE)
  fix n assume small: "\<bar>x\<bar> * 10 ^ d < 10 ^ 28" and n: "x * 10 ^ d = of_int n"
  have "x = of_int n * 10 powi (- int d)"
    unfolding n [symmetric] by (simp add: power_int_minus)
  moreover have "of_int \<bar>n\<bar> < (of_int (10 ^ 28) :: rat)"
    using small by (simp add: n [symmetric] abs_mult)
  then have "\<bar>n\<bar> < 10 ^ 28" by (simp only: of_int_less_iff)
  ultimately show ?thesis by (rule fix28_rep)
qed

lemma fix28_amount: "amount d m x \<Longrightarrow> d + m \<le> 28 \<Longrightarrow> fix28 x = x"
proof (rule fix28_grid)
  assume a: "amount d m x" and dm: "d + m \<le> 28"
  show "grid d x" using a by (simp add: amount_def)
  have "\<bar>x\<bar> * 10 ^ d < 10 ^ m * 10 ^ d"
    using a by (intro mult_strict_right_mono) (simp_all add: amount_def)
  also have "\<dots> = (10 :: rat) ^ (d + m)" by (simp add: power_add mult.commute)
  also have "\<dots> \<le> 10 ^ 28" using dm by (intro power_increasing) auto
  finally show "\<bar>x\<bar> * 10 ^ d < 10 ^ 28" .
qed

lemma quantize_down_grid: "quantize_down d x = Inr y \<Longrightarrow> grid d y"
  by (auto simp: quantize_down_eq_Inr grid_div)

lemma quantize_down_fix28: "quantize_down d x = Inr y \<Longrightarrow> fix28 y = y"
proof (rule fix28_grid [of d])
  assume q: "quantize_down d x = Inr y"
  show "grid d y" using q by (rule quantize_down_grid)
  have "\<bar>trunc (x * 10 ^ d)\<bar> < 10 ^ 28" using q by (simp add: quantize_down_eq_Inr)
  then have "(of_int \<bar>trunc (x * 10 ^ d)\<bar> :: rat) < of_int (10 ^ 28)" by (simp only: of_int_less_iff)
  then show "\<bar>y\<bar> * 10 ^ d < 10 ^ 28" using q by (auto simp: quantize_down_eq_Inr abs_divide)
qed

lemma amount_add: "amount d m x \<Longrightarrow> amount d m y \<Longrightarrow> amount d (Suc m) (x + y)"
  by (auto simp: amount_def grid_add)

lemma amount_diff: "amount d m x \<Longrightarrow> amount d m y \<Longrightarrow> amount d (Suc m) (x - y)"
  by (auto simp: amount_def grid_diff)

text \<open>Coarse bounds on the rounding of non-negative values, for estimates.\<close>

lemma fix28_slack:
  assumes "0 \<le> x"
  shows "fix28 x \<le> x * (1001/1000)" and "x * (999/1000) \<le> fix28 x"
proof -
  have "\<bar>fix28 x - x\<bar> \<le> x / (2 * 10 ^ 27)" using fix28_error [of x] assms by simp
  moreover have "x / (2 * 10 ^ 27) \<le> x / 1000" using assms by (intro divide_left_mono) simp_all
  ultimately have "\<bar>fix28 x - x\<bar> \<le> x / 1000" by linarith
  then show "fix28 x \<le> x * (1001/1000)" "x * (999/1000) \<le> fix28 x" by linarith+
qed

lemma grid_mult:
  assumes "grid a x" and "grid b y"
  shows "grid (a + b) (x * y)"
proof -
  obtain m where m: "x * 10 ^ a = of_int m" using assms(1) by (rule gridE)
  obtain n where n: "y * 10 ^ b = of_int n" using assms(2) by (rule gridE)
  have "x * y * 10 ^ (a + b) = (x * 10 ^ a) * (y * 10 ^ b)" by (simp add: power_add)
  then have "x * y * 10 ^ (a + b) = of_int (m * n)" by (simp add: m n)
  then show ?thesis by (rule gridI)
qed

lemma quantize_down_ok: "0 \<le> x \<Longrightarrow> x < 10 ^ m \<Longrightarrow> d + m \<le> 28 \<Longrightarrow> is_ok (quantize_down d x)"
proof -
  assume x: "0 \<le> x" "x < 10 ^ m" and dm: "d + m \<le> 28"
  have "of_int (trunc (x * 10 ^ d)) \<le> x * 10 ^ d" using x by (intro trunc_le) simp
  also have "\<dots> < 10 ^ m * 10 ^ d" using x by simp
  also have "\<dots> = (10 :: rat) ^ (m + d)" by (simp add: power_add)
  also have "\<dots> \<le> 10 ^ 28" using dm by (intro power_increasing) auto
  finally have "of_int (trunc (x * 10 ^ d)) < (of_int (10 ^ 28) :: rat)" by simp
  then have "trunc (x * 10 ^ d) < 10 ^ 28" by (simp only: of_int_less_iff)
  moreover have "0 \<le> trunc (x * 10 ^ d)" using x by (intro trunc_nonneg) simp
  ultimately show ?thesis by (simp add: quantize_down_def Let_def)
qed

section \<open>Evaluation\<close>

text \<open>
  Evaluation of the rounding on concrete decimals: a value of at most twelve places and not too
  many digits is returned as it is, and every result is a fraction of integer literals.
\<close>

lemma fix28_code [code]:
  "fix28 x = (case quotient_of x of (p, q) \<Rightarrow>
     if 1000000000000 mod q = 0 \<and> \<bar>p\<bar> < 10000000000000000 then (if q = 1 then of_int p else of_int p / of_int q)
     else (case quotient_of (round_sig 10 28 x) of (m, n) \<Rightarrow> of_int m / of_int n))"
proof -
  obtain p q where pq: "quotient_of x = (p, q)" by (cases "quotient_of x")
  have x: "x = of_int p / of_int q" using pq by (rule quotient_of_div)
  have q: "0 < q" using pq by (rule quotient_of_denom_pos)
  have "fix28 x = x" if m: "1000000000000 mod q = 0" and small: "\<bar>p\<bar> < 10000000000000000"
  proof (rule fix28_grid)
    from m obtain c where "1000000000000 = q * c" unfolding mod_eq_0_iff_dvd dvd_def by blast
    then have c: "(1000000000000 :: rat) = of_int q * of_int c" by (metis of_int_mult of_int_numeral)
    then have "x * 10 ^ 12 = of_int (p * c)" using q by (simp add: x c)
    then show "grid 12 x" by (rule gridI)
    have "\<bar>x\<bar> \<le> of_int \<bar>p\<bar>" using q by (simp add: x abs_divide pos_divide_le_eq mult_le_cancel_left1)
    also have "\<dots> < 10000000000000000" using small by simp
    finally show "\<bar>x\<bar> * 10 ^ 12 < 10 ^ 28" by simp
  qed
  moreover obtain m n where mn: "quotient_of (round_sig 10 28 x) = (m, n)"
    by (cases "quotient_of (round_sig 10 28 x)")
  then have "fix28 x = of_int m / of_int n" unfolding fix28_def by (rule quotient_of_div)
  moreover have "(if q = 1 then of_int p else of_int p / of_int q) = x" using x by simp
  ultimately show ?thesis unfolding pq mn prod.case by simp
qed

end
