(* ===== verification/Order_Lifecycle.thy ===== *)
theory Order_Lifecycle
  imports Decimal_Ops
begin

text \<open>
  \<open>order_lifecycle.py\<close>: the registry of submitted orders by client order id, with idempotent
  submission, cumulative fills and cancellation.
\<close>

section \<open>Records and operations\<close>

datatype order_status = NEW | PARTIALLY_FILLED | FILLED | CANCELED | REJECTED

fun status_value :: "order_status \<Rightarrow> string" where
  "status_value NEW = ''NEW''"
| "status_value PARTIALLY_FILLED = ''PARTIALLY_FILLED''"
| "status_value FILLED = ''FILLED''"
| "status_value CANCELED = ''CANCELED''"
| "status_value REJECTED = ''REJECTED''"

record order_record =
  or_client_order_id :: string
  or_symbol :: string
  or_side :: string
  or_quantity :: decimal
  or_filled_quantity :: decimal
  or_status :: order_status

text \<open>\<open>OrderRecord(client_order_id, symbol, side, quantity)\<close> with the default fields.\<close>

definition new_order :: "string \<Rightarrow> string \<Rightarrow> string \<Rightarrow> decimal \<Rightarrow> order_record" where
  "new_order cid symb side q = \<lparr>or_client_order_id = cid, or_symbol = symb, or_side = side,
     or_quantity = q, or_filled_quantity = 0, or_status = NEW\<rparr>"

type_synonym orders = "(string, order_record) dict"

text \<open>The statuses after which the code leaves an order alone.\<close>

definition terminal :: "order_status \<Rightarrow> bool" where
  "terminal s = (s \<in> {FILLED, CANCELED, REJECTED})"

definition lifecycle_get :: "orders \<Rightarrow> string \<Rightarrow> order_record option" where
  "lifecycle_get os cid = dict_get os cid"

definition lifecycle_get_or_raise :: "orders \<Rightarrow> string \<Rightarrow> order_record res" where
  "lifecycle_get_or_raise os cid =
     (case lifecycle_get os cid of None \<Rightarrow> Inl (KeyError cid) | Some r \<Rightarrow> Inr r)"

definition lifecycle_submit :: "orders \<Rightarrow> order_record \<Rightarrow> (order_record \<times> orders) res" where
  "lifecycle_submit os ord =
     (case dict_get os (or_client_order_id ord) of
        Some existing \<Rightarrow>
          if existing \<noteq> ord then Inl (ValueError ''client_order_id already used with different order'')
          else Inr (existing, os)
      | None \<Rightarrow> Inr (ord, dict_set (or_client_order_id ord) ord os))"

definition lifecycle_fill :: "orders \<Rightarrow> string \<Rightarrow> decimal \<Rightarrow> (order_record \<times> orders) res" where
  "lifecycle_fill os cid q =
     res_bind (lifecycle_get_or_raise os cid) (\<lambda>current.
       if q \<le> 0 \<or> or_quantity current < dadd (or_filled_quantity current) q
       then Inl (ValueError ''invalid fill quantity'')
       else let filled = dadd (or_filled_quantity current) q;
                status = (if filled = or_quantity current then FILLED else PARTIALLY_FILLED);
                updated = current\<lparr>or_filled_quantity := filled, or_status := status\<rparr>
            in Inr (updated, dict_set cid updated os))"

definition lifecycle_cancel :: "orders \<Rightarrow> string \<Rightarrow> (order_record \<times> orders) res" where
  "lifecycle_cancel os cid =
     res_bind (lifecycle_get_or_raise os cid) (\<lambda>current.
       if terminal (or_status current) then Inr (current, os)
       else let updated = current\<lparr>or_status := CANCELED\<rparr> in Inr (updated, dict_set cid updated os))"

section \<open>Runs\<close>

datatype order_event = Submit string string string decimal | Fill_Order string decimal | Cancel_Order string

fun order_step :: "orders \<Rightarrow> order_event \<Rightarrow> orders" where
  "order_step os (Submit cid symb side q) =
     (case lifecycle_submit os (new_order cid symb side q) of Inl _ \<Rightarrow> os | Inr (_, os') \<Rightarrow> os')"
| "order_step os (Fill_Order cid q) =
     (case lifecycle_fill os cid q of Inl _ \<Rightarrow> os | Inr (_, os') \<Rightarrow> os')"
| "order_step os (Cancel_Order cid) =
     (case lifecycle_cancel os cid of Inl _ \<Rightarrow> os | Inr (_, os') \<Rightarrow> os')"

section \<open>Outcomes of the operations\<close>

lemma terminal_simps [simp]:
  "terminal FILLED" "terminal CANCELED" "terminal REJECTED" "\<not> terminal NEW" "\<not> terminal PARTIALLY_FILLED"
  by (simp_all add: terminal_def)

lemma new_order_simps [simp]:
  "or_client_order_id (new_order c s d q) = c" "or_symbol (new_order c s d q) = s"
  "or_side (new_order c s d q) = d" "or_quantity (new_order c s d q) = q"
  "or_filled_quantity (new_order c s d q) = 0" "or_status (new_order c s d q) = NEW"
  by (simp_all add: new_order_def)

lemma lifecycle_get_or_raise_eq_Inr [res_simps]:
  "lifecycle_get_or_raise os cid = Inr r \<longleftrightarrow> dict_get os cid = Some r"
  by (auto simp: lifecycle_get_or_raise_def lifecycle_get_def split: option.splits)

lemma lifecycle_fill_eq_Inr [res_simps]:
  "lifecycle_fill os cid q = Inr (u, os') \<longleftrightarrow>
     (\<exists>r. dict_get os cid = Some r \<and> 0 < q \<and> dadd (or_filled_quantity r) q \<le> or_quantity r
       \<and> u = r\<lparr>or_filled_quantity := dadd (or_filled_quantity r) q,
                or_status := (if dadd (or_filled_quantity r) q = or_quantity r then FILLED else PARTIALLY_FILLED)\<rparr>
       \<and> os' = dict_set cid u os)"
  by (cases "dict_get os cid")
    (simp_all add: lifecycle_fill_def lifecycle_get_or_raise_def lifecycle_get_def Let_def not_le not_less,
     metis not_le)

lemma lifecycle_cancel_eq_Inr [res_simps]:
  "lifecycle_cancel os cid = Inr (u, os') \<longleftrightarrow>
     (\<exists>r. dict_get os cid = Some r \<and>
       (if terminal (or_status r) then u = r \<and> os' = os
        else u = r\<lparr>or_status := CANCELED\<rparr> \<and> os' = dict_set cid u os))"
  by (cases "dict_get os cid")
    (simp_all add: lifecycle_cancel_def lifecycle_get_or_raise_def lifecycle_get_def Let_def, metis)

lemma lifecycle_submit_eq_Inr [res_simps]:
  "lifecycle_submit os ord = Inr (u, os') \<longleftrightarrow>
     u = ord \<and> (case dict_get os (or_client_order_id ord) of
        None \<Rightarrow> os' = dict_set (or_client_order_id ord) ord os
      | Some r \<Rightarrow> r = ord \<and> os' = os)"
  by (auto simp: lifecycle_submit_def split: option.splits if_splits)

section \<open>The invariant of the registry\<close>

definition order_ok :: "order_record \<Rightarrow> bool" where
  "order_ok r = (0 \<le> or_filled_quantity r
     \<and> (0 < or_filled_quantity r \<longrightarrow> or_filled_quantity r \<le> or_quantity r)
     \<and> (or_status r = NEW \<longrightarrow> or_filled_quantity r = 0)
     \<and> (or_status r = FILLED \<longrightarrow> or_filled_quantity r = or_quantity r)
     \<and> (or_status r = PARTIALLY_FILLED \<longrightarrow> 0 < or_filled_quantity r \<and> or_filled_quantity r < or_quantity r))"

definition orders_ok :: "orders \<Rightarrow> bool" where
  "orders_ok os = (dict_wf os \<and> (\<forall>(cid, r) \<in> set os. order_ok r \<and> or_client_order_id r = cid))"

lemma orders_ok_empty [simp]: "orders_ok []"
  by (simp add: orders_ok_def)

lemma orders_ok_set:
  "orders_ok os \<Longrightarrow> order_ok r \<Longrightarrow> or_client_order_id r = cid \<Longrightarrow> orders_ok (dict_set cid r os)"
  using set_dict_set_subset [of cid r os] by (auto simp: orders_ok_def)

lemma orders_okD: "orders_ok os \<Longrightarrow> dict_get os cid = Some r \<Longrightarrow> order_ok r \<and> or_client_order_id r = cid"
  by (auto simp: orders_ok_def dest: dict_get_mem)

lemma order_ok_new [simp]: "order_ok (new_order cid symb side q)"
  by (simp add: order_ok_def)

lemma order_ok_fill:
  assumes "order_ok r" and "0 < q" and "dadd (or_filled_quantity r) q \<le> or_quantity r"
  shows "order_ok (r\<lparr>or_filled_quantity := dadd (or_filled_quantity r) q,
    or_status := (if dadd (or_filled_quantity r) q = or_quantity r then FILLED else PARTIALLY_FILLED)\<rparr>)"
proof -
  have "0 < dadd (or_filled_quantity r) q"
    using assms by (auto simp: dadd_def order_ok_def intro: ctx.rnd_add_pos)
  then show ?thesis using assms by (auto simp: order_ok_def)
qed

lemma order_ok_cancel: "order_ok r \<Longrightarrow> order_ok (r\<lparr>or_status := CANCELED\<rparr>)"
  by (simp add: order_ok_def)

lemma lifecycle_fill_ok:
  "orders_ok os \<Longrightarrow> lifecycle_fill os cid q = Inr (u, os') \<Longrightarrow> orders_ok os'"
  by (auto simp: res_simps intro!: orders_ok_set order_ok_fill dest: orders_okD)

lemma lifecycle_cancel_ok:
  "orders_ok os \<Longrightarrow> lifecycle_cancel os cid = Inr (u, os') \<Longrightarrow> orders_ok os'"
  by (auto simp: res_simps intro!: orders_ok_set order_ok_cancel dest: orders_okD split: if_splits)

lemma lifecycle_submit_ok:
  "orders_ok os \<Longrightarrow> order_ok ord \<Longrightarrow> lifecycle_submit os ord = Inr (u, os') \<Longrightarrow> orders_ok os'"
  by (auto simp: res_simps intro!: orders_ok_set split: option.splits)

interpretation registry: step_invariant order_step orders_ok
proof
  fix os e
  assume ok: "orders_ok os"
  show "orders_ok (order_step os e)"
    using ok by (cases e) (auto dest: lifecycle_submit_ok [OF _ order_ok_new] lifecycle_fill_ok
        lifecycle_cancel_ok split: sum.splits)
qed

end
