(* ===== verification/Environment.thy ===== *)
theory Environment
  imports Prelude
begin

text \<open>
  \<open>environment.py\<close>, \<open>live_approval.py\<close> and \<open>triggers.py\<close>: the execution mode of the runtime, its
  authorised transitions, the human approval gate in front of \<open>REAL_LIVE\<close>, and the registered
  time and KPI triggers.

  Times are instants (microseconds, UTC) passed in by the caller where the code reads the clock.
  \<open>hmac_hex secret message\<close> (the hex digest of HMAC-SHA256), \<open>parse_iso\<close>
  (\<open>datetime.fromisoformat(..).astimezone(UTC)\<close>), and the renderings of instants and floats in
  messages are parameters. KPI thresholds and values are compared only, and are rationals. The
  lock of the controller is not modelled: an operation is one step.
\<close>

section \<open>Modes\<close>

datatype exec_mode = PAPER_SANDBOX | VIRTUAL_BACKTEST | REAL_LIVE

fun mode_value :: "exec_mode \<Rightarrow> string" where
  "mode_value PAPER_SANDBOX = ''PAPER_SANDBOX''"
| "mode_value VIRTUAL_BACKTEST = ''VIRTUAL_BACKTEST''"
| "mode_value REAL_LIVE = ''REAL_LIVE''"

lemma mode_value_inject [simp]: "mode_value a = mode_value b \<longleftrightarrow> a = b"
  by (cases a; cases b) simp_all

section \<open>The environment approval gate (live_approval.py)\<close>

record live_approval =
  la_approved_by :: string
  la_approved_at :: int
  la_reason :: string

record env_gate =
  eg_approval :: "live_approval option"

definition env_gate_init :: env_gate where
  "env_gate_init = \<lparr>eg_approval = None\<rparr>"

definition env_gate_approve :: "env_gate \<Rightarrow> string \<Rightarrow> string \<Rightarrow> int \<Rightarrow> (live_approval \<times> env_gate) res" where
  "env_gate_approve g operator reason now =
     (if strip operator = [] \<or> strip reason = [] then Inl (ValueError ''operator and reason are required'')
      else let a = \<lparr>la_approved_by = operator, la_approved_at = now, la_reason = reason\<rparr>
           in Inr (a, g\<lparr>eg_approval := Some a\<rparr>))"

definition env_gate_revoke :: "env_gate \<Rightarrow> env_gate" where
  "env_gate_revoke g = g\<lparr>eg_approval := None\<rparr>"

definition env_gate_require :: "env_gate \<Rightarrow> exec_mode \<Rightarrow> unit res" where
  "env_gate_require g m = raise_if (m = REAL_LIVE \<and> eg_approval g = None)
     (EnvironmentTransitionError ''REAL_LIVE requires explicit live approval'')"

definition env_gate_approved :: "env_gate \<Rightarrow> bool" where
  "env_gate_approved g = (eg_approval g \<noteq> None)"

section \<open>The controller (environment.py)\<close>

record env_snapshot =
  es_mode :: exec_mode
  es_version :: int
  es_changed_at :: int
  es_changed_by :: string

text \<open>
  The gate is an object the caller keeps a reference to, so its operations act on the gate
  inside the controller.
\<close>

record env_ctl =
  ec_transition_secret :: "string option"
  ec_live_approval_gate :: "env_gate option"
  ec_mode :: exec_mode
  ec_version :: int
  ec_changed_at :: int
  ec_changed_by :: string
  ec_time_triggers :: "(string, exec_mode) dict"
  ec_kpi_triggers :: "(string, rat \<times> exec_mode) dict"

definition env_init :: "exec_mode \<Rightarrow> string option \<Rightarrow> env_gate option \<Rightarrow> int \<Rightarrow> env_ctl res" where
  "env_init initial secret gate now =
     (let c = \<lparr>ec_transition_secret = secret, ec_live_approval_gate = gate, ec_mode = initial,
               ec_version = 0, ec_changed_at = now, ec_changed_by = ''system'',
               ec_time_triggers = [], ec_kpi_triggers = []\<rparr>
      in if initial = REAL_LIVE
         then (case gate of
             None \<Rightarrow> Inl (EnvironmentTransitionError ''REAL_LIVE requires explicit live approval at startup'')
           | Some g \<Rightarrow> if \<not> env_gate_approved g
               then Inl (EnvironmentTransitionError ''REAL_LIVE requires explicit live approval at startup'')
               else Inr c)
         else Inr c)"

definition get_current_mode :: "env_ctl \<Rightarrow> exec_mode" where
  "get_current_mode c = ec_mode c"

definition env_snapshot_of :: "env_ctl \<Rightarrow> env_snapshot" where
  "env_snapshot_of c = \<lparr>es_mode = ec_mode c, es_version = ec_version c,
     es_changed_at = ec_changed_at c, es_changed_by = ec_changed_by c\<rparr>"

fun allowed_skills :: "exec_mode \<Rightarrow> string list" where
  "allowed_skills PAPER_SANDBOX = [''skill-virtual-matching-engine'', ''skill-market-data'']"
| "allowed_skills VIRTUAL_BACKTEST = [''skill-virtual-matching-engine'', ''skill-historical-data'']"
| "allowed_skills REAL_LIVE = [''skill-toss-broker'', ''skill-kb-broker'', ''skill-market-data'',
     ''skill-risk-circuit-breaker'']"

definition is_skill_allowed :: "env_ctl \<Rightarrow> string \<Rightarrow> bool" where
  "is_skill_allowed c skill = (skill \<in> set (allowed_skills (ec_mode c)))"

definition assert_skill_allowed :: "env_ctl \<Rightarrow> string \<Rightarrow> unit res" where
  "assert_skill_allowed c skill = raise_if (\<not> is_skill_allowed c skill)
     (EnvironmentTransitionError (''skill '' @ [CHR 0x27] @ skill @ [CHR 0x27] @
        '' is forbidden in mode '' @ mode_value (get_current_mode c)))"

definition authorized :: "(string \<Rightarrow> string \<Rightarrow> string) \<Rightarrow> env_ctl \<Rightarrow> string \<Rightarrow> bool" where
  "authorized hmac_hex c token =
     (case ec_transition_secret c of
        None \<Rightarrow> False
      | Some secret \<Rightarrow>
          if secret = [] \<or> token = [] then False
          else hmac_hex secret ''environment-transition'' = token)"

text \<open>
  Every argument of \<open>set_mode\<close> of type \<^typ>\<open>exec_mode\<close> passes its \<open>isinstance\<close> check.
\<close>

definition set_mode ::
  "(string \<Rightarrow> string \<Rightarrow> string) \<Rightarrow> env_ctl \<Rightarrow> exec_mode \<Rightarrow> string \<Rightarrow> string \<Rightarrow> int \<Rightarrow> (bool \<times> env_ctl) res" where
  "set_mode hmac_hex c m token actor now =
     res_bind (raise_if (\<not> authorized hmac_hex c token)
         (EnvironmentTransitionError ''environment transition authorization failed'')) (\<lambda>_.
     res_bind (if m = REAL_LIVE
         then (case ec_live_approval_gate c of
             None \<Rightarrow> Inl (EnvironmentTransitionError ''REAL_LIVE requires LiveApprovalGate'')
           | Some g \<Rightarrow> env_gate_require g m)
         else Inr ()) (\<lambda>_.
     Inr (True, c\<lparr>ec_mode := m, ec_version := ec_version c + 1, ec_changed_at := now,
                  ec_changed_by := actor\<rparr>)))"

text \<open>\<open>s.replace("Z", "+00:00")\<close>.\<close>

definition replace_Z :: "string \<Rightarrow> string" where
  "replace_Z s = concat (map (\<lambda>ch. if ch = CHR ''Z'' then ''+00:00'' else [ch]) s)"

definition register_time_trigger ::
  "(string \<Rightarrow> int option) \<Rightarrow> env_ctl \<Rightarrow> string \<Rightarrow> exec_mode \<Rightarrow> (bool \<times> env_ctl) res" where
  "register_time_trigger parse_iso c target m =
     (case parse_iso (replace_Z target) of
        None \<Rightarrow> Inl (ValueError ''Invalid isoformat string'')
      | Some _ \<Rightarrow> Inr (True, c\<lparr>ec_time_triggers := dict_set target m (ec_time_triggers c)\<rparr>))"

definition register_kpi_trigger :: "env_ctl \<Rightarrow> string \<Rightarrow> rat \<Rightarrow> exec_mode \<Rightarrow> (bool \<times> env_ctl) res" where
  "register_kpi_trigger c metric threshold m =
     (if metric = [] then Inl (ValueError ''invalid KPI trigger'')
      else Inr (True, c\<lparr>ec_kpi_triggers := dict_set metric (threshold, m) (ec_kpi_triggers c)\<rparr>))"

definition evaluate_kpi :: "env_ctl \<Rightarrow> string \<Rightarrow> rat \<Rightarrow> exec_mode option" where
  "evaluate_kpi c metric v =
     (case dict_get (ec_kpi_triggers c) metric of
        None \<Rightarrow> None
      | Some (threshold, m) \<Rightarrow> if threshold \<le> v then Some m else None)"

section \<open>Trigger decisions (triggers.py)\<close>

record trigger_decision =
  td_target_mode :: "exec_mode option"
  td_reason :: string
  td_requires_human_approval :: bool

definition trigger_evaluate_kpi :: "(rat \<Rightarrow> string) \<Rightarrow> env_ctl \<Rightarrow> string \<Rightarrow> rat \<Rightarrow> trigger_decision" where
  "trigger_evaluate_kpi show_float c metric v =
     (case evaluate_kpi c metric v of
        None \<Rightarrow> \<lparr>td_target_mode = None, td_reason = ''KPI threshold not met'',
                 td_requires_human_approval = False\<rparr>
      | Some m \<Rightarrow> \<lparr>td_target_mode = Some m,
                   td_reason = ''KPI '' @ metric @ '' reached '' @ show_float v,
                   td_requires_human_approval = (m = REAL_LIVE)\<rparr>)"

text \<open>The loop over the registered time triggers, in the order of registration.\<close>

fun scan_time_triggers ::
  "(string \<Rightarrow> int option) \<Rightarrow> (int \<Rightarrow> string) \<Rightarrow> int \<Rightarrow> (string \<times> exec_mode) list \<Rightarrow> trigger_decision res" where
  "scan_time_triggers parse_iso show_time now [] =
     Inr \<lparr>td_target_mode = None, td_reason = ''time trigger not reached'', td_requires_human_approval = False\<rparr>"
| "scan_time_triggers parse_iso show_time now ((target_time, m) # rest) =
     (case parse_iso (replace_Z target_time) of
        None \<Rightarrow> Inl (ValueError ''Invalid isoformat string'')
      | Some target \<Rightarrow>
          if target \<le> now
          then Inr \<lparr>td_target_mode = Some m, td_reason = ''time trigger reached: '' @ show_time target,
                    td_requires_human_approval = (m = REAL_LIVE)\<rparr>
          else scan_time_triggers parse_iso show_time now rest)"

definition trigger_evaluate_time ::
  "(string \<Rightarrow> int option) \<Rightarrow> (int \<Rightarrow> string) \<Rightarrow> env_ctl \<Rightarrow> int \<Rightarrow> trigger_decision res" where
  "trigger_evaluate_time parse_iso show_time c now =
     scan_time_triggers parse_iso show_time now (ec_time_triggers c)"

section \<open>Runs of the controller\<close>

datatype env_event =
    SetMode exec_mode string string int
  | ApproveGate string string int
  | RevokeGate
  | RegisterTime string exec_mode
  | RegisterKpi string rat exec_mode

text \<open>One call; a call that raises leaves the controller as it was.\<close>

fun env_step ::
  "(string \<Rightarrow> string \<Rightarrow> string) \<Rightarrow> (string \<Rightarrow> int option) \<Rightarrow> env_ctl \<Rightarrow> env_event \<Rightarrow> env_ctl" where
  "env_step hmac_hex parse_iso c (SetMode m token actor now) =
     (case set_mode hmac_hex c m token actor now of Inl _ \<Rightarrow> c | Inr (_, c') \<Rightarrow> c')"
| "env_step hmac_hex parse_iso c (ApproveGate operator reason now) =
     (case ec_live_approval_gate c of
        None \<Rightarrow> c
      | Some g \<Rightarrow> (case env_gate_approve g operator reason now of
            Inl _ \<Rightarrow> c | Inr (_, g') \<Rightarrow> c\<lparr>ec_live_approval_gate := Some g'\<rparr>))"
| "env_step hmac_hex parse_iso c RevokeGate =
     c\<lparr>ec_live_approval_gate := map_option env_gate_revoke (ec_live_approval_gate c)\<rparr>"
| "env_step hmac_hex parse_iso c (RegisterTime target m) =
     (case register_time_trigger parse_iso c target m of Inl _ \<Rightarrow> c | Inr (_, c') \<Rightarrow> c')"
| "env_step hmac_hex parse_iso c (RegisterKpi metric t m) =
     (case register_kpi_trigger c metric t m of Inl _ \<Rightarrow> c | Inr (_, c') \<Rightarrow> c')"

section \<open>Lemmas\<close>

lemma set_mode_eq_Inr [res_simps]:
  "set_mode h c m token actor now = Inr (b, c') \<longleftrightarrow>
     authorized h c token
     \<and> (m = REAL_LIVE \<longrightarrow> (\<exists>g. ec_live_approval_gate c = Some g \<and> env_gate_approved g))
     \<and> b \<and> c' = c\<lparr>ec_mode := m, ec_version := ec_version c + 1, ec_changed_at := now, ec_changed_by := actor\<rparr>"
  by (auto simp: set_mode_def env_gate_require_def env_gate_approved_def res_simps split: option.splits if_splits)

lemma register_time_trigger_eq_Inr [res_simps]:
  "register_time_trigger p c t m = Inr (b, c') \<longleftrightarrow>
     p (replace_Z t) \<noteq> None \<and> b \<and> c' = c\<lparr>ec_time_triggers := dict_set t m (ec_time_triggers c)\<rparr>"
  by (auto simp: register_time_trigger_def split: option.splits)

lemma register_kpi_trigger_eq_Inr [res_simps]:
  "register_kpi_trigger c k t m = Inr (b, c') \<longleftrightarrow>
     k \<noteq> [] \<and> b \<and> c' = c\<lparr>ec_kpi_triggers := dict_set k (t, m) (ec_kpi_triggers c)\<rparr>"
  by (auto simp: register_kpi_trigger_def)

lemma env_gate_approve_eq_Inr [res_simps]:
  "env_gate_approve g op r now = Inr (a, g') \<longleftrightarrow>
     strip op \<noteq> [] \<and> strip r \<noteq> [] \<and> a = \<lparr>la_approved_by = op, la_approved_at = now, la_reason = r\<rparr>
     \<and> g' = g\<lparr>eg_approval := Some a\<rparr>"
  by (auto simp: env_gate_approve_def Let_def)

text \<open>What one call can change, event by event.\<close>

lemma env_step_SetMode_cases:
  obtains (raises) "env_step h p c (SetMode m t a n) = c"
  | (moves) "authorized h c t"
      "m = REAL_LIVE \<longrightarrow> (\<exists>g. ec_live_approval_gate c = Some g \<and> env_gate_approved g)"
      "env_step h p c (SetMode m t a n)
        = c\<lparr>ec_mode := m, ec_version := ec_version c + 1, ec_changed_at := n, ec_changed_by := a\<rparr>"
  by (cases "set_mode h c m t a n") (auto simp: res_simps intro: that)

definition env_gate_on :: "env_ctl \<Rightarrow> bool" where
  "env_gate_on c = (case ec_live_approval_gate c of None \<Rightarrow> False | Some g \<Rightarrow> env_gate_approved g)"

lemma env_step_other_fields:
  assumes "\<And>m t a n. e \<noteq> SetMode m t a n"
  shows "env_snapshot_of (env_step h p c e) = env_snapshot_of c"
  using assms
  by (cases e) (auto simp: env_snapshot_of_def res_simps split: option.splits sum.splits prod.splits)

lemma env_step_secret [simp]: "ec_transition_secret (env_step h p c e) = ec_transition_secret c"
  by (cases e) (auto simp: res_simps split: option.splits sum.splits prod.splits)

lemma env_step_gate_on:
  "env_gate_on (env_step h p c e) \<Longrightarrow> env_gate_on c \<or> (\<exists>op r n. e = ApproveGate op r n)"
  by (cases e) (auto simp: env_gate_on_def env_gate_revoke_def env_gate_approved_def res_simps
      split: option.splits sum.splits prod.splits)

lemma env_step_revoke: "\<not> env_gate_on (env_step h p c RevokeGate)"
  by (auto simp: env_gate_on_def env_gate_approved_def env_gate_revoke_def split: option.splits)

lemma env_gate_on_run:
  assumes "\<not> env_gate_on c" and "env_gate_on (foldl (env_step h p) c es)"
  shows "\<exists>es1 op r n es2. es = es1 @ ApproveGate op r n # es2 \<and> RevokeGate \<notin> set es2"
  using assms(2)
proof (induction es rule: rev_induct)
  case Nil
  then show ?case using assms(1) by simp
next
  case (snoc e es)
  let ?d = "foldl (env_step h p) c es"
  have on: "env_gate_on (env_step h p ?d e)" using snoc.prems by simp
  then have ne: "e \<noteq> RevokeGate" using env_step_revoke by auto
  from env_step_gate_on [OF on] show ?case
  proof
    assume "env_gate_on ?d"
    then obtain es1 op r n es2 where
      "es = es1 @ ApproveGate op r n # es2" "RevokeGate \<notin> set es2"
      using snoc.IH by blast
    then have "es @ [e] = es1 @ ApproveGate op r n # (es2 @ [e]) \<and> RevokeGate \<notin> set (es2 @ [e])"
      using ne by auto
    then show ?thesis by blast
  next
    assume "\<exists>op r n. e = ApproveGate op r n"
    then obtain op r n where "e = ApproveGate op r n" by blast
    then have "es @ [e] = es @ ApproveGate op r n # [] \<and> RevokeGate \<notin> set []" by simp
    then show ?thesis by blast
  qed
qed

lemma env_step_mode:
  assumes "ec_mode (env_step h p c e) \<noteq> ec_mode c"
  shows "\<exists>t a n. e = SetMode (ec_mode (env_step h p c e)) t a n \<and> authorized h c t
    \<and> (ec_mode (env_step h p c e) = REAL_LIVE \<longrightarrow> env_gate_on c)"
proof (cases "\<exists>m t a n. e = SetMode m t a n")
  case True
  then obtain m t a n where e: "e = SetMode m t a n" by blast
  show ?thesis
    by (rule env_step_SetMode_cases [of h p c m t a n])
      (use assms e in \<open>auto simp: env_gate_on_def\<close>)
next
  case False
  then have "env_snapshot_of (env_step h p c e) = env_snapshot_of c" by (intro env_step_other_fields) auto
  then show ?thesis using assms by (simp add: env_snapshot_of_def)
qed

lemma env_run_enters_live:
  assumes "ec_mode c \<noteq> REAL_LIVE" and "ec_mode (foldl (env_step h p) c es) = REAL_LIVE"
  shows "\<exists>es1 t a n es2. es = es1 @ SetMode REAL_LIVE t a n # es2
    \<and> authorized h (foldl (env_step h p) c es1) t \<and> env_gate_on (foldl (env_step h p) c es1)"
  using assms(2)
proof (induction es rule: rev_induct)
  case Nil
  then show ?case using assms(1) by simp
next
  case (snoc e es)
  let ?d = "foldl (env_step h p) c es"
  show ?case
  proof (cases "ec_mode ?d = REAL_LIVE")
    case True
    then obtain es1 t a n es2 where
      "es = es1 @ SetMode REAL_LIVE t a n # es2 \<and> authorized h (foldl (env_step h p) c es1) t
        \<and> env_gate_on (foldl (env_step h p) c es1)"
      using snoc.IH by blast
    then show ?thesis by (intro exI [of _ es1] exI [of _ t] exI [of _ a] exI [of _ n] exI [of _ "es2 @ [e]"]) simp
  next
    case False
    then have "ec_mode (env_step h p ?d e) \<noteq> ec_mode ?d" using snoc.prems by auto
    from env_step_mode [OF this] snoc.prems
    obtain t a n where "e = SetMode REAL_LIVE t a n" "authorized h ?d t" "env_gate_on ?d" by auto
    then show ?thesis by (intro exI [of _ es] exI [of _ t] exI [of _ a] exI [of _ n] exI [of _ "[]"]) simp
  qed
qed

lemma authorized_secret: "ec_transition_secret c = ec_transition_secret d \<Longrightarrow> authorized h c t = authorized h d t"
  by (simp add: authorized_def)

lemma env_run_secret [simp]:
  "ec_transition_secret (foldl (env_step h p) c es) = ec_transition_secret c"
  by (induction es arbitrary: c) auto

subsection \<open>The version identifies the snapshot\<close>

definition version_at_least :: "env_ctl \<Rightarrow> env_ctl \<Rightarrow> bool" where
  "version_at_least c0 c = (ec_version c0 \<le> ec_version c
     \<and> (ec_version c = ec_version c0 \<longrightarrow> env_snapshot_of c = env_snapshot_of c0))"

interpretation versioned: step_invariant "env_step h p" "version_at_least c0" for h p c0
proof
  fix c e
  assume inv: "version_at_least c0 c"
  show "version_at_least c0 (env_step h p c e)"
  proof (cases "\<exists>m t a n. e = SetMode m t a n")
    case True
    then obtain m t a n where "e = SetMode m t a n" by blast
    then show ?thesis
      using inv by (cases rule: env_step_SetMode_cases [of h p c m t a n]) (auto simp: version_at_least_def)
  next
    case False
    then have "env_snapshot_of (env_step h p c e) = env_snapshot_of c" by (intro env_step_other_fields) auto
    then show ?thesis using inv by (auto simp: version_at_least_def env_snapshot_of_def)
  qed
qed

subsection \<open>Registered time triggers can be read\<close>

definition time_triggers_parse :: "(string \<Rightarrow> int option) \<Rightarrow> env_ctl \<Rightarrow> bool" where
  "time_triggers_parse p c = (\<forall>t \<in> fst ` set (ec_time_triggers c). p (replace_Z t) \<noteq> None)"

lemma time_triggers_parse_add:
  assumes "time_triggers_parse p c" and "p (replace_Z t) \<noteq> None"
  shows "time_triggers_parse p (c\<lparr>ec_time_triggers := dict_set t m (ec_time_triggers c)\<rparr>)"
proof -
  have sel: "ec_time_triggers (c\<lparr>ec_time_triggers := d\<rparr>) = d" for d by simp
  show ?thesis
    using assms unfolding time_triggers_parse_def sel by (rule dict_keys_set_all)
qed

interpretation triggers: step_invariant "env_step h p" "time_triggers_parse p" for h p
proof
  fix c e
  assume inv: "time_triggers_parse p c"
  show "time_triggers_parse p (env_step h p c e)"
  proof (cases e)
    case (RegisterTime t m)
    then show ?thesis
      using inv by (cases "register_time_trigger p c t m") (auto simp: res_simps intro!: time_triggers_parse_add)
  qed (use inv in \<open>auto simp: time_triggers_parse_def res_simps split: option.splits sum.splits prod.splits\<close>)
qed

lemma scan_time_triggers_total:
  assumes "\<forall>(t, m) \<in> set ts. p (replace_Z t) \<noteq> None"
  shows "\<exists>d. scan_time_triggers p show_time now ts = Inr d
    \<and> td_requires_human_approval d = (td_target_mode d = Some REAL_LIVE)
    \<and> (case td_target_mode d of
         None \<Rightarrow> \<forall>(t, m) \<in> set ts. now < the (p (replace_Z t))
       | Some m \<Rightarrow> \<exists>t. (t, m) \<in> set ts \<and> the (p (replace_Z t)) \<le> now)"
  using assms
proof (induction ts)
  case (Cons tm ts)
  obtain t m where tm: "tm = (t, m)" by (cases tm)
  obtain i where i: "p (replace_Z t) = Some i" using Cons.prems tm by auto
  obtain d where d: "scan_time_triggers p show_time now ts = Inr d"
      "td_requires_human_approval d = (td_target_mode d = Some REAL_LIVE)"
      "case td_target_mode d of None \<Rightarrow> \<forall>(t, m) \<in> set ts. now < the (p (replace_Z t))
         | Some m \<Rightarrow> \<exists>t. (t, m) \<in> set ts \<and> the (p (replace_Z t)) \<le> now"
    using Cons by auto
  show ?case
    using d i tm by (cases "i \<le> now"; cases "td_target_mode d") (auto simp: not_le)
qed simp

text \<open>A controller as the constructor builds it, with a secret and a gate; used in examples.\<close>

definition example_ctl :: "exec_mode \<Rightarrow> env_ctl" where
  "example_ctl m = \<lparr>ec_transition_secret = Some ''k'', ec_live_approval_gate = Some env_gate_init,
    ec_mode = m, ec_version = 0, ec_changed_at = 0, ec_changed_by = ''system'',
    ec_time_triggers = [], ec_kpi_triggers = []\<rparr>"

section \<open>Properties\<close>

text \<open>
  (C5) \<open>REAL_LIVE\<close> is entered only after a human approval that no later call revoked, by a
  transition that carries the token derived from the configured secret: a controller that starts
  without an approved gate and is in \<open>REAL_LIVE\<close> after any sequence of calls has seen an
  \<open>approve\<close>, no \<open>revoke\<close> after it, and then a \<open>set_mode(REAL_LIVE)\<close> with the right token.
\<close>

theorem live_needs_approval_and_token:
  assumes init: "env_init initial secret gate now = Inr c"
    and gate: "case gate of None \<Rightarrow> True | Some g \<Rightarrow> \<not> env_gate_approved g"
    and live: "ec_mode (foldl (env_step hmac_hex parse_iso) c es) = REAL_LIVE"
  shows "\<exists>es1 operator reason n es2 token actor n' es3 key.
    es = es1 @ ApproveGate operator reason n # es2 @ SetMode REAL_LIVE token actor n' # es3
    \<and> RevokeGate \<notin> set es2 \<and> secret = Some key \<and> key \<noteq> []
    \<and> token = hmac_hex key ''environment-transition''"
proof -
  have c: "ec_mode c = initial" "ec_live_approval_gate c = gate" "ec_transition_secret c = secret"
    and nl: "initial \<noteq> REAL_LIVE"
    using init gate by (auto simp: env_init_def Let_def split: if_splits option.splits)
  have off: "\<not> env_gate_on c" using gate c by (auto simp: env_gate_on_def split: option.splits)
  obtain es0 t a n' es3 where es: "es = es0 @ SetMode REAL_LIVE t a n' # es3"
    and auth: "authorized hmac_hex (foldl (env_step hmac_hex parse_iso) c es0) t"
    and on: "env_gate_on (foldl (env_step hmac_hex parse_iso) c es0)"
    using env_run_enters_live [OF _ live] nl c by auto
  obtain es1 op r n es2 where es0: "es0 = es1 @ ApproveGate op r n # es2" "RevokeGate \<notin> set es2"
    using env_gate_on_run [OF off on] by blast
  have "\<exists>key. secret = Some key \<and> key \<noteq> [] \<and> t = hmac_hex key ''environment-transition''"
    using auth c by (auto simp: authorized_def split: option.splits if_splits)
  then show ?thesis using es es0 by fastforce
qed

theorem live_needs_approval_and_token_witness:
  "\<exists>es1 operator reason n es2 token actor n' es3 key.
    [ApproveGate ''ops'' ''go'' 5, SetMode REAL_LIVE ''kenvironment-transition'' ''ops'' 9]
      = es1 @ ApproveGate operator reason n # es2 @ SetMode REAL_LIVE token actor n' # es3
    \<and> RevokeGate \<notin> set es2 \<and> Some ''k'' = Some key \<and> key \<noteq> []
    \<and> token = key @ ''environment-transition''"
proof (rule live_needs_approval_and_token)
  show "env_init PAPER_SANDBOX (Some ''k'') (Some env_gate_init) 0 = Inr (example_ctl PAPER_SANDBOX)" by code_simp
  show "case Some env_gate_init of None \<Rightarrow> True | Some g \<Rightarrow> \<not> env_gate_approved g" by code_simp
  show "ec_mode (foldl (env_step (@) (\<lambda>_. None)) (example_ctl PAPER_SANDBOX)
      [ApproveGate ''ops'' ''go'' 5, SetMode REAL_LIVE ''kenvironment-transition'' ''ops'' 9]) = REAL_LIVE"
    by code_simp
qed

text \<open>
  The version number identifies the published snapshot: after any sequence of calls the
  version has not decreased, and if it is the same then mode, time and author of the last change
  are the same too, so a caller that compares versions misses no transition.
\<close>

theorem version_identifies_snapshot:
  "ec_version c \<le> ec_version (foldl (env_step hmac_hex parse_iso) c es)
   \<and> (ec_version (foldl (env_step hmac_hex parse_iso) c es) = ec_version c
      \<longrightarrow> env_snapshot_of (foldl (env_step hmac_hex parse_iso) c es) = env_snapshot_of c)"
proof -
  have "version_at_least c c" by (simp add: version_at_least_def)
  then have "version_at_least c (foldl (env_step hmac_hex parse_iso) c es)"
    by (rule versioned.run_inv)
  then show ?thesis by (simp add: version_at_least_def)
qed

theorem version_identifies_snapshot_witness:
  "env_snapshot_of (foldl (env_step (@) (\<lambda>_. None)) (example_ctl PAPER_SANDBOX) [SetMode REAL_LIVE ''x'' ''y'' 1, RevokeGate])
    = env_snapshot_of (example_ctl PAPER_SANDBOX)"
  by (rule version_identifies_snapshot [THEN conjunct2, rule_format]) code_simp

text \<open>
  Evaluating the time triggers of a controller that was built by its own operations never
  raises; the decision names a registered trigger that is due, or none is due, and it asks for
  human approval exactly when its target is \<open>REAL_LIVE\<close>.
\<close>

theorem time_trigger_decision:
  assumes init: "env_init initial secret gate now0 = Inr c"
    and run: "c' = foldl (env_step hmac_hex parse_iso) c es"
  shows "\<exists>d. trigger_evaluate_time parse_iso show_time c' now = Inr d
    \<and> td_requires_human_approval d = (td_target_mode d = Some REAL_LIVE)
    \<and> (case td_target_mode d of
         None \<Rightarrow> \<forall>(t, m) \<in> set (ec_time_triggers c'). now < the (parse_iso (replace_Z t))
       | Some m \<Rightarrow> \<exists>t. (t, m) \<in> set (ec_time_triggers c') \<and> the (parse_iso (replace_Z t)) \<le> now)"
proof -
  have "time_triggers_parse parse_iso c"
    using init by (auto simp: env_init_def Let_def time_triggers_parse_def split: if_splits option.splits)
  then have "time_triggers_parse parse_iso c'" unfolding run by (rule triggers.run_inv)
  then show ?thesis
    unfolding trigger_evaluate_time_def
    by (intro scan_time_triggers_total) (auto simp: time_triggers_parse_def)
qed

theorem time_trigger_decision_witness:
  "\<exists>d. trigger_evaluate_time (\<lambda>s. Some (int (length s))) (\<lambda>_. [])
      (foldl (env_step (@) (\<lambda>s. Some (int (length s)))) (example_ctl PAPER_SANDBOX) [RegisterTime ''2026'' REAL_LIVE]) 7 = Inr d
    \<and> td_requires_human_approval d = (td_target_mode d = Some REAL_LIVE)
    \<and> (case td_target_mode d of
         None \<Rightarrow> \<forall>(t, m) \<in> set (ec_time_triggers (foldl (env_step (@) (\<lambda>s. Some (int (length s))))
             (example_ctl PAPER_SANDBOX) [RegisterTime ''2026'' REAL_LIVE])). 7 < the (Some (int (length (replace_Z t))))
       | Some m \<Rightarrow> \<exists>t. (t, m) \<in> set (ec_time_triggers (foldl (env_step (@) (\<lambda>s. Some (int (length s))))
             (example_ctl PAPER_SANDBOX) [RegisterTime ''2026'' REAL_LIVE]))
           \<and> the (Some (int (length (replace_Z t)))) \<le> 7)"
proof (rule time_trigger_decision [OF _ refl])
  show "env_init PAPER_SANDBOX (Some ''k'') (Some env_gate_init) 0 = Inr (example_ctl PAPER_SANDBOX)" by code_simp
qed

end
