(* ===== verification/Execution.thy ===== *)
theory Execution
  imports Order_Lifecycle Environment
begin

text \<open>
  \<open>execution.py\<close>, the data and the \<open>VirtualMatchingEngine\<close>: paper orders, accounts and fills, and
  the matching of one order against a market price with slippage, fees and taxes.
\<close>

section \<open>Data\<close>

datatype order_side = BUY | SELL

fun side_value :: "order_side \<Rightarrow> string" where
  "side_value BUY = ''BUY''"
| "side_value SELL = ''SELL''"

lemma side_value_inject [simp]: "side_value a = side_value b \<longleftrightarrow> a = b"
  by (cases a; cases b) simp_all

datatype order_type = MARKET | LIMIT

record paper_order =
  po_symbol :: string
  po_side :: order_side
  po_quantity :: decimal
  po_order_type :: order_type
  po_limit_price :: "decimal option"
  po_client_order_id :: string

record fill =
  fl_order_id :: string
  fl_symbol :: string
  fl_side :: order_side
  fl_quantity :: decimal
  fl_price :: decimal
  fl_fee :: decimal
  fl_tax :: decimal
  fl_status :: string

record paper_account =
  pa_cash :: decimal
  pa_positions :: "(string, decimal) dict"

record matching_engine =
  me_fee_rate :: decimal
  me_sell_tax_rate :: decimal
  me_slippage_bps :: decimal
  me_max_fill_ratio :: decimal

text \<open>The engine with the default arguments of its constructor.\<close>

definition default_engine :: matching_engine where
  "default_engine = \<lparr>me_fee_rate = 15 / 100000, me_sell_tax_rate = 2 / 1000,
     me_slippage_bps = 5, me_max_fill_ratio = 1\<rparr>"

definition position_of :: "paper_account \<Rightarrow> string \<Rightarrow> decimal" where
  "position_of a s = dict_get_or (pa_positions a) s 0"

section \<open>The matching engine\<close>

definition engine_checks :: "matching_engine \<Rightarrow> paper_order \<Rightarrow> decimal \<Rightarrow> unit res" where
  "engine_checks eng ord price =
     (if po_quantity ord \<le> 0 \<or> price \<le> 0
      then Inl (ValueError ''quantity and market_price must be positive'')
      else if me_slippage_bps eng < 0 \<or> me_max_fill_ratio eng \<le> 0 \<or> 1 < me_max_fill_ratio eng
      then Inl (ValueError ''invalid matching parameters'')
      else if po_order_type ord = LIMIT then
        (case po_limit_price ord of
           None \<Rightarrow> Inl (ValueError ''limit_price required'')
         | Some lp \<Rightarrow>
             if po_side ord = BUY \<and> lp < price then Inl (ValueError ''limit buy not marketable'')
             else if po_side ord = SELL \<and> price < lp then Inl (ValueError ''limit sell not marketable'')
             else Inr ())
      else Inr ())"

definition engine_fill_qty :: "matching_engine \<Rightarrow> paper_order \<Rightarrow> decimal option \<Rightarrow> decimal" where
  "engine_fill_qty eng ord avail =
     (let q = dmul (po_quantity ord) (me_max_fill_ratio eng)
      in case avail of None \<Rightarrow> q | Some a \<Rightarrow> min q a)"

definition engine_fill_price :: "matching_engine \<Rightarrow> order_side \<Rightarrow> decimal \<Rightarrow> decimal" where
  "engine_fill_price eng side price =
     (let slip = fix28 (me_slippage_bps eng / 10000)
      in dmul price (if side = BUY then dadd 1 slip else dsub 1 slip))"

definition rejected_fill :: "paper_order \<Rightarrow> decimal \<Rightarrow> fill" where
  "rejected_fill ord price = \<lparr>fl_order_id = po_client_order_id ord, fl_symbol = po_symbol ord,
     fl_side = po_side ord, fl_quantity = 0, fl_price = price, fl_fee = 0, fl_tax = 0,
     fl_status = ''REJECTED''\<rparr>"

definition engine_fill :: "paper_order \<Rightarrow> decimal \<Rightarrow> decimal \<Rightarrow> decimal \<Rightarrow> decimal \<Rightarrow> fill" where
  "engine_fill ord fill_qty fill_price fee tax =
     \<lparr>fl_order_id = po_client_order_id ord, fl_symbol = po_symbol ord, fl_side = po_side ord,
      fl_quantity = fill_qty, fl_price = fill_price, fl_fee = fee, fl_tax = tax,
      fl_status = (if fill_qty = po_quantity ord then ''FILLED'' else ''PARTIALLY_FILLED'')\<rparr>"

definition settle_buy ::
  "paper_account \<Rightarrow> string \<Rightarrow> decimal \<Rightarrow> decimal \<Rightarrow> decimal \<Rightarrow> paper_account res" where
  "settle_buy acct symb fill_qty gross fee =
     (let position = position_of acct symb; total = dadd gross fee in
      if pa_cash acct < total then Inl (ValueError ''insufficient paper cash'')
      else Inr (acct\<lparr>pa_cash := dsub (pa_cash acct) total,
                     pa_positions := dict_set symb (dadd position fill_qty) (pa_positions acct)\<rparr>))"

definition settle_sell ::
  "paper_account \<Rightarrow> string \<Rightarrow> decimal \<Rightarrow> decimal \<Rightarrow> decimal \<Rightarrow> decimal \<Rightarrow> paper_account res" where
  "settle_sell acct symb fill_qty gross fee tax =
     (let position = position_of acct symb in
      if position < fill_qty then Inl (ValueError ''insufficient paper position'')
      else Inr (acct\<lparr>pa_cash := dadd (pa_cash acct) (dsub (dsub gross fee) tax),
                     pa_positions := dict_set symb (dsub position fill_qty) (pa_positions acct)\<rparr>))"

definition engine_execute ::
  "matching_engine \<Rightarrow> paper_account \<Rightarrow> paper_order \<Rightarrow> decimal \<Rightarrow> decimal option \<Rightarrow> (fill \<times> paper_account) res" where
  "engine_execute eng acct ord price avail =
     res_bind (engine_checks eng ord price) (\<lambda>_.
     let fill_qty = engine_fill_qty eng ord avail in
     if fill_qty \<le> 0 then Inr (rejected_fill ord price, acct)
     else
       let fill_price = engine_fill_price eng (po_side ord) price in
       res_bind (quantize_down 2 (dmul fill_qty fill_price)) (\<lambda>gross.
       res_bind (quantize_down 2 (dmul gross (me_fee_rate eng))) (\<lambda>fee.
       res_bind (if po_side ord = SELL then quantize_down 2 (dmul gross (me_sell_tax_rate eng)) else Inr 0) (\<lambda>tax.
       res_bind (if po_side ord = BUY then settle_buy acct (po_symbol ord) fill_qty gross fee
                 else settle_sell acct (po_symbol ord) fill_qty gross fee tax) (\<lambda>acct'.
       Inr (engine_fill ord fill_qty fill_price fee tax, acct'))))))"

section \<open>Outcomes\<close>

lemma engine_checks_ok:
  "engine_checks eng ord price = Inr u \<Longrightarrow>
     0 < po_quantity ord \<and> 0 < price \<and> 0 \<le> me_slippage_bps eng
     \<and> 0 < me_max_fill_ratio eng \<and> me_max_fill_ratio eng \<le> 1
     \<and> (po_order_type ord = LIMIT \<longrightarrow> (\<exists>lp. po_limit_price ord = Some lp
          \<and> (if po_side ord = BUY then price \<le> lp else lp \<le> price)))"
  by (cases "po_side ord") (auto simp: engine_checks_def split: if_splits option.splits)

lemma engine_fill_simps [simp]:
  "fl_order_id (engine_fill ord q p fee tax) = po_client_order_id ord"
  "fl_symbol (engine_fill ord q p fee tax) = po_symbol ord"
  "fl_side (engine_fill ord q p fee tax) = po_side ord"
  "fl_quantity (engine_fill ord q p fee tax) = q"
  "fl_price (engine_fill ord q p fee tax) = p"
  "fl_fee (engine_fill ord q p fee tax) = fee"
  "fl_tax (engine_fill ord q p fee tax) = tax"
  "fl_status (engine_fill ord q p fee tax) = (if q = po_quantity ord then ''FILLED'' else ''PARTIALLY_FILLED'')"
  by (simp_all add: engine_fill_def)

lemma rejected_fill_simps [simp]:
  "fl_order_id (rejected_fill ord p) = po_client_order_id ord" "fl_symbol (rejected_fill ord p) = po_symbol ord"
  "fl_side (rejected_fill ord p) = po_side ord" "fl_quantity (rejected_fill ord p) = 0"
  "fl_price (rejected_fill ord p) = p" "fl_fee (rejected_fill ord p) = 0" "fl_tax (rejected_fill ord p) = 0"
  "fl_status (rejected_fill ord p) = ''REJECTED''"
  by (simp_all add: rejected_fill_def)

lemma settle_buy_eq_Inr [res_simps]:
  "settle_buy acct s q gross fee = Inr acct' \<longleftrightarrow> dadd gross fee \<le> pa_cash acct
     \<and> acct' = acct\<lparr>pa_cash := dsub (pa_cash acct) (dadd gross fee),
                   pa_positions := dict_set s (dadd (position_of acct s) q) (pa_positions acct)\<rparr>"
  by (simp add: settle_buy_def Let_def not_less eq_commute)

lemma settle_sell_eq_Inr [res_simps]:
  "settle_sell acct s q gross fee tax = Inr acct' \<longleftrightarrow> q \<le> position_of acct s
     \<and> acct' = acct\<lparr>pa_cash := dadd (pa_cash acct) (dsub (dsub gross fee) tax),
                   pa_positions := dict_set s (dsub (position_of acct s) q) (pa_positions acct)\<rparr>"
  by (simp add: settle_sell_def Let_def not_less eq_commute)

text \<open>The three ways \<open>execute\<close> returns, with everything the code computed on the way.\<close>

lemma engine_execute_cases:
  assumes "engine_execute eng acct ord price avail = Inr (f, acct')"
  obtains (none) "engine_fill_qty eng ord avail \<le> 0" "f = rejected_fill ord price" "acct' = acct"
  | (buy) q gross fee where "po_side ord = BUY" "q = engine_fill_qty eng ord avail" "0 < q"
      "quantize_down 2 (dmul q (engine_fill_price eng BUY price)) = Inr gross"
      "quantize_down 2 (dmul gross (me_fee_rate eng)) = Inr fee"
      "settle_buy acct (po_symbol ord) q gross fee = Inr acct'"
      "f = engine_fill ord q (engine_fill_price eng BUY price) fee 0"
  | (sell) q gross fee tax where "po_side ord = SELL" "q = engine_fill_qty eng ord avail" "0 < q"
      "quantize_down 2 (dmul q (engine_fill_price eng SELL price)) = Inr gross"
      "quantize_down 2 (dmul gross (me_fee_rate eng)) = Inr fee"
      "quantize_down 2 (dmul gross (me_sell_tax_rate eng)) = Inr tax"
      "settle_sell acct (po_symbol ord) q gross fee tax = Inr acct'"
      "f = engine_fill ord q (engine_fill_price eng SELL price) fee tax"
proof (cases "engine_fill_qty eng ord avail \<le> 0")
  case True
  then have "f = rejected_fill ord price \<and> acct' = acct"
    using assms by (auto simp: engine_execute_def res_bind_eq_Inr Let_def)
  then show thesis using True none by blast
next
  case False
  note pos = this
  show thesis
  proof (cases "po_side ord")
    case BUY
    then show thesis
      using assms pos
      by (auto simp: engine_execute_def res_bind_eq_Inr Let_def not_le intro: buy [OF _ refl])
  next
    case SELL
    then show thesis
      using assms pos
      by (auto simp: engine_execute_def res_bind_eq_Inr Let_def not_le intro: sell [OF _ refl])
  qed
qed

lemma engine_execute_fill_fields:
  assumes "engine_execute eng acct ord price avail = Inr (f, acct')"
  shows "fl_order_id f = po_client_order_id ord \<and> fl_symbol f = po_symbol ord \<and> fl_side f = po_side ord"
  by (rule engine_execute_cases [OF assms]) simp_all

lemma engine_execute_checks:
  "engine_execute eng acct ord price avail = Inr r \<Longrightarrow> engine_checks eng ord price = Inr ()"
  by (auto simp: engine_execute_def res_bind_eq_Inr)

section \<open>The account\<close>

definition account_ok :: "paper_account \<Rightarrow> bool" where
  "account_ok a = (0 \<le> pa_cash a \<and> dict_wf (pa_positions a)
     \<and> (\<forall>(s, q) \<in> set (pa_positions a). 0 \<le> q))"

text \<open>Rates for which a sale never costs more than it brings.\<close>

definition rates_ok :: "matching_engine \<Rightarrow> bool" where
  "rates_ok eng = (0 \<le> me_fee_rate eng \<and> me_fee_rate eng \<le> 1/4
     \<and> 0 \<le> me_sell_tax_rate eng \<and> me_sell_tax_rate eng \<le> 1/4 \<and> me_slippage_bps eng \<le> 10000)"

lemma rates_ok_default: "rates_ok default_engine"
  by (simp add: rates_ok_def default_engine_def)

lemma fix28_numeral_one [simp]: "fix28 1 = 1"
  using fix28_rep [of 1 1 0] by simp

lemma fix28_pow10: "m \<le> 27 \<Longrightarrow> fix28 (10 ^ m) = 10 ^ m"
  using fix28_rep [of "10 ^ m" 1 "int m"] by simp

lemma position_nonneg: "account_ok a \<Longrightarrow> 0 \<le> position_of a s"
  by (auto simp: account_ok_def position_of_def dict_get_or_def split: option.splits dest: dict_get_mem)

lemma position_of_set [simp]:
  "position_of (a\<lparr>pa_cash := c, pa_positions := dict_set s q (pa_positions b)\<rparr>) s'
    = (if s' = s then q else position_of b s')"
  by (simp add: position_of_def dict_get_or_def)

lemma account_ok_set:
  assumes "account_ok a" and "0 \<le> c" and "0 \<le> q"
  shows "account_ok (a\<lparr>pa_cash := c, pa_positions := dict_set s q (pa_positions a)\<rparr>)"
  using assms set_dict_set_subset [of s q "pa_positions a"] by (auto simp: account_ok_def)

lemma slip_bounds:
  assumes "0 \<le> me_slippage_bps eng"
  shows "0 \<le> fix28 (me_slippage_bps eng / 10000)"
    and "me_slippage_bps eng \<le> 10000 \<Longrightarrow> fix28 (me_slippage_bps eng / 10000) \<le> 1"
  using assms by (auto intro: ctx.rnd_nonneg ctx.rnd_le_fixed)

lemma fill_price_nonneg:
  assumes "0 < price" and "0 \<le> me_slippage_bps eng" and "me_slippage_bps eng \<le> 10000"
  shows "0 \<le> engine_fill_price eng side price"
  using assms slip_bounds [of eng]
  by (auto simp: engine_fill_price_def Let_def dmul_def dadd_def dsub_def dec_sign_simps)

text \<open>Slippage never improves the price.\<close>

lemma fill_price_adverse:
  assumes p: "0 < price" "fix28 price = price" and s: "0 \<le> me_slippage_bps eng"
  shows "price \<le> engine_fill_price eng BUY price" and "engine_fill_price eng SELL price \<le> price"
proof -
  define slip where "slip = fix28 (me_slippage_bps eng / 10000)"
  have slip: "0 \<le> slip" using slip_bounds [OF s] by (simp add: slip_def)
  have "1 \<le> dadd 1 slip" unfolding dadd_def using slip by (intro ctx.rnd_ge_fixed) auto
  then have "price \<le> price * dadd 1 slip" using p(1) by simp
  then show "price \<le> engine_fill_price eng BUY price"
    unfolding engine_fill_price_def Let_def dmul_def slip_def [symmetric] using p(2)
    by (simp add: ctx.rnd_ge_fixed)
  have "dsub 1 slip \<le> 1" unfolding dsub_def using slip by (intro ctx.rnd_le_fixed) auto
  then have "price * dsub 1 slip \<le> price" using p(1) by (simp add: mult_le_cancel_left1)
  then show "engine_fill_price eng SELL price \<le> price"
    unfolding engine_fill_price_def Let_def dmul_def slip_def [symmetric] using p(2)
    by (simp add: ctx.rnd_le_fixed)
qed

text \<open>A charge at a rate of at most a quarter is at most half of the amount, and not negative.\<close>

lemma charge_bounds:
  assumes "quantize_down 2 (dmul g r) = Inr c" and "0 \<le> g" and "0 \<le> r" and "r \<le> 1/4"
  shows "0 \<le> c" and "c \<le> g / 2"
proof -
  have gr: "0 \<le> g * r" using assms by simp
  then have "0 \<le> dmul g r" by (simp add: dmul_def dec_sign_simps)
  from quantize_down_nonneg [OF assms(1) this] have c: "0 \<le> c" "c \<le> dmul g r" by auto
  have "g * r \<le> g * (1/4)" using assms by (intro mult_left_mono) auto
  moreover have "dmul g r \<le> 2 * (g * r)" unfolding dmul_def by (rule ctx.rnd_le_double [OF gr])
  ultimately show "0 \<le> c" "c \<le> g / 2" using c by auto
qed

lemma gross_nonneg:
  assumes "quantize_down 2 (dmul q p) = Inr g" and "0 \<le> q" and "0 \<le> p"
  shows "0 \<le> g"
  using quantize_down_nonneg [OF assms(1)] assms(2,3) by (simp add: dmul_def dec_sign_simps)

lemma proceeds_nonneg:
  assumes "0 \<le> fee" "fee \<le> g / 2" "tax \<le> g / 2" "fix28 tax = tax"
  shows "0 \<le> dsub (dsub g fee) tax"
proof -
  have "tax \<le> dsub g fee" unfolding dsub_def using assms by (intro ctx.rnd_ge_fixed) auto
  then show ?thesis by (simp add: dsub_def dec_sign_simps)
qed

lemma engine_execute_account_ok:
  assumes ok: "account_ok acct" and r: "rates_ok eng"
    and ex: "engine_execute eng acct ord price avail = Inr (f, acct')"
  shows "account_ok acct'"
proof -
  note ch = engine_checks_ok [OF engine_execute_checks [OF ex]]
  show ?thesis
  proof (rule engine_execute_cases [OF ex])
    fix q gross fee
    assume "0 < q" "settle_buy acct (po_symbol ord) q gross fee = Inr acct'"
    then show ?thesis
      using ok position_nonneg [OF ok, of "po_symbol ord"]
      by (auto simp: settle_buy_eq_Inr dsub_def dadd_def [of "position_of _ _"] dec_sign_simps intro!: account_ok_set)
  next
    fix q gross fee tax
    assume q: "0 < q" and g: "quantize_down 2 (dmul q (engine_fill_price eng SELL price)) = Inr gross"
      and fe: "quantize_down 2 (dmul gross (me_fee_rate eng)) = Inr fee"
      and tx: "quantize_down 2 (dmul gross (me_sell_tax_rate eng)) = Inr tax"
      and st: "settle_sell acct (po_symbol ord) q gross fee tax = Inr acct'"
    have "0 \<le> gross"
      by (rule gross_nonneg [OF g less_imp_le [OF q] fill_price_nonneg]) (use ch r in \<open>auto simp: rates_ok_def\<close>)
    then have "0 \<le> dsub (dsub gross fee) tax"
      using charge_bounds [OF fe] charge_bounds [OF tx] quantize_down_fix28 [OF tx] r
      by (intro proceeds_nonneg) (auto simp: rates_ok_def)
    moreover have "0 \<le> pa_cash acct" using ok by (simp add: account_ok_def)
    ultimately show ?thesis
      using st ok by (auto simp: settle_sell_eq_Inr dadd_def dsub_def [of "position_of _ _"] dec_sign_simps
          intro!: account_ok_set)
  qed (use ok in simp)
qed

lemma engine_fill_qty_le:
  assumes "fix28 (po_quantity ord) = po_quantity ord" "0 < po_quantity ord" "me_max_fill_ratio eng \<le> 1"
  shows "engine_fill_qty eng ord avail \<le> po_quantity ord"
proof -
  have "po_quantity ord * me_max_fill_ratio eng \<le> po_quantity ord"
    using assms by (simp add: mult_le_cancel_left1)
  then have "dmul (po_quantity ord) (me_max_fill_ratio eng) \<le> po_quantity ord"
    unfolding dmul_def using assms by (intro ctx.rnd_le_fixed) auto
  then show ?thesis by (auto simp: engine_fill_qty_def Let_def split: option.splits)
qed

section \<open>Money is conserved to the cent\<close>

text \<open>The traded amount of a fill, truncated to cents as the code does.\<close>

definition fill_gross :: "fill \<Rightarrow> rat" where
  "fill_gross f = of_int (trunc (dmul (fl_quantity f) (fl_price f) * 100)) / 100"

text \<open>Cash effect of a fill, without any rounding.\<close>

definition cash_effect :: "fill \<Rightarrow> rat" where
  "cash_effect f = (if fl_quantity f \<le> 0 then 0
     else if fl_side f = BUY then - (fill_gross f + fl_fee f)
     else fill_gross f - fl_fee f - fl_tax f)"

lemma fix28_cents: "grid 2 x \<Longrightarrow> \<bar>x\<bar> < 10 ^ 26 \<Longrightarrow> fix28 x = x"
  by (rule fix28_amount [of 2 26]) (simp_all add: amount_def)

lemma buy_total_exact:
  assumes "grid 2 g" "grid 2 fee" "0 \<le> g" "0 \<le> fee" "dadd g fee \<le> c" "c < 10 ^ 24"
  shows "dadd g fee = g + fee" and "g + fee \<le> c"
proof -
  have "g + fee < 10 ^ 24"
  proof (rule ccontr)
    assume "\<not> g + fee < 10 ^ 24"
    then have "(10 :: rat) ^ 24 \<le> dadd g fee"
      unfolding dadd_def by (intro ctx.rnd_ge_fixed fix28_pow10) auto
    then show False using assms by simp
  qed
  then show eq: "dadd g fee = g + fee"
    unfolding dadd_def using assms by (intro fix28_cents grid_add) auto
  show "g + fee \<le> c" using assms(5) eq by simp
qed

lemma sell_proceeds_exact:
  assumes "grid 2 g" "grid 2 fee" "grid 2 tax" "0 \<le> fee" "fee \<le> g / 2" "0 \<le> tax" "tax \<le> g / 2"
    and "g < 10 ^ 24" and "grid 2 c" "0 \<le> c" "c < 10 ^ 24"
  shows "dadd c (dsub (dsub g fee) tax) = c + (g - fee - tax)"
proof -
  have "dsub g fee = g - fee"
    unfolding dsub_def using assms by (intro fix28_cents grid_diff) auto
  moreover have "fix28 (g - fee - tax) = g - fee - tax"
    using assms by (intro fix28_cents grid_diff) auto
  moreover have "fix28 (c + (g - fee - tax)) = c + (g - fee - tax)"
    using assms by (intro fix28_cents grid_add grid_diff) auto
  ultimately show ?thesis by (simp add: dadd_def dsub_def)
qed

lemma engine_execute_cash:
  assumes ex: "engine_execute eng acct ord price avail = Inr (f, acct')"
    and r: "rates_ok eng" and c: "grid 2 (pa_cash acct)" "0 \<le> pa_cash acct" "pa_cash acct < 10 ^ 24"
    and g: "fill_gross f < 10 ^ 24"
  shows "pa_cash acct' = pa_cash acct + cash_effect f"
proof -
  note ch = engine_checks_ok [OF engine_execute_checks [OF ex]]
  have price: "0 \<le> engine_fill_price eng side price" for side
    using ch r by (intro fill_price_nonneg) (auto simp: rates_ok_def)
  show ?thesis
  proof (rule engine_execute_cases [OF ex])
    fix q gross fee
    assume b: "po_side ord = BUY" and q: "0 < q"
      and gr: "quantize_down 2 (dmul q (engine_fill_price eng BUY price)) = Inr gross"
      and fe: "quantize_down 2 (dmul gross (me_fee_rate eng)) = Inr fee"
      and st: "settle_buy acct (po_symbol ord) q gross fee = Inr acct'"
      and f: "f = engine_fill ord q (engine_fill_price eng BUY price) fee 0"
    have gg: "fill_gross f = gross" using gr f by (simp add: fill_gross_def quantize_down_eq_Inr)
    have g0: "0 \<le> gross" by (rule gross_nonneg [OF gr less_imp_le [OF q] price])
    have fee0: "0 \<le> fee" using charge_bounds(1) [OF fe g0] r by (simp add: rates_ok_def)
    note ex2 = buy_total_exact [OF quantize_down_grid [OF gr] quantize_down_grid [OF fe] g0 fee0 _ c(3)]
    have le: "dadd gross fee \<le> pa_cash acct" using st by (simp add: settle_buy_eq_Inr)
    have "dsub (pa_cash acct) (gross + fee) = pa_cash acct - (gross + fee)"
      unfolding dsub_def using c g0 fee0 ex2(2) [OF le]
      by (intro fix28_cents grid_diff grid_add quantize_down_grid [OF gr] quantize_down_grid [OF fe]) auto
    then show ?thesis
      using st f b q gg by (simp add: settle_buy_eq_Inr cash_effect_def ex2(1) [OF le])
  next
    fix q gross fee tax
    assume b: "po_side ord = SELL" and q: "0 < q"
      and gr: "quantize_down 2 (dmul q (engine_fill_price eng SELL price)) = Inr gross"
      and fe: "quantize_down 2 (dmul gross (me_fee_rate eng)) = Inr fee"
      and tx: "quantize_down 2 (dmul gross (me_sell_tax_rate eng)) = Inr tax"
      and st: "settle_sell acct (po_symbol ord) q gross fee tax = Inr acct'"
      and f: "f = engine_fill ord q (engine_fill_price eng SELL price) fee tax"
    have gg: "fill_gross f = gross" using gr f by (simp add: fill_gross_def quantize_down_eq_Inr)
    have g0: "0 \<le> gross" by (rule gross_nonneg [OF gr less_imp_le [OF q] price])
    have "dadd (pa_cash acct) (dsub (dsub gross fee) tax) = pa_cash acct + (gross - fee - tax)"
      using charge_bounds [OF fe g0] charge_bounds [OF tx g0] r g gg c
      by (intro sell_proceeds_exact quantize_down_grid [OF gr] quantize_down_grid [OF fe] quantize_down_grid [OF tx])
        (auto simp: rates_ok_def)
    then show ?thesis
      using st f b q gg by (simp add: settle_sell_eq_Inr cash_effect_def)
  qed (simp add: cash_effect_def)
qed

lemma engine_execute_other_positions:
  assumes "engine_execute eng acct ord price avail = Inr (f, acct')" and "s \<noteq> po_symbol ord"
  shows "position_of acct' s = position_of acct s"
  using assms(2)
  by (cases rule: engine_execute_cases [OF assms(1)]) (auto simp: settle_buy_eq_Inr settle_sell_eq_Inr)

text \<open>The buying slippage of the default engine is a strict surcharge.\<close>

lemma default_fill_price_above:
  assumes "0 < p"
  shows "p < engine_fill_price default_engine BUY p"
proof -
  have f: "fix28 (1 / 2000) = 1 / 2000" "fix28 (2001 / 2000) = 2001 / 2000"
    by (rule fix28_grid [of 4]; code_simp)+
  have e: "engine_fill_price default_engine BUY p = fix28 (p * (2001 / 2000))"
    by (simp add: engine_fill_price_def default_engine_def dmul_def dadd_def f)
  have "\<bar>fix28 (p * (2001 / 2000)) - p * (2001 / 2000)\<bar> \<le> \<bar>p * (2001 / 2000)\<bar> / (2 * 10 ^ 27)"
    by (rule fix28_error)
  then have "p * (2001 / 2000) * (1 - 1 / (2 * 10 ^ 27)) \<le> fix28 (p * (2001 / 2000))"
    using assms unfolding abs_le_iff by (simp add: right_diff_distrib)
  moreover have "p * 1 < p * ((2001 / 2000) * (1 - 1 / (2 * 10 ^ 27)))"
    using assms by (intro mult_strict_left_mono) simp_all
  ultimately show ?thesis unfolding e mult.assoc by linarith
qed

section \<open>Properties\<close>

text \<open>
  (C11) The paper account never goes negative: with rates of at most a quarter and a slippage of at
  most 100 percent, an execution that returns keeps cash and every position non-negative, whatever
  rounding the decimal context applies.
\<close>

theorem engine_keeps_account_solvent:
  assumes "account_ok acct" and "rates_ok eng"
    and "engine_execute eng acct ord price avail = Inr (f, acct')"
  shows "account_ok acct'"
  by (rule engine_execute_account_ok [OF assms])

text \<open>An account, an order and its fill used in examples: ten shares at 70000 won.\<close>

definition example_account :: paper_account where
  "example_account = \<lparr>pa_cash = 1000000, pa_positions = [(''000660'', 3), (''005930'', 4)]\<rparr>"

definition example_order :: "order_side \<Rightarrow> order_type \<Rightarrow> paper_order" where
  "example_order side t = \<lparr>po_symbol = ''005930'', po_side = side, po_quantity = 4, po_order_type = t,
     po_limit_price = Some 70000, po_client_order_id = ''c1''\<rparr>"

definition example_result :: "order_side \<Rightarrow> order_type \<Rightarrow> fill \<times> paper_account" where
  "example_result side t = (case engine_execute default_engine example_account (example_order side t) 70000 None of
     Inr r \<Rightarrow> r | Inl _ \<Rightarrow> (rejected_fill (example_order side t) 0, example_account))"

theorem engine_keeps_account_solvent_witness: "account_ok (snd (example_result SELL MARKET))"
  by (rule engine_keeps_account_solvent [of example_account default_engine "example_order SELL MARKET" 70000 None
        "fst (example_result SELL MARKET)"]) code_simp+

text \<open>
  (C7) Cash is conserved to the cent: for an account in whole cents below 10^24 the cash after an
  execution is exactly the cash before, minus traded amount and fee for a purchase, plus traded
  amount minus fee and tax for a sale, with no rounding loss; no other symbol's position moves.
\<close>

theorem engine_cash_conserved:
  assumes "engine_execute eng acct ord price avail = Inr (f, acct')"
    and "rates_ok eng" and "grid 2 (pa_cash acct)" and "0 \<le> pa_cash acct" and "pa_cash acct < 10 ^ 24"
    and "fill_gross f < 10 ^ 24"
  shows "pa_cash acct' = pa_cash acct + cash_effect f
    \<and> (\<forall>s. s \<noteq> po_symbol ord \<longrightarrow> position_of acct' s = position_of acct s)"
  using engine_execute_cash [OF assms] engine_execute_other_positions [OF assms(1)] by blast

theorem engine_cash_conserved_witness:
  "pa_cash (snd (example_result BUY LIMIT)) = 1000000 + cash_effect (fst (example_result BUY LIMIT))
    \<and> cash_effect (fst (example_result BUY LIMIT)) = - 28018202 / 100"
proof -
  have "pa_cash (snd (example_result BUY LIMIT)) = pa_cash example_account + cash_effect (fst (example_result BUY LIMIT))"
    by (rule engine_cash_conserved [THEN conjunct1, of default_engine example_account "example_order BUY LIMIT" 70000 None])
      code_simp+
  moreover have "pa_cash example_account = 1000000" by (simp add: example_account_def)
  moreover have "cash_effect (fst (example_result BUY LIMIT)) = - 28018202 / 100" by code_simp
  ultimately show ?thesis by simp
qed

text \<open>
  (C26) A limit purchase can be filled above its limit: the marketability check compares the limit
  with the market price, and the slippage is added afterwards. With the default engine every
  limit purchase at the market price is filled at more than its limit.
\<close>

theorem limit_buy_fills_above_limit:
  assumes "engine_execute default_engine acct ord price avail = Inr (f, acct')"
    and "po_side ord = BUY" and "po_order_type ord = LIMIT" and "po_limit_price ord = Some price"
    and "0 < fl_quantity f"
  shows "price < fl_price f"
  using engine_checks_ok [OF engine_execute_checks [OF assms(1)]] assms(2,5)
  by (cases rule: engine_execute_cases [OF assms(1)]) (auto intro: default_fill_price_above)

theorem limit_buy_fills_above_limit_witness:
  "70000 < fl_price (fst (example_result BUY LIMIT)) \<and> fl_price (fst (example_result BUY LIMIT)) = 70035"
proof
  show "70000 < fl_price (fst (example_result BUY LIMIT))"
    by (rule limit_buy_fills_above_limit [of example_account "example_order BUY LIMIT" 70000 None
          "fst (example_result BUY LIMIT)" "snd (example_result BUY LIMIT)"]) code_simp+
  show "fl_price (fst (example_result BUY LIMIT)) = 70035" by code_simp
qed

end
