(* ===== verification/Risk.thy ===== *)
theory Risk
  imports Execution
begin

text \<open>
  \<open>risk.py\<close>: the limits, the circuit breaker and the pre-trade gate \<open>RiskGuardian\<close>; and
  \<open>portfolio_risk.py\<close>: the builder that values the account's positions for the portfolio gate.
  The controller and the account are shared with other components and passed to each call.
\<close>

section \<open>Limits and state\<close>

record risk_limits =
  rl_max_order_notional :: decimal
  rl_max_position_notional :: decimal
  rl_max_daily_loss :: decimal
  rl_max_portfolio_notional :: decimal
  rl_max_market_exposure :: decimal
  rl_min_cash_reserve :: decimal

definition default_limits :: risk_limits where
  "default_limits = \<lparr>rl_max_order_notional = 1000000, rl_max_position_notional = 5000000,
     rl_max_daily_loss = 500000, rl_max_portfolio_notional = 10000000,
     rl_max_market_exposure = 50 / 100, rl_min_cash_reserve = 10 / 100\<rparr>"

text \<open>The constructor with its checks.\<close>

definition risk_limits_init :: "risk_limits \<Rightarrow> risk_limits res" where
  "risk_limits_init l =
     (if list_ex (\<lambda>v. v < 0) [rl_max_order_notional l, rl_max_position_notional l, rl_max_daily_loss l,
            rl_max_portfolio_notional l]
      then Inl (ValueError ''notional risk limits must be non-negative'')
      else if \<not> (0 \<le> rl_max_market_exposure l \<and> rl_max_market_exposure l \<le> 1)
      then Inl (ValueError ''max_market_exposure must be between 0 and 1'')
      else if \<not> (0 \<le> rl_min_cash_reserve l \<and> rl_min_cash_reserve l \<le> 1)
      then Inl (ValueError ''min_cash_reserve must be between 0 and 1'')
      else Inr l)"

record portfolio_context =
  pc_account_value :: decimal
  pc_portfolio_notional :: decimal
  pc_market_notional :: decimal
  pc_market :: string

record risk_guardian =
  rg_limits :: risk_limits
  rg_tripped :: bool
  rg_daily_pnl :: decimal

definition guardian_init :: "risk_limits option \<Rightarrow> risk_guardian" where
  "guardian_init l = \<lparr>rg_limits = (case l of None \<Rightarrow> default_limits | Some x \<Rightarrow> x), rg_tripped = False,
     rg_daily_pnl = 0\<rparr>"

definition breaker_trip :: "risk_guardian \<Rightarrow> risk_guardian" where
  "breaker_trip g = g\<lparr>rg_tripped := True\<rparr>"

definition breaker_reset :: "risk_guardian \<Rightarrow> risk_guardian" where
  "breaker_reset g = g\<lparr>rg_tripped := False\<rparr>"

section \<open>The order gate\<close>

text \<open>The cash reserve a purchase has to leave, relative to the account value or to the cash.\<close>

definition check_cash_reserve ::
  "risk_guardian \<Rightarrow> paper_account \<Rightarrow> decimal \<Rightarrow> decimal option \<Rightarrow> unit res" where
  "check_cash_reserve g acct notional value =
     (let base = (case value of None \<Rightarrow> pa_cash acct | Some v \<Rightarrow> v) in
      if base \<le> 0 then Inl (ValueError ''invalid account value'')
      else res_bind (ddiv (dsub (pa_cash acct) notional) base) (\<lambda>ratio.
        raise_if (ratio \<le> rl_min_cash_reserve (rg_limits g))
          (PermissionError ''cash reserve would fall below or equal risk limit'')))"

definition projected_position :: "paper_account \<Rightarrow> paper_order \<Rightarrow> decimal" where
  "projected_position acct ord =
     (let current = dict_get_or (pa_positions acct) (po_symbol ord) 0
      in if po_side ord = BUY then dadd current (po_quantity ord) else dsub current (po_quantity ord))"

definition approve ::
  "env_ctl \<Rightarrow> paper_account \<Rightarrow> risk_guardian \<Rightarrow> paper_order \<Rightarrow> decimal \<Rightarrow> decimal option \<Rightarrow> unit res" where
  "approve ctl acct g ord price value =
     (if rg_tripped g then Inl (PermissionError ''circuit breaker is active'')
      else if po_quantity ord \<le> 0 \<or> price \<le> 0 then Inl (ValueError ''invalid order'')
      else let notional = dmul (po_quantity ord) price in
      if rl_max_order_notional (rg_limits g) < notional
      then Inl (PermissionError ''order notional exceeds risk limit'')
      else if rg_daily_pnl g \<le> dneg (rl_max_daily_loss (rg_limits g))
      then Inl (PermissionError ''daily loss limit exceeded'')
      else res_bind (if po_side ord = BUY then check_cash_reserve g acct notional value else Inr ()) (\<lambda>_.
      let projected = projected_position acct ord in
      if projected < 0 then Inl (PermissionError ''sell quantity exceeds current position'')
      else if rl_max_position_notional (rg_limits g) < dmul projected price
      then Inl (PermissionError ''position notional exceeds risk limit'')
      else if get_current_mode ctl = REAL_LIVE
      then assert_skill_allowed ctl ''skill-risk-circuit-breaker''
      else Inr ()))"

section \<open>The portfolio gate\<close>

definition signed_notional :: "paper_order \<Rightarrow> decimal \<Rightarrow> decimal" where
  "signed_notional ord notional = (if po_side ord = BUY then notional else dneg notional)"

definition check_market_exposure :: "risk_guardian \<Rightarrow> paper_order \<Rightarrow> decimal \<Rightarrow> portfolio_context \<Rightarrow> unit res" where
  "check_market_exposure g ord notional ctxt =
     (if pc_market ctxt \<noteq> [] \<and> 0 < pc_account_value ctxt then
        (let projected = dadd (pc_market_notional ctxt) (signed_notional ord notional) in
         if projected < 0 then Inl (PermissionError ''projected market exposure is negative'')
         else res_bind (ddiv projected (pc_account_value ctxt)) (\<lambda>ratio.
           raise_if (rl_max_market_exposure (rg_limits g) \<le> ratio)
             (PermissionError ''market exposure exceeds or reaches risk limit'')))
      else Inr ())"

definition approve_portfolio ::
  "env_ctl \<Rightarrow> paper_account \<Rightarrow> risk_guardian \<Rightarrow> paper_order \<Rightarrow> decimal \<Rightarrow> portfolio_context \<Rightarrow> unit res" where
  "approve_portfolio ctl acct g ord price ctxt =
     (if pc_account_value ctxt \<le> 0 \<or> pc_portfolio_notional ctxt < 0 \<or> pc_market_notional ctxt < 0
      then Inl (ValueError ''invalid portfolio risk context'')
      else let notional = dmul (po_quantity ord) price in
      res_bind (approve ctl acct g ord price (Some (pc_account_value ctxt))) (\<lambda>_.
      res_bind (check_market_exposure g ord notional ctxt) (\<lambda>_.
      let projected = dadd (pc_portfolio_notional ctxt) (signed_notional ord notional) in
      if projected < 0 then Inl (PermissionError ''projected portfolio exposure is negative'')
      else if rl_max_portfolio_notional (rg_limits g) < projected
      then Inl (PermissionError ''portfolio notional exceeds risk limit'')
      else Inr ())))"

section \<open>The portfolio builder\<close>

record position_valuation =
  pv_symbol :: string
  pv_quantity :: decimal
  pv_price :: decimal
  pv_market :: string
  pv_notional :: decimal

record risk_snapshot =
  rs_context :: portfolio_context
  rs_cash :: decimal
  rs_cash_ratio :: decimal
  rs_positions :: "position_valuation list"
  rs_market_notionals :: "(string, decimal) dict"

text \<open>The locals of the loop over the positions.\<close>

record build_acc =
  ba_valuations :: "position_valuation list"
  ba_market_notionals :: "(string, decimal) dict"
  ba_portfolio_notional :: decimal

definition market_of :: "(string, string) dict \<Rightarrow> string \<Rightarrow> string" where
  "market_of markets symb =
     (let m = strip (dict_get_or markets symb ''UNKNOWN'') in if m = [] then ''UNKNOWN'' else m)"

definition add_valuation :: "build_acc \<Rightarrow> string \<Rightarrow> decimal \<Rightarrow> decimal \<Rightarrow> string \<Rightarrow> build_acc" where
  "add_valuation acc symb quantity price market =
     (let notional = dmul quantity price in
      \<lparr>ba_valuations = ba_valuations acc @ [\<lparr>pv_symbol = symb, pv_quantity = quantity, pv_price = price,
           pv_market = market, pv_notional = notional\<rparr>],
       ba_market_notionals = dict_set market (dadd (dict_get_or (ba_market_notionals acc) market 0) notional)
           (ba_market_notionals acc),
       ba_portfolio_notional = dadd (ba_portfolio_notional acc) notional\<rparr>)"

fun build_positions ::
  "(string, decimal) dict \<Rightarrow> (string, string) dict \<Rightarrow> (string, decimal) dict \<Rightarrow> build_acc \<Rightarrow> build_acc res" where
  "build_positions prices markets [] acc = Inr acc"
| "build_positions prices markets ((symb, quantity) # ps) acc =
     (if quantity < 0 then Inl (ValueError (''position quantity must be non-negative: '' @ symb))
      else if quantity = 0 then build_positions prices markets ps acc
      else case dict_get prices symb of
        None \<Rightarrow> Inl (ValueError (''missing price for held position: '' @ symb))
      | Some price \<Rightarrow>
          if price \<le> 0 then Inl (ValueError (''price must be positive: '' @ symb))
          else build_positions prices markets ps (add_valuation acc symb quantity price (market_of markets symb)))"

definition selected_market :: "(string, string) dict \<Rightarrow> string option \<Rightarrow> string" where
  "selected_market markets target =
     (case target of None \<Rightarrow> []
      | Some t \<Rightarrow> if t = [] then [] else (case dict_get markets t of None \<Rightarrow> [] | Some m \<Rightarrow> strip m))"

definition build_risk_context ::
  "paper_account \<Rightarrow> (string, decimal) dict \<Rightarrow> (string, string) dict \<Rightarrow> string option \<Rightarrow> risk_snapshot res" where
  "build_risk_context acct prices markets target =
     (if pa_cash acct < 0 then Inl (ValueError ''account cash must be non-negative'')
      else res_bind (build_positions prices markets (pa_positions acct)
          \<lparr>ba_valuations = [], ba_market_notionals = [], ba_portfolio_notional = 0\<rparr>) (\<lambda>acc.
      let account_value = dadd (pa_cash acct) (ba_portfolio_notional acc) in
      if account_value \<le> 0 then Inl (ValueError ''account value must be positive'')
      else
        let market = selected_market markets target;
            market_notional = (if market = [] then 0 else dict_get_or (ba_market_notionals acc) market 0)
        in res_bind (ddiv (pa_cash acct) account_value) (\<lambda>cash_ratio.
        Inr \<lparr>rs_context = \<lparr>pc_account_value = account_value, pc_portfolio_notional = ba_portfolio_notional acc,
                pc_market_notional = market_notional, pc_market = market\<rparr>,
             rs_cash = pa_cash acct, rs_cash_ratio = cash_ratio,
             rs_positions = ba_valuations acc, rs_market_notionals = ba_market_notionals acc\<rparr>)))"

section \<open>Position sizing\<close>

record sizing_config =
  sc_risk_fraction :: decimal
  sc_max_notional_fraction :: decimal
  sc_min_quantity :: decimal

definition default_sizing :: sizing_config where
  "default_sizing = \<lparr>sc_risk_fraction = 1 / 100, sc_max_notional_fraction = 20 / 100, sc_min_quantity = 1\<rparr>"

definition position_size :: "sizing_config \<Rightarrow> decimal \<Rightarrow> decimal \<Rightarrow> decimal \<Rightarrow> decimal res" where
  "position_size cfg equity price stop_distance =
     (if equity \<le> 0 \<or> price \<le> 0 \<or> stop_distance \<le> 0
      then Inl (ValueError ''equity, price and stop_distance must be positive'')
      else
      res_bind (ddiv (dmul equity (sc_risk_fraction cfg)) stop_distance) (\<lambda>risk_qty.
      res_bind (ddiv (dmul equity (sc_max_notional_fraction cfg)) price) (\<lambda>cap_qty.
      let quantity = min risk_qty cap_qty in
      if quantity < sc_min_quantity cfg then Inr 0 else quantize_even 6 quantity)))"

section \<open>What the order gate lets pass\<close>

lemma check_cash_reserve_eq_Inr [res_simps]:
  "check_cash_reserve g acct notional value = Inr u \<longleftrightarrow>
     (let base = (case value of None \<Rightarrow> pa_cash acct | Some v \<Rightarrow> v) in
      0 < base \<and> rl_min_cash_reserve (rg_limits g) < fix28 (dsub (pa_cash acct) notional / base))"
  by (auto simp: check_cash_reserve_def Let_def res_bind_eq_Inr ddiv_eq_Inr raise_if_eq not_le not_less)

lemma live_breaker_skill: "get_current_mode ctl = REAL_LIVE \<Longrightarrow> assert_skill_allowed ctl ''skill-risk-circuit-breaker'' = Inr ()"
  by (simp add: assert_skill_allowed_def is_skill_allowed_def get_current_mode_def)

lemma approve_eq_Inr [res_simps]:
  "approve ctl acct g ord price value = Inr u \<longleftrightarrow>
     \<not> rg_tripped g \<and> 0 < po_quantity ord \<and> 0 < price
     \<and> dmul (po_quantity ord) price \<le> rl_max_order_notional (rg_limits g)
     \<and> dneg (rl_max_daily_loss (rg_limits g)) < rg_daily_pnl g
     \<and> (po_side ord = BUY \<longrightarrow> check_cash_reserve g acct (dmul (po_quantity ord) price) value = Inr ())
     \<and> 0 \<le> projected_position acct ord
     \<and> dmul (projected_position acct ord) price \<le> rl_max_position_notional (rg_limits g)"
  by (auto simp: approve_def Let_def res_bind_eq_Inr not_le not_less live_breaker_skill)

text \<open>The account value a caller passes is at least the cash.\<close>

definition value_covers_cash :: "paper_account \<Rightarrow> decimal option \<Rightarrow> bool" where
  "value_covers_cash acct value = (case value of None \<Rightarrow> True | Some v \<Rightarrow> pa_cash acct \<le> v)"

lemma reserve_bounds_notional:
  assumes r: "check_cash_reserve g acct n value = Inr u" and m: "1/20 \<le> rl_min_cash_reserve (rg_limits g)"
    and v: "value_covers_cash acct value"
  shows "n < pa_cash acct * (24/25)"
proof (rule ccontr)
  let ?c = "pa_cash acct"
  define b where "b = (case value of None \<Rightarrow> ?c | Some v \<Rightarrow> v)"
  have b: "0 < b" and ratio: "rl_min_cash_reserve (rg_limits g) < fix28 (dsub ?c n / b)" and cb: "?c \<le> b"
    using r v by (auto simp: check_cash_reserve_eq_Inr Let_def b_def value_covers_cash_def split: option.splits)
  assume "\<not> n < ?c * (24/25)"
  then have "?c - n \<le> b * (1/25)" using cb by simp
  then have "dsub ?c n \<le> fix28 (b * (1/25))" unfolding dsub_def by (rule ctx.rnd_mono)
  also have "\<dots> \<le> b * (1/25) * (1001/1000)" using b by (intro fix28_slack) simp
  finally have "dsub ?c n / b \<le> 1/20" using b by (simp add: pos_divide_le_eq)
  moreover have "fix28 (1/20) = (1/20 :: rat)" by code_simp
  ultimately have "fix28 (dsub ?c n / b) \<le> 1/20" by (rule ctx.rnd_le_fixed)
  then show False using ratio m by simp
qed

text \<open>Engines whose slippage and rates are at most one percent.\<close>

definition mild_engine :: "matching_engine \<Rightarrow> bool" where
  "mild_engine eng = (0 \<le> me_slippage_bps eng \<and> me_slippage_bps eng \<le> 100 \<and> 0 < me_max_fill_ratio eng
     \<and> me_max_fill_ratio eng \<le> 1 \<and> 0 \<le> me_fee_rate eng \<and> me_fee_rate eng \<le> 1/100
     \<and> 0 \<le> me_sell_tax_rate eng \<and> me_sell_tax_rate eng \<le> 1/100)"

lemma mild_fill_price:
  assumes "mild_engine eng" and p: "0 < price"
  shows "0 \<le> engine_fill_price eng side price" and "engine_fill_price eng side price \<le> price * (1014/1000)"
proof -
  let ?s = "fix28 (me_slippage_bps eng / 10000)"
  have s: "0 \<le> me_slippage_bps eng" "me_slippage_bps eng \<le> 100" using assms by (auto simp: mild_engine_def)
  show "0 \<le> engine_fill_price eng side price" using s by (intro fill_price_nonneg [OF p]) auto
  have s0: "0 \<le> ?s" using s by (simp add: dec_sign_simps)
  have "?s \<le> me_slippage_bps eng / 10000 * (1001/1000)" using s by (intro fix28_slack) simp
  then have s1: "?s \<le> 1001/100000" using s by simp
  have b: "dadd 1 ?s \<le> 1012/1000" "dsub 1 ?s \<le> 1012/1000"
    using fix28_slack(1) [of "1 + ?s"] fix28_slack(1) [of "1 - ?s"] s0 s1 by (auto simp: dadd_def dsub_def)
  define f where "f = (if side = BUY then dadd 1 ?s else dsub 1 ?s)"
  have f: "f \<le> 1012/1000" "0 \<le> f" using b s0 s1 by (auto simp: f_def dadd_def dsub_def dec_sign_simps)
  have "price * f \<le> price * (1012/1000)" "0 \<le> price * f" using p f by simp_all
  then have "fix28 (price * f) \<le> price * (1014/1000)" using fix28_slack(1) [of "price * f"] p by linarith
  then show "engine_fill_price eng side price \<le> price * (1014/1000)"
    by (simp add: engine_fill_price_def dmul_def f_def Let_def)
qed

lemma mild_total:
  assumes e: "mild_engine eng" and p: "0 < price" and q: "0 < q'" "q' \<le> q" and n: "dmul q price < 10 ^ 25"
  shows "\<exists>gross. quantize_down 2 (dmul q' (engine_fill_price eng side price)) = Inr gross
    \<and> 0 \<le> gross \<and> gross \<le> dmul q price * (1018/1000)"
proof -
  let ?f = "engine_fill_price eng side price" and ?n = "dmul q price"
  note f = mild_fill_price [OF e p, of side]
  have "q' * ?f \<le> q * (price * (1014/1000))" using f q p by (intro mult_mono) auto
  moreover have "q * price * (999/1000) \<le> ?n" unfolding dmul_def using q p by (intro fix28_slack) auto
  moreover have "dmul q' ?f \<le> q' * ?f * (1001/1000)" unfolding dmul_def using q f by (intro fix28_slack) auto
  moreover have "0 \<le> ?n" using q p by (simp add: dmul_def dec_sign_simps)
  ultimately have b: "dmul q' ?f \<le> ?n * (1018/1000)" by simp
  have nn: "0 \<le> dmul q' ?f" using q f by (simp add: dmul_def dec_sign_simps)
  have "is_ok (quantize_down 2 (dmul q' ?f))" using b n by (intro quantize_down_ok [OF nn, of 26]) auto
  then obtain g where g: "quantize_down 2 (dmul q' ?f) = Inr g" by (auto simp: is_ok_iff)
  then show ?thesis using quantize_down_nonneg [OF g nn] b by auto
qed

lemma mild_charge:
  assumes "0 \<le> r" "r \<le> 1/100" "0 \<le> g" "g < 10 ^ 26"
  shows "\<exists>c. quantize_down 2 (dmul g r) = Inr c \<and> 0 \<le> c \<and> c \<le> g * (11/1000)"
proof -
  have "g * r \<le> g * (1/100)" using assms by (intro mult_left_mono) auto
  moreover have "0 \<le> g * r" using assms by simp
  ultimately have b: "dmul g r \<le> g * (11/1000)" and nn: "0 \<le> dmul g r"
    using fix28_slack(1) [of "g * r"] by (auto simp: dmul_def dec_sign_simps)
  have "is_ok (quantize_down 2 (dmul g r))" using b assms by (intro quantize_down_ok [OF nn, of 26]) auto
  then obtain c where c: "quantize_down 2 (dmul g r) = Inr c" by (auto simp: is_ok_iff)
  then show ?thesis using quantize_down_nonneg [OF c nn] b by auto
qed

text \<open>An order the gate lets pass is executed: the engine never refuses it for lack of cash or shares.\<close>

lemma approved_order_executes:
  assumes ap: "approve ctl acct g ord price value = Inr u" and v: "value_covers_cash acct value" and e: "mild_engine eng"
    and m: "1/20 \<le> rl_min_cash_reserve (rg_limits g)" and lim: "rl_max_order_notional (rg_limits g) < 10 ^ 25"
    and t: "po_order_type ord = MARKET" and q: "fix28 (po_quantity ord) = po_quantity ord"
  shows "is_ok (engine_execute eng acct ord price avail)"
proof -
  let ?q = "po_quantity ord" and ?q' = "engine_fill_qty eng ord avail" and ?n = "dmul (po_quantity ord) price"
  note a = ap [unfolded approve_eq_Inr]
  have p: "0 < price" "0 < ?q" and n: "?n < 10 ^ 25" using a lim by auto
  have er: "me_max_fill_ratio eng \<le> 1" using e by (simp add: mild_engine_def)
  have le: "?q' \<le> ?q" by (rule engine_fill_qty_le [OF q p(2) er])
  have ch: "engine_checks eng ord price = Inr ()"
    using p e t by (auto simp: engine_checks_def mild_engine_def)
  show ?thesis
  proof (cases "?q' \<le> 0")
    case True
    then show ?thesis by (simp add: engine_execute_def ch)
  next
    case False
    obtain gross where gr: "quantize_down 2 (dmul ?q' (engine_fill_price eng (po_side ord) price)) = Inr gross"
      "0 \<le> gross" "gross \<le> ?n * (1018/1000)"
      using mild_total [OF e p(1) _ le n] False by (auto simp: not_le)
    have g26: "gross < 10 ^ 26" using gr(3) n by simp
    obtain fee where fee: "quantize_down 2 (dmul gross (me_fee_rate eng)) = Inr fee" "0 \<le> fee" "fee \<le> gross * (11/1000)"
      using mild_charge [OF _ _ gr(2) g26] e by (auto simp: mild_engine_def)
    obtain tax where tax: "quantize_down 2 (dmul gross (me_sell_tax_rate eng)) = Inr tax"
      using mild_charge [OF _ _ gr(2) g26] e by (auto simp: mild_engine_def)
    show ?thesis
    proof (cases "po_side ord")
      case BUY
      have "check_cash_reserve g acct ?n value = Inr ()" using a BUY by simp
      from reserve_bounds_notional [OF this m v] have cash: "?n < pa_cash acct * (24/25)" .
      have "dadd gross fee \<le> (gross + fee) * (1001/1000)"
        unfolding dadd_def using gr(2) fee(2) by (intro fix28_slack) simp
      moreover have "(gross + fee) * (1001/1000) \<le> gross * (1013/1000)" using fee(3) gr(2) by (simp add: distrib_right)
      ultimately have "dadd gross fee \<le> pa_cash acct" using gr(2,3) cash by linarith
      then show ?thesis using False BUY gr(1) fee(1)
        by (simp add: engine_execute_def ch settle_buy_def Let_def)
    next
      case SELL
      then have "?q' \<le> position_of acct (po_symbol ord)"
        using a le by (auto simp: projected_position_def position_of_def dsub_def dec_sign_simps)
      then show ?thesis using False SELL gr(1) fee(1) tax
        by (simp add: engine_execute_def ch settle_sell_def Let_def)
    qed
  qed
qed

section \<open>What the builder computes\<close>

definition held_value :: "(string, decimal) dict \<Rightarrow> string \<times> decimal \<Rightarrow> rat" where
  "held_value prices = (\<lambda>(symb, q). case dict_get prices symb of None \<Rightarrow> 0 | Some p \<Rightarrow> q * p)"

definition portfolio_total :: "(string, decimal) dict \<Rightarrow> (string, decimal) dict \<Rightarrow> rat" where
  "portfolio_total prices ps = sum_list (map (held_value prices) ps)"

definition market_total ::
  "(string, decimal) dict \<Rightarrow> (string, string) dict \<Rightarrow> string \<Rightarrow> (string, decimal) dict \<Rightarrow> rat" where
  "market_total prices markets m ps =
     sum_list (map (held_value prices) (filter (\<lambda>(symb, q). market_of markets symb = m) ps))"

text \<open>Every position is zero, or positive with a positive price.\<close>

definition priced :: "(string, decimal) dict \<Rightarrow> string \<times> decimal \<Rightarrow> bool" where
  "priced prices = (\<lambda>(symb, q). 0 \<le> q \<and> (q = 0 \<or> (case dict_get prices symb of None \<Rightarrow> False | Some p \<Rightarrow> 0 < p)))"

lemma build_positions_ok:
  "is_ok (build_positions prices markets ps acc) \<longleftrightarrow> list_all (priced prices) ps"
  by (induction prices markets ps acc rule: build_positions.induct)
    (auto simp: priced_def split: option.splits)

lemma priced_value: "priced prices sq \<Longrightarrow> 0 \<le> held_value prices sq"
  by (auto simp: priced_def held_value_def split: prod.splits option.splits)

lemma portfolio_total_nonneg: "list_all (priced prices) ps \<Longrightarrow> 0 \<le> portfolio_total prices ps"
  by (auto simp: portfolio_total_def list_all_iff intro!: sum_list_nonneg priced_value)

definition lots_exact :: "(string, decimal) dict \<Rightarrow> (string, decimal) dict \<Rightarrow> bool" where
  "lots_exact prices ps = (list_all (\<lambda>(s, q). grid 6 q) ps \<and> list_all (\<lambda>(s, p). grid 2 p) prices)"

lemma exact_sum:
  assumes "grid 8 x" "grid 8 y" "0 \<le> x" "0 \<le> y" "x + y < 10 ^ 20"
  shows "dadd x y = x + y"
  unfolding dadd_def using assms by (intro fix28_amount [of 8 20]) (auto simp: amount_def grid_add)

lemma exact_notional:
  assumes "grid 6 q" "grid 2 p" "0 \<le> q * p" "q * p < 10 ^ 20"
  shows "dmul q p = q * p" and "grid 8 (q * p)"
proof -
  show g: "grid 8 (q * p)" using grid_mult [OF assms(1,2)] by simp
  then show "dmul q p = q * p" unfolding dmul_def using assms by (intro fix28_amount [of 8 20]) (auto simp: amount_def)
qed

text \<open>The accumulators of the loop stay exact: the total, and the part of it in each market.\<close>

definition acc_exact :: "build_acc \<Rightarrow> bool" where
  "acc_exact acc = (grid 8 (ba_portfolio_notional acc) \<and> (\<forall>m. grid 8 (dict_get_or (ba_market_notionals acc) m 0)
     \<and> 0 \<le> dict_get_or (ba_market_notionals acc) m 0
     \<and> dict_get_or (ba_market_notionals acc) m 0 \<le> ba_portfolio_notional acc))"

lemma add_valuation_exact:
  assumes acc: "acc_exact acc" and q: "grid 6 q" "0 \<le> q" and p: "grid 2 p" "0 \<le> p"
    and b: "ba_portfolio_notional acc + q * p < 10 ^ 20"
  shows "acc_exact (add_valuation acc s q p m)"
    and "ba_portfolio_notional (add_valuation acc s q p m) = ba_portfolio_notional acc + q * p"
    and "dict_get_or (ba_market_notionals (add_valuation acc s q p m)) k 0
      = dict_get_or (ba_market_notionals acc) k 0 + (if k = m then q * p else 0)"
proof -
  have mk: "0 \<le> dict_get_or (ba_market_notionals acc) m 0" "dict_get_or (ba_market_notionals acc) m 0 \<le> ba_portfolio_notional acc"
    "grid 8 (dict_get_or (ba_market_notionals acc) m 0)" and g: "grid 8 (ba_portfolio_notional acc)"
    using acc by (auto simp: acc_exact_def)
  have qp: "0 \<le> q * p" using q p by simp
  have "0 \<le> ba_portfolio_notional acc" using mk by linarith
  then have "q * p < 10 ^ 20" using b by linarith
  note n = exact_notional [OF q(1) p(1) qp this]
  have d: "dadd (ba_portfolio_notional acc) (q * p) = ba_portfolio_notional acc + q * p"
    "dadd (dict_get_or (ba_market_notionals acc) m 0) (q * p) = dict_get_or (ba_market_notionals acc) m 0 + q * p"
    using mk g n(2) qp b by (auto intro!: exact_sum)
  show "ba_portfolio_notional (add_valuation acc s q p m) = ba_portfolio_notional acc + q * p"
    by (simp add: add_valuation_def Let_def n(1) d)
  show "dict_get_or (ba_market_notionals (add_valuation acc s q p m)) k 0
      = dict_get_or (ba_market_notionals acc) k 0 + (if k = m then q * p else 0)"
    by (simp add: add_valuation_def Let_def n(1) d dict_get_or_set)
  show "acc_exact (add_valuation acc s q p m)"
    using acc qp n(2) by (auto simp: acc_exact_def add_valuation_def Let_def n(1) d dict_get_or_set grid_add add_increasing2)
qed

lemma build_positions_exact:
  assumes "build_positions prices markets ps acc = Inr acc'" and "acc_exact acc" and "lots_exact prices ps"
    and "ba_portfolio_notional acc + portfolio_total prices ps < 10 ^ 20"
  shows "acc_exact acc' \<and> ba_portfolio_notional acc' = ba_portfolio_notional acc + portfolio_total prices ps
    \<and> dict_get_or (ba_market_notionals acc') m 0
       = dict_get_or (ba_market_notionals acc) m 0 + market_total prices markets m ps"
  using assms
proof (induction prices markets ps acc rule: build_positions.induct)
  case (2 prices markets symb quantity ps acc)
  have pr: "list_all (priced prices) ((symb, quantity) # ps)"
    using "2.prems"(1) build_positions_ok [of prices markets "(symb, quantity) # ps" acc] by simp
  have ex: "lots_exact prices ps" "grid 6 quantity" using "2.prems"(3) by (auto simp: lots_exact_def)
  show ?case
  proof (cases "quantity = 0")
    case True
    then show ?thesis
      using 2 ex by (auto simp: portfolio_total_def market_total_def held_value_def split: option.splits)
  next
    case False
    then obtain p where p: "dict_get prices symb = Some p" "0 < p" "0 < quantity"
      using pr by (auto simp: priced_def split: option.splits)
    let ?acc = "add_valuation acc symb quantity p (market_of markets symb)"
    have pg: "grid 2 p" using "2.prems"(3) dict_get_mem [OF p(1)] by (auto simp: lots_exact_def list_all_iff)
    have tot: "portfolio_total prices ((symb, quantity) # ps) = quantity * p + portfolio_total prices ps"
      by (simp add: portfolio_total_def held_value_def p(1))
    have b: "ba_portfolio_notional acc + quantity * p < 10 ^ 20"
      using "2.prems"(4) portfolio_total_nonneg [of prices ps] pr tot by simp
    note a = add_valuation_exact [OF "2.prems"(2) ex(2) less_imp_le [OF p(3)] pg less_imp_le [OF p(2)] b]
    have run: "build_positions prices markets ps ?acc = Inr acc'" using "2.prems"(1) p False by simp
    from "2.IH"(2) [OF _ False p(1) _ run a(1) ex(1)] p(2,3) "2.prems"(4)
    show ?thesis
      by (simp add: a(2,3) tot market_total_def held_value_def p(1) add.assoc)
  qed
qed (simp add: portfolio_total_def market_total_def)

lemma build_context_exact:
  assumes b: "build_risk_context acct prices markets target = Inr snap"
    and ex: "lots_exact prices (pa_positions acct)" and tot: "portfolio_total prices (pa_positions acct) < 10 ^ 20"
  shows "pc_portfolio_notional (rs_context snap) = portfolio_total prices (pa_positions acct)"
    and "pc_market (rs_context snap) = selected_market markets target"
    and "selected_market markets target \<noteq> [] \<Longrightarrow>
      pc_market_notional (rs_context snap) = market_total prices markets (selected_market markets target) (pa_positions acct)"
    and "pc_account_value (rs_context snap) = dadd (pa_cash acct) (portfolio_total prices (pa_positions acct))"
    and "0 \<le> pa_cash acct" and "list_all (priced prices) (pa_positions acct)"
    and "selected_market markets target \<noteq> [] \<Longrightarrow> 0 \<le> pc_market_notional (rs_context snap)
      \<and> grid 8 (pc_market_notional (rs_context snap))
      \<and> pc_market_notional (rs_context snap) \<le> pc_portfolio_notional (rs_context snap)"
    and "grid 8 (pc_portfolio_notional (rs_context snap))"
proof -
  let ?acc0 = "\<lparr>ba_valuations = [], ba_market_notionals = [], ba_portfolio_notional = 0\<rparr> :: build_acc"
  obtain acc where acc: "build_positions prices markets (pa_positions acct) ?acc0 = Inr acc"
    and c: "0 \<le> pa_cash acct"
    and snap: "pc_portfolio_notional (rs_context snap) = ba_portfolio_notional acc"
      "pc_market (rs_context snap) = selected_market markets target"
      "pc_account_value (rs_context snap) = dadd (pa_cash acct) (ba_portfolio_notional acc)"
      "pc_market_notional (rs_context snap) = (if selected_market markets target = [] then 0
          else dict_get_or (ba_market_notionals acc) (selected_market markets target) 0)"
    using b by (auto simp: build_risk_context_def res_bind_eq_Inr Let_def split: if_splits)
  have a0: "acc_exact ?acc0" by (simp add: acc_exact_def dict_get_or_def)
  have e: "acc_exact acc" "ba_portfolio_notional acc = portfolio_total prices (pa_positions acct)"
    and em: "dict_get_or (ba_market_notionals acc) m 0 = market_total prices markets m (pa_positions acct)" for m
    using build_positions_exact [OF acc a0 ex] tot by (simp_all add: dict_get_or_def)
  show "pc_portfolio_notional (rs_context snap) = portfolio_total prices (pa_positions acct)"
    "pc_market (rs_context snap) = selected_market markets target"
    "pc_account_value (rs_context snap) = dadd (pa_cash acct) (portfolio_total prices (pa_positions acct))"
    "0 \<le> pa_cash acct"
    "selected_market markets target \<noteq> [] \<Longrightarrow>
      pc_market_notional (rs_context snap) = market_total prices markets (selected_market markets target) (pa_positions acct)"
    using snap e c em by simp_all
  show "list_all (priced prices) (pa_positions acct)"
    using acc build_positions_ok [of prices markets "pa_positions acct" ?acc0] by simp
  show "grid 8 (pc_portfolio_notional (rs_context snap))" using snap e(1) by (simp add: acc_exact_def)
  show "selected_market markets target \<noteq> [] \<Longrightarrow> 0 \<le> pc_market_notional (rs_context snap)
      \<and> grid 8 (pc_market_notional (rs_context snap))
      \<and> pc_market_notional (rs_context snap) \<le> pc_portfolio_notional (rs_context snap)"
    using snap e(1) by (simp add: acc_exact_def)
qed

text \<open>The sign of the rounded total: positive exactly when something is held.\<close>

lemma build_positions_sign:
  assumes "build_positions prices markets ps acc = Inr acc'" and "0 \<le> ba_portfolio_notional acc"
  shows "0 \<le> ba_portfolio_notional acc'
    \<and> (0 < ba_portfolio_notional acc' \<longleftrightarrow> 0 < ba_portfolio_notional acc \<or> list_ex (\<lambda>(s, q). q \<noteq> 0) ps)"
  using assms
proof (induction prices markets ps acc rule: build_positions.induct)
  case (2 prices markets symb quantity ps acc)
  show ?case
  proof (cases "quantity = 0")
    case True
    then show ?thesis using 2 by simp
  next
    case False
    then obtain p where p: "dict_get prices symb = Some p" "0 < p" "0 < quantity"
      using "2.prems"(1) by (auto split: option.splits if_splits)
    let ?acc = "add_valuation acc symb quantity p (market_of markets symb)"
    have pos: "0 < ba_portfolio_notional ?acc"
      using p(2,3) "2.prems"(2)
      by (auto simp: add_valuation_def Let_def dadd_def dmul_def dec_sign_simps intro!: add_nonneg_pos)
    have "build_positions prices markets ps ?acc = Inr acc'" using "2.prems"(1) p False by simp
    from "2.IH"(2) [OF _ False p(1) _ this less_imp_le [OF pos]] p(2,3) show ?thesis
      using pos False by simp
  qed
qed simp

lemma build_context_ok:
  "is_ok (build_risk_context acct prices markets target) \<longleftrightarrow>
     0 \<le> pa_cash acct \<and> list_all (priced prices) (pa_positions acct)
     \<and> (0 < pa_cash acct \<or> list_ex (\<lambda>(s, q). q \<noteq> 0) (pa_positions acct))"
proof -
  let ?acc0 = "\<lparr>ba_valuations = [], ba_market_notionals = [], ba_portfolio_notional = 0\<rparr> :: build_acc"
  show ?thesis
  proof (cases "build_positions prices markets (pa_positions acct) ?acc0")
    case (Inl e)
    then have "\<not> list_all (priced prices) (pa_positions acct)"
      using build_positions_ok [of prices markets "pa_positions acct" ?acc0] by simp
    then show ?thesis using Inl by (simp add: build_risk_context_def)
  next
    case (Inr acc)
    then have pr: "list_all (priced prices) (pa_positions acct)"
      using build_positions_ok [of prices markets "pa_positions acct" ?acc0] by simp
    note sg = build_positions_sign [OF Inr]
    have "0 < dadd (pa_cash acct) (ba_portfolio_notional acc) \<longleftrightarrow>
        0 < pa_cash acct \<or> 0 < ba_portfolio_notional acc" if "0 \<le> pa_cash acct"
      using sg that by (auto simp: dadd_def dec_sign_simps)
    then show ?thesis using Inr pr sg
      by (auto simp: build_risk_context_def Let_def ddiv_def not_less not_le)
  qed
qed

section \<open>The two gates together\<close>

lemma approve_portfolio_eq_Inr [res_simps]:
  "approve_portfolio ctl acct g ord price ctxt = Inr u \<longleftrightarrow>
     (let n = signed_notional ord (dmul (po_quantity ord) price) in
      0 < pc_account_value ctxt \<and> 0 \<le> pc_portfolio_notional ctxt \<and> 0 \<le> pc_market_notional ctxt
      \<and> approve ctl acct g ord price (Some (pc_account_value ctxt)) = Inr ()
      \<and> (pc_market ctxt \<noteq> [] \<longrightarrow> 0 \<le> dadd (pc_market_notional ctxt) n
           \<and> fix28 (dadd (pc_market_notional ctxt) n / pc_account_value ctxt) < rl_max_market_exposure (rg_limits g))
      \<and> 0 \<le> dadd (pc_portfolio_notional ctxt) n
      \<and> dadd (pc_portfolio_notional ctxt) n \<le> rl_max_portfolio_notional (rg_limits g))"
  by (auto simp: approve_portfolio_def check_market_exposure_def Let_def res_bind_eq_Inr ddiv_eq_Inr raise_if_eq
      not_le not_less split: if_splits)

text \<open>A ratio whose rounding is below a representable limit is below the limit.\<close>

lemma ratio_below_limit: "fix28 x < l \<Longrightarrow> fix28 l = l \<Longrightarrow> x < l"
  using ctx.rnd_ge_fixed [of l x] by (meson not_le)

section \<open>Properties\<close>

text \<open>
  (C4) Approval implies execution: a market order the risk gate approved is never refused by the
  matching engine for lack of cash or shares, nor for any other reason, when engine rates and
  slippage are at most one percent, the reserve limit is at least five percent, and the account
  value the gate was given is at least the cash.
\<close>

theorem approved_orders_execute:
  assumes "approve ctl acct g ord price value = Inr ()" and "value_covers_cash acct value"
    and "mild_engine eng" and "1/20 \<le> rl_min_cash_reserve (rg_limits g)"
    and "rl_max_order_notional (rg_limits g) < 10 ^ 25"
    and "po_order_type ord = MARKET" and "fix28 (po_quantity ord) = po_quantity ord"
  shows "is_ok (engine_execute eng acct ord price avail)"
  by (rule approved_order_executes [OF assms])

theorem approved_orders_execute_witness:
  "is_ok (engine_execute default_engine example_account (example_order BUY MARKET) 70000 (Some 3))"
proof (rule approved_orders_execute)
  show "approve (example_ctl PAPER_SANDBOX) example_account (guardian_init None) (example_order BUY MARKET) 70000 None
    = Inr ()" by code_simp
qed code_simp+

text \<open>
  (C25) The portfolio context is built exactly when it can be trusted: the builder succeeds if and
  only if the cash is not negative, every position is zero or is positive with a positive price,
  and the account is not empty. A missing or invalid price never understates the exposure.
\<close>

theorem context_builder_fails_closed:
  "is_ok (build_risk_context acct prices markets target) \<longleftrightarrow>
     0 \<le> pa_cash acct \<and> list_all (priced prices) (pa_positions acct)
     \<and> (0 < pa_cash acct \<or> list_ex (\<lambda>(s, q). q \<noteq> 0) (pa_positions acct))"
  by (rule build_context_ok)

text \<open>
  (C9) The portfolio gate bounds the exposure after the order: when a purchase passes the gate with
  the context the builder made for its symbol, the true value of the holdings in the symbol's
  market plus the order stays strictly below the concentration limit times the account value, and
  that of the whole portfolio plus the order at or below the portfolio limit. Rounding cannot
  create a breach: the statement is about the exact values.
\<close>

theorem portfolio_gate_limits_concentration:
  assumes b: "build_risk_context acct prices markets (Some (po_symbol ord)) = Inr snap"
    and ap: "approve_portfolio ctl acct g ord price (rs_context snap) = Inr ()" and side: "po_side ord = BUY"
    and ex: "lots_exact prices (pa_positions acct)" "portfolio_total prices (pa_positions acct) < 10 ^ 19"
    and cash: "grid 2 (pa_cash acct)" "pa_cash acct < 10 ^ 19"
    and o: "grid 6 (po_quantity ord)" "grid 2 price" "po_quantity ord * price < 10 ^ 19"
    and lim: "fix28 (rl_max_market_exposure (rg_limits g)) = rl_max_market_exposure (rg_limits g)"
  shows "portfolio_total prices (pa_positions acct) + po_quantity ord * price \<le> rl_max_portfolio_notional (rg_limits g)
    \<and> (selected_market markets (Some (po_symbol ord)) \<noteq> [] \<longrightarrow>
        market_total prices markets (selected_market markets (Some (po_symbol ord))) (pa_positions acct)
          + po_quantity ord * price
        < rl_max_market_exposure (rg_limits g) * (pa_cash acct + portfolio_total prices (pa_positions acct)))"
proof -
  let ?n = "po_quantity ord * price" and ?tot = "portfolio_total prices (pa_positions acct)"
    and ?m = "selected_market markets (Some (po_symbol ord))" and ?c = "rs_context snap"
  have "?tot < 10 ^ 20" using ex(2) by simp
  note c = build_context_exact [OF b ex(1) this]
  note a = ap [unfolded approve_portfolio_eq_Inr Let_def]
  have n0: "0 \<le> ?n" using a by (auto simp: approve_eq_Inr)
  have n: "signed_notional ord (dmul (po_quantity ord) price) = ?n" "grid 8 ?n"
    using exact_notional [OF o(1,2) n0] o(3) side by (simp_all add: signed_notional_def)
  have av: "pc_account_value ?c = pa_cash acct + ?tot"
  proof -
    have "grid 8 (pa_cash acct)" using grid_mult [OF cash(1), of 6 1] by (simp add: grid_def)
    then show ?thesis
      using c(1,4,5,8) portfolio_total_nonneg [OF c(6)] cash(2) ex(2) by (auto intro!: exact_sum)
  qed
  have p: "dadd ?tot ?n = ?tot + ?n"
    using c(1,8) portfolio_total_nonneg [OF c(6)] ex(2) o(3) n0 n(2) by (auto intro!: exact_sum)
  have m: "market_total prices markets ?m (pa_positions acct) + ?n
      < rl_max_market_exposure (rg_limits g) * (pa_cash acct + ?tot)" if "?m \<noteq> []"
  proof -
    note cm = c(3) [OF that] c(7) [OF that]
    have "dadd (pc_market_notional ?c) ?n = pc_market_notional ?c + ?n"
      using cm(2) c(1) ex(2) o(3) n0 n(2) by (auto intro!: exact_sum)
    then have "fix28 ((pc_market_notional ?c + ?n) / pc_account_value ?c) < rl_max_market_exposure (rg_limits g)"
      using a that c(2) n(1) by simp
    then have "(pc_market_notional ?c + ?n) / pc_account_value ?c < rl_max_market_exposure (rg_limits g)"
      by (rule ratio_below_limit [OF _ lim])
    then show ?thesis using a cm(1) av by (simp add: pos_divide_less_eq)
  qed
  show ?thesis using a n(1) c(1) p m by simp
qed

text \<open>Prices and markets of the example account.\<close>

definition example_prices :: "(string, decimal) dict" where
  "example_prices = [(''005930'', 70000), (''000660'', 50000)]"

definition example_markets :: "(string, string) dict" where
  "example_markets = [(''005930'', '' KOSPI ''), (''000660'', ''KOSPI'')]"

definition example_snapshot :: risk_snapshot where
  "example_snapshot = (case build_risk_context example_account example_prices example_markets (Some ''005930'') of
     Inr s \<Rightarrow> s | Inl _ \<Rightarrow> \<lparr>rs_context = \<lparr>pc_account_value = 0, pc_portfolio_notional = 0, pc_market_notional = 0,
       pc_market = []\<rparr>, rs_cash = 0, rs_cash_ratio = 0, rs_positions = [], rs_market_notionals = []\<rparr>)"

theorem portfolio_gate_limits_concentration_witness:
  "portfolio_total example_prices (pa_positions example_account) = 430000
   \<and> (portfolio_total example_prices (pa_positions example_account) + po_quantity (example_order BUY MARKET) * 70000
        \<le> rl_max_portfolio_notional (rg_limits (guardian_init None)))
   \<and> selected_market example_markets (Some (po_symbol (example_order BUY MARKET))) = ''KOSPI''"
proof (intro conjI)
  show "portfolio_total example_prices (pa_positions example_account) + po_quantity (example_order BUY MARKET) * 70000
        \<le> rl_max_portfolio_notional (rg_limits (guardian_init None))"
  proof (rule portfolio_gate_limits_concentration [THEN conjunct1])
    show "build_risk_context example_account example_prices example_markets (Some (po_symbol (example_order BUY MARKET)))
      = Inr example_snapshot" by code_simp
    show "approve_portfolio (example_ctl PAPER_SANDBOX) example_account (guardian_init None) (example_order BUY MARKET)
      70000 (rs_context example_snapshot) = Inr ()" by code_simp
  qed code_simp+
qed code_simp+

end
