(* ===== verification/Values.thy ===== *)
theory Values
  imports Decimal_Ops
begin

text \<open>
  The dynamic values of the code: rows of portfolios and JSON payloads are Python dictionaries of
  \<open>Any\<close>. This theory has the values the modelled code puts into them, \<open>bool(v)\<close>, \<open>str(v)\<close>,
  \<open>Decimal(str(v))\<close> and \<open>int(v)\<close>. \<open>str\<close> of a decimal shows an exponent the value of the
  decimal does not determine, so the rendering of decimals is a parameter \<open>show_dec\<close>. Floats in
  rows, and the literals \<open>NaN\<close> and \<open>Infinity\<close>, are not modelled.
\<close>

section \<open>Values\<close>

datatype py_value =
    PNone
  | PBool bool
  | PInt int
  | PDec decimal
  | PStr string
  | PList "py_value list"
  | PDict "(string \<times> py_value) list"

type_synonym row = "(string, py_value) dict"

text \<open>\<open>bool(v)\<close>.\<close>

fun truthy :: "py_value \<Rightarrow> bool" where
  "truthy PNone = False"
| "truthy (PBool b) = b"
| "truthy (PInt n) = (n \<noteq> 0)"
| "truthy (PDec d) = (d \<noteq> 0)"
| "truthy (PStr s) = (s \<noteq> [])"
| "truthy (PList xs) = (xs \<noteq> [])"
| "truthy (PDict d) = (d \<noteq> [])"

section \<open>Numbers in texts\<close>

definition digit_value :: "char \<Rightarrow> int option" where
  "digit_value c = (let n = of_char c :: int in if 48 \<le> n \<and> n \<le> 57 then Some (n - 48) else None)"

definition digit_char :: "int \<Rightarrow> char" where
  "digit_char n = char_of (n + 48)"

text \<open>A block of digits: its value, its length and the rest of the text.\<close>

fun scan_digits :: "int \<Rightarrow> nat \<Rightarrow> string \<Rightarrow> int \<times> nat \<times> string" where
  "scan_digits acc k [] = (acc, k, [])"
| "scan_digits acc k (c # cs) =
     (case digit_value c of None \<Rightarrow> (acc, k, c # cs) | Some d \<Rightarrow> scan_digits (acc * 10 + d) (Suc k) cs)"

fun scan_sign :: "string \<Rightarrow> int \<times> string" where
  "scan_sign [] = (1, [])"
| "scan_sign (c # cs) = (if c = CHR ''-'' then (-1, cs) else if c = CHR ''+'' then (1, cs) else (1, c # cs))"

text \<open>\<open>int(s)\<close> on a text without underscores.\<close>

definition parse_int :: "string \<Rightarrow> int option" where
  "parse_int s = (let (sg, r) = scan_sign (strip s); (n, k, rest) = scan_digits 0 0 r
     in if k = 0 \<or> rest \<noteq> [] then None else Some (sg * n))"

text \<open>\<open>Decimal(s)\<close>: sign, digits with an optional point, and an optional exponent.\<close>

definition parse_exponent :: "string \<Rightarrow> int option" where
  "parse_exponent r = (case r of [] \<Rightarrow> Some 0
     | c # cs \<Rightarrow> if c = CHR ''e'' \<or> c = CHR ''E''
         then (let (sg, r') = scan_sign cs; (n, k, rest) = scan_digits 0 0 r'
               in if k = 0 \<or> rest \<noteq> [] then None else Some (sg * n))
         else None)"

definition parse_decimal :: "string \<Rightarrow> decimal option" where
  "parse_decimal s =
     (let (sg, r) = scan_sign (strip s); (n, k, r1) = scan_digits 0 0 r;
          (m, j, r2) = (case r1 of [] \<Rightarrow> (n, 0, [])
             | c # cs \<Rightarrow> if c = CHR ''.'' then scan_digits n 0 cs else (n, 0, r1))
      in if k + j = 0 then None
         else case parse_exponent r2 of None \<Rightarrow> None
            | Some e \<Rightarrow> Some (of_int (sg * m) * 10 powi (e - int j)))"

text \<open>Decimal digits of a natural number; \<open>str(n)\<close> of an integer.\<close>

function show_nat :: "int \<Rightarrow> string" where
  "show_nat n = (if n < 10 then [digit_char (max n 0)] else show_nat (n div 10) @ [digit_char (n mod 10)])"
  by pat_completeness auto
termination by (relation "measure nat") auto

declare show_nat.simps [simp del]

definition show_int :: "int \<Rightarrow> string" where
  "show_int n = (if n < 0 then CHR ''-'' # show_nat (- n) else show_nat n)"

section \<open>Conversions of values\<close>

text \<open>\<open>str(v)\<close>; the rendering of lists and dictionaries, which no modelled message uses, is a parameter too.\<close>

fun py_str :: "(decimal \<Rightarrow> string) \<Rightarrow> py_value \<Rightarrow> string" where
  "py_str show_dec PNone = ''None''"
| "py_str show_dec (PBool b) = (if b then ''True'' else ''False'')"
| "py_str show_dec (PInt n) = show_int n"
| "py_str show_dec (PDec d) = show_dec d"
| "py_str show_dec (PStr s) = s"
| "py_str show_dec (PList xs) = ''[]''"
| "py_str show_dec (PDict d) = ''{}''"

text \<open>\<open>Decimal(str(v))\<close>: a decimal survives the trip through its text.\<close>

fun to_decimal :: "py_value \<Rightarrow> decimal res" where
  "to_decimal (PInt n) = Inr (of_int n)"
| "to_decimal (PDec d) = Inr d"
| "to_decimal (PStr s) = (case parse_decimal s of None \<Rightarrow> Inl InvalidOperation | Some d \<Rightarrow> Inr d)"
| "to_decimal _ = Inl InvalidOperation"

text \<open>\<open>int(v)\<close>.\<close>

fun to_int :: "py_value \<Rightarrow> int res" where
  "to_int (PInt n) = Inr n"
| "to_int (PBool b) = Inr (if b then 1 else 0)"
| "to_int (PDec d) = Inr (trunc d)"
| "to_int (PStr s) = (case parse_int s of None \<Rightarrow> Inl (ValueError ''invalid literal for int()'') | Some n \<Rightarrow> Inr n)"
| "to_int _ = Inl (TypeError ''int() argument must be a string or a number'')"

text \<open>\<open>row.get(key, default)\<close>.\<close>

definition row_get :: "row \<Rightarrow> string \<Rightarrow> py_value \<Rightarrow> py_value" where
  "row_get r k v = dict_get_or r k v"

text \<open>\<open>iter(v)\<close>: a list gives its items, a text its characters, a dictionary its keys.\<close>

fun py_iter :: "py_value \<Rightarrow> py_value list res" where
  "py_iter (PList xs) = Inr xs"
| "py_iter (PStr s) = Inr (map (\<lambda>c. PStr [c]) s)"
| "py_iter (PDict d) = Inr (map (\<lambda>(k, _). PStr k) d)"
| "py_iter _ = Inl (TypeError ''object is not iterable'')"

text \<open>\<open>v.get(key, default)\<close>; only dictionaries have the method.\<close>

fun value_get :: "py_value \<Rightarrow> string \<Rightarrow> py_value \<Rightarrow> py_value res" where
  "value_get (PDict d) k v = Inr (dict_get_or d k v)"
| "value_get _ _ _ = Inl (AttributeError ''object has no attribute get'')"

section \<open>Round trips\<close>

lemma of_char_digit: "0 \<le> d \<Longrightarrow> d \<le> 9 \<Longrightarrow> of_char (digit_char d) = (d + 48 :: int)"
  by (simp add: digit_char_def of_char_of flip: take_bit_eq_mod) 

lemma digit_value_char [simp]: "0 \<le> d \<Longrightarrow> d \<le> 9 \<Longrightarrow> digit_value (digit_char d) = Some d"
  by (simp add: digit_value_def of_char_digit Let_def)

lemma scan_digits_append_digit:
  "0 \<le> d \<Longrightarrow> d \<le> 9 \<Longrightarrow> scan_digits acc k xs = (n, j, []) \<Longrightarrow>
    scan_digits acc k (xs @ [digit_char d]) = (n * 10 + d, Suc j, [])"
  by (induction acc k xs rule: scan_digits.induct) (auto split: option.splits)

lemma scan_digits_show_nat: "0 \<le> n \<Longrightarrow> \<exists>k. scan_digits 0 0 (show_nat n) = (n, Suc k, [])"
proof (induction n rule: show_nat.induct)
  case (1 n)
  show ?case
  proof (cases "n < 10")
    case True
    then show ?thesis using 1 by (simp add: show_nat.simps [of n])
  next
    case False
    then obtain k where k: "scan_digits 0 0 (show_nat (n div 10)) = (n div 10, Suc k, [])"
      using 1 by (auto simp: pos_imp_zdiv_nonneg_iff)
    have "scan_digits 0 0 (show_nat (n div 10) @ [digit_char (n mod 10)]) = (n div 10 * 10 + n mod 10, Suc (Suc k), [])"
      by (rule scan_digits_append_digit [OF _ _ k]) simp_all
    then show ?thesis using False by (simp add: show_nat.simps [of n])
  qed
qed

lemma digit_char_props:
  assumes "0 \<le> d" and "d \<le> 9"
  shows "\<not> py_isspace (digit_char d)" and "digit_char d \<noteq> CHR ''-''" and "digit_char d \<noteq> CHR ''+''"
proof -
  show "\<not> py_isspace (digit_char d)" using assms by (simp add: py_isspace_def of_char_digit Let_def)
  have "(of_char (digit_char d) :: int) \<noteq> of_char CHR ''-''" "(of_char (digit_char d) :: int) \<noteq> of_char CHR ''+''"
    using assms by (simp_all add: of_char_digit)
  then show "digit_char d \<noteq> CHR ''-''" "digit_char d \<noteq> CHR ''+''" by metis+
qed

lemma show_nat_chars: "0 \<le> n \<Longrightarrow> show_nat n \<noteq> [] \<and> set (show_nat n) \<subseteq> digit_char ` {0..9}"
proof (induction n rule: show_nat.induct)
  case (1 n)
  then show ?case
    by (cases "n < 10") (auto simp: show_nat.simps [of n] pos_imp_zdiv_nonneg_iff)
qed

lemma show_nat_stripped: "0 \<le> n \<Longrightarrow> strip (show_nat n) = show_nat n"
proof (rule strip_id)
  assume n: "0 \<le> n"
  then have "hd (show_nat n) \<in> digit_char ` {0..9}" "last (show_nat n) \<in> digit_char ` {0..9}"
    using show_nat_chars [OF n] hd_in_set last_in_set by blast+
  then show "stripped (show_nat n)" by (auto simp: stripped_def digit_char_props)
qed

lemma scan_sign_digits: "s \<noteq> [] \<Longrightarrow> set s \<subseteq> digit_char ` {0..9} \<Longrightarrow> scan_sign s = (1, s)"
  by (cases s) (auto simp: digit_char_props)

lemma parse_int_show_nat: "0 \<le> n \<Longrightarrow> parse_int (show_nat n) = Some n"
  using scan_digits_show_nat [of n] show_nat_chars [of n]
  by (auto simp: parse_int_def show_nat_stripped scan_sign_digits)

end
