(* ===== verification/Trade_Types.thy ===== *)
theory Trade_Types
  imports Risk Values
begin

text \<open>
  The data of \<open>trade_facade.py\<close>: order intents, risk assessments, previews and the results of the
  pre-trade checks; and the sizing of an intent from a portfolio row.
\<close>

section \<open>Data\<close>

record order_intent =
  oi_symbol :: string
  oi_side :: string
  oi_quantity :: decimal
  oi_order_type :: string
  oi_price :: "decimal option"
  oi_broker :: string
  oi_client_order_id :: string

definition normalized_side :: "order_intent \<Rightarrow> order_side res" where
  "normalized_side i = (let v = upper (strip (oi_side i)) in
     if v = ''BUY'' then Inr BUY else if v = ''SELL'' then Inr SELL
     else Inl (ValueError (''invalid side: '' @ oi_side i)))"

definition normalized_order_type :: "order_intent \<Rightarrow> order_type res" where
  "normalized_order_type i = (let v = upper (strip (oi_order_type i)) in
     if v = ''MARKET'' then Inr MARKET else if v = ''LIMIT'' then Inr LIMIT
     else Inl (ValueError (''invalid order_type: '' @ oi_order_type i)))"

fun order_type_value :: "order_type \<Rightarrow> string" where
  "order_type_value MARKET = ''MARKET''"
| "order_type_value LIMIT = ''LIMIT''"

record risk_assessment =
  ra_approved :: bool
  ra_level :: string
  ra_violations :: "string list"

record order_preview =
  op_intent :: order_intent
  op_estimated_notional :: decimal
  op_currency :: string
  op_risk :: risk_assessment
  op_requires_approval :: bool
  op_preview_id :: string
  op_mode :: string
  op_message :: string

record revalidation =
  rv_snapshot :: risk_snapshot
  rv_intent :: "order_intent option"
  rv_preview :: "order_preview option"

record preflight_result =
  pf_rows_checked :: int
  pf_approved :: "revalidation list"
  pf_rejected :: "(row \<times> string) list"

definition all_approved :: "preflight_result \<Rightarrow> bool" where
  "all_approved p = (pf_rejected p = [])"

section \<open>Sizing\<close>

definition row_symbol :: "(decimal \<Rightarrow> string) \<Rightarrow> row \<Rightarrow> string" where
  "row_symbol show_dec r = strip (py_str show_dec (row_get r ''symbol'' (PStr [])))"

definition target_quantity :: "decimal \<Rightarrow> decimal \<Rightarrow> decimal \<Rightarrow> decimal \<Rightarrow> decimal res" where
  "target_quantity account_value weight price lot_size =
     res_bind (ddiv (dmul account_value weight) price) (\<lambda>q.
     res_bind (ddiv q lot_size) (\<lambda>lots.
     Inr (dmul (of_int (trunc lots)) lot_size)))"

definition intent_from_portfolio_row ::
  "(decimal \<Rightarrow> string) \<Rightarrow> row \<Rightarrow> decimal \<Rightarrow> decimal \<Rightarrow> string \<Rightarrow> string \<Rightarrow> decimal \<Rightarrow> order_intent option res" where
  "intent_from_portfolio_row show_dec r account_value current_quantity broker order_type lot_size =
     (let symb = row_symbol show_dec r in
      if symb = [] \<or> account_value \<le> 0 \<or> current_quantity < 0 \<or> lot_size \<le> 0
      then Inl (ValueError ''symbol, account_value, current_quantity and lot_size must be valid'')
      else case (to_decimal (row_get r ''target_weight'' (PStr ''0'')),
                 to_decimal (row_get r ''close'' (row_get r ''price'' (PStr ''0'')))) of
        (Inr weight, Inr price) \<Rightarrow>
          if weight < 0 \<or> 1 < weight \<or> price \<le> 0
          then Inl (ValueError ''target_weight must be in [0, 1] and price must be positive'')
          else res_bind (target_quantity account_value weight price lot_size) (\<lambda>target.
            let delta = dsub target current_quantity in
            if delta = 0 then Inr None
            else Inr (Some \<lparr>oi_symbol = symb, oi_side = (if 0 < delta then ''BUY'' else ''SELL''),
                   oi_quantity = dabs delta, oi_order_type = order_type,
                   oi_price = (if upper (strip order_type) = ''LIMIT'' then Some price else None),
                   oi_broker = broker, oi_client_order_id = []\<rparr>))
      | _ \<Rightarrow> Inl (ValueError ''portfolio row has invalid target_weight or price''))"

section \<open>The target is exact\<close>

lemma fix28_int: "\<bar>n\<bar> < 10 ^ 28 \<Longrightarrow> fix28 (of_int n) = of_int n"
  using fix28_rep [of "of_int n" n 0] by simp

text \<open>
  The division rounds to 28 digits, and for amounts of this size no quotient is so close to the
  next whole number that rounding would reach it.
\<close>

lemma cents_ge:
  assumes "grid 2 p" "0 < p"
  shows "1/100 \<le> p"
proof -
  obtain b where b: "p * 10 ^ 2 = of_int b" using assms(1) by (rule gridE)
  have "0 < (of_int b :: rat)" using assms(2) by (simp flip: b)
  then have "1 \<le> b" by simp
  then have "(1 :: rat) \<le> of_int b" by simp
  then have "1 \<le> p * 10 ^ 2" by (simp only: b)
  then show ?thesis by simp
qed

lemma trunc_quotient:
  assumes x: "grid 6 x" "0 \<le> x" "x < 10 ^ 11" and p: "grid 2 p" "0 < p" "p < 10 ^ 7"
  shows "trunc (fix28 (x / p)) = \<lfloor>x / p\<rfloor>"
proof -
  obtain a where a: "x * 10 ^ 6 = of_int a" using x(1) by (rule gridE)
  obtain b where b: "p * 10 ^ 2 = of_int b" using p(1) by (rule gridE)
  have p1: "1/100 \<le> p" by (rule cents_ge [OF p(1,2)])
  define n where "n = \<lfloor>x / p\<rfloor>"
  have n0: "0 \<le> n" using x p by (simp add: n_def)
  have "x / p \<le> 10 ^ 11 / (1/100)" using x p p1 by (intro frac_le) auto
  then have q: "x / p \<le> 10 ^ 13" by simp
  have nx: "of_int n \<le> x / p" "x / p < of_int n + 1" unfolding n_def by linarith+
  have "of_int n < (of_int (10 ^ 14) :: rat)" using nx(1) q by simp
  then have n14: "n < 10 ^ 14" by (simp only: of_int_less_iff)
  have lo: "of_int n \<le> fix28 (x / p)"
    using nx(1) n0 n14 by (intro ctx.rnd_ge_fixed fix28_int) auto
  have "x < (of_int n + 1) * p" using nx(2) p by (simp add: pos_divide_less_eq)
  then have "x * 10 ^ 6 < (of_int n + 1) * (p * 10 ^ 2) * 10 ^ 4" by simp
  then have "of_int a < (of_int n + 1) * (of_int b :: rat) * 10 ^ 4" unfolding a b .
  then have "of_int a < (of_int ((n + 1) * b * 10 ^ 4) :: rat)" by simp
  then have "a + 1 \<le> (n + 1) * b * 10 ^ 4" by (simp only: of_int_less_iff zless_imp_add1_zle)
  then have "(of_int (a + 1) :: rat) \<le> of_int ((n + 1) * b * 10 ^ 4)" by (simp only: of_int_le_iff)
  then have "x * 10 ^ 6 + 1 \<le> (of_int n + 1) * (p * 10 ^ 2) * 10 ^ 4" unfolding a b by simp
  then have "x + 1 / 10 ^ 6 \<le> (of_int n + 1) * p" by simp
  then have "(x + 1 / 10 ^ 6) / p \<le> of_int n + 1" using p by (simp add: pos_divide_le_eq)
  moreover have "1 / 10 ^ 13 \<le> (1 / 10 ^ 6) / p" using p by (simp add: pos_le_divide_eq)
  ultimately have gap: "x / p + 1 / 10 ^ 13 \<le> of_int n + 1" by (simp add: add_divide_distrib)
  have "\<bar>fix28 (x / p) - x / p\<bar> \<le> \<bar>x / p\<bar> / (2 * 10 ^ 27)" by (rule fix28_error)
  also have "\<dots> \<le> 10 ^ 13 / (2 * 10 ^ 27)" using q x p by (intro divide_right_mono) auto
  also have "\<dots> < 1 / 10 ^ 13" by simp
  finally have hi: "fix28 (x / p) < of_int n + 1" using gap by linarith
  have "\<lfloor>fix28 (x / p)\<rfloor> = n" using lo hi by (simp add: floor_eq_iff)
  moreover have "0 \<le> fix28 (x / p)" using lo n0 by (meson of_int_0_le_iff order_trans)
  ultimately show ?thesis by (simp add: trunc_def n_def)
qed

lemma target_quantity_exact:
  assumes av: "grid 2 av" "0 < av" "av < 10 ^ 11" and w: "grid 4 w" "0 \<le> w" "w \<le> 1"
    and p: "grid 2 p" "0 < p" "p < 10 ^ 7"
  shows "target_quantity av w p 1 = Inr (of_int \<lfloor>av * w / p\<rfloor>)"
    and "0 \<le> \<lfloor>av * w / p\<rfloor>" and "\<lfloor>av * w / p\<rfloor> < 10 ^ 14"
proof -
  have g: "grid 6 (av * w)" using grid_mult [OF av(1) w(1)] by simp
  have "av * w \<le> av * 1" using av w by (intro mult_left_mono) auto
  then have "av * w < 10 ^ 11" using av(3) by linarith
  moreover have "0 \<le> av * w" using av w by simp
  ultimately have aw: "0 \<le> av * w" "av * w < 10 ^ 11" by auto
  have e: "dmul av w = av * w" unfolding dmul_def using g aw by (intro fix28_amount [of 6 11]) (auto simp: amount_def)
  show f0: "0 \<le> \<lfloor>av * w / p\<rfloor>" using aw p by simp
  have p1: "1/100 \<le> p" by (rule cents_ge [OF p(1,2)])
  have "av * w / p \<le> 10 ^ 11 / (1/100)" using aw p p1 by (intro frac_le) auto
  then have "of_int \<lfloor>av * w / p\<rfloor> < (of_int (10 ^ 14) :: rat)"
    using of_int_floor_le [of "av * w / p"] by simp
  then show f1: "\<lfloor>av * w / p\<rfloor> < 10 ^ 14" by (simp only: of_int_less_iff)
  have "fix28 (fix28 (av * w / p)) = fix28 (av * w / p)" by (rule ctx.rnd_idem)
  then have "target_quantity av w p 1 = Inr (dmul (of_int (trunc (fix28 (av * w / p)))) 1)"
    using p by (simp add: target_quantity_def ddiv_def e)
  moreover have "dmul (of_int \<lfloor>av * w / p\<rfloor>) 1 = of_int \<lfloor>av * w / p\<rfloor>"
    unfolding dmul_def mult_1_right using f0 f1 by (intro fix28_int) simp
  ultimately show "target_quantity av w p 1 = Inr (of_int \<lfloor>av * w / p\<rfloor>)"
    by (simp only: trunc_quotient [OF g aw p])
qed

text \<open>The signed quantity of an intent, and of no intent.\<close>

definition intent_delta :: "order_intent option \<Rightarrow> rat" where
  "intent_delta i = (case i of None \<Rightarrow> 0 | Some x \<Rightarrow> if oi_side x = ''BUY'' then oi_quantity x else - oi_quantity x)"

lemma intent_from_row_exact:
  assumes i: "intent_from_portfolio_row show_dec r av cur broker order_type 1 = Inr i"
    and av: "grid 2 av" "av < 10 ^ 11" and cur: "cur = of_int c" "c < 10 ^ 14"
    and w: "to_decimal (row_get r ''target_weight'' (PStr ''0'')) = Inr w" "grid 4 w"
    and p: "to_decimal (row_get r ''close'' (row_get r ''price'' (PStr ''0''))) = Inr p" "grid 2 p" "p < 10 ^ 7"
  shows "cur + intent_delta i = of_int \<lfloor>av * w / p\<rfloor>" and "0 < p" and "0 \<le> av * w"
    and "case i of None \<Rightarrow> True | Some x \<Rightarrow> 0 < oi_quantity x"
proof -
  have g: "0 < av" "0 \<le> w" "w \<le> 1" "0 < p" "0 \<le> c"
    and t: "res_bind (target_quantity av w p 1) (\<lambda>target. let delta = dsub target cur in
            if delta = 0 then Inr None
            else Inr (Some \<lparr>oi_symbol = row_symbol show_dec r, oi_side = (if 0 < delta then ''BUY'' else ''SELL''),
                   oi_quantity = dabs delta, oi_order_type = order_type,
                   oi_price = (if upper (strip order_type) = ''LIMIT'' then Some p else None),
                   oi_broker = broker, oi_client_order_id = []\<rparr>)) = Inr i"
    using i w(1) p(1) cur by (auto simp: intent_from_portfolio_row_def Let_def not_le not_less split: if_splits)
  let ?n = "\<lfloor>av * w / p\<rfloor>"
  note tq = target_quantity_exact [OF av(1) g(1) av(2) w(2) g(2,3) p(2) g(4) p(3)]
  have "\<bar>?n - c\<bar> < 10 ^ 28" 
  proof -
    have "(10 :: int) ^ 14 < 10 ^ 28" by simp
    then show ?thesis using tq(2,3) g(5) cur(2) unfolding abs_less_iff by linarith
  qed
  then have d: "dsub (of_int ?n) cur = of_int (?n - c)" "dabs (of_int (?n - c)) = of_int \<bar>?n - c\<bar>"
    using fix28_int [of "?n - c"] fix28_int [of "\<bar>?n - c\<bar>"] by (simp_all add: dsub_def dabs_def cur(1) of_int_diff)
  have r: "(if ?n - c = 0 then Inr None
            else Inr (Some \<lparr>oi_symbol = row_symbol show_dec r, oi_side = (if 0 < ?n - c then ''BUY'' else ''SELL''),
                   oi_quantity = of_int \<bar>?n - c\<bar>, oi_order_type = order_type,
                   oi_price = (if upper (strip order_type) = ''LIMIT'' then Some p else None),
                   oi_broker = broker, oi_client_order_id = []\<rparr>)) = (Inr i :: order_intent option res)"
    using t unfolding tq(1) res_bind_simps Let_def d by (simp only: of_int_eq_0_iff of_int_0_less_iff)
  show "cur + intent_delta i = of_int ?n" "case i of None \<Rightarrow> True | Some x \<Rightarrow> 0 < oi_quantity x"
    using r by (auto simp: intent_delta_def cur(1) split: if_splits)
  show "0 < p" "0 \<le> av * w" using g by auto
qed

section \<open>Properties\<close>

text \<open>
  (C27) Sizing reaches the target and never exceeds it: the intent made from a portfolio row turns
  the current holding into the largest whole number of shares whose value does not exceed the
  target weight of the account value, although the division is rounded to 28 digits.
\<close>

theorem intent_sizes_to_target:
  assumes "intent_from_portfolio_row show_dec r av cur broker order_type 1 = Inr i"
    and "grid 2 av" "av < 10 ^ 11" and "cur = of_int c" "c < 10 ^ 14"
    and "to_decimal (row_get r ''target_weight'' (PStr ''0'')) = Inr w" "grid 4 w"
    and "to_decimal (row_get r ''close'' (row_get r ''price'' (PStr ''0''))) = Inr p" "grid 2 p" "p < 10 ^ 7"
  shows "(cur + intent_delta i) * p \<le> av * w \<and> av * w < (cur + intent_delta i + 1) * p
    \<and> (case i of None \<Rightarrow> True | Some x \<Rightarrow> 0 < oi_quantity x)"
proof -
  note e = intent_from_row_exact [OF assms]
  have "of_int \<lfloor>av * w / p\<rfloor> \<le> av * w / p" "av * w / p < of_int \<lfloor>av * w / p\<rfloor> + 1" by linarith+
  then have "of_int \<lfloor>av * w / p\<rfloor> * p \<le> av * w" "av * w < (of_int \<lfloor>av * w / p\<rfloor> + 1) * p"
    using e(2) by (metis pos_le_divide_eq, metis pos_divide_less_eq)
  then show ?thesis using e(1,4) by simp
qed

definition example_row :: row where
  "example_row = [(''symbol'', PStr ''005930''), (''target_weight'', PStr ''0.35''), (''close'', PStr ''70000''),
     (''portfolio_selected'', PBool True), (''rank'', PInt 1)]"

theorem intent_sizes_to_target_witness:
  "(4 + intent_delta (Some \<lparr>oi_symbol = ''005930'', oi_side = ''BUY'', oi_quantity = 3, oi_order_type = ''MARKET'',
      oi_price = None, oi_broker = ''toss'', oi_client_order_id = []\<rparr>)) * 70000 \<le> 1430000 * (35/100)"
proof (rule intent_sizes_to_target [THEN conjunct1])
  show "intent_from_portfolio_row (\<lambda>_. []) example_row 1430000 4 ''toss'' ''MARKET'' 1 = Inr (Some \<lparr>oi_symbol = ''005930'',
      oi_side = ''BUY'', oi_quantity = 3, oi_order_type = ''MARKET'',
      oi_price = None, oi_broker = ''toss'', oi_client_order_id = []\<rparr>)" by code_simp
  show "(4 :: rat) = of_int 4" by simp
  show "to_decimal (row_get example_row ''target_weight'' (PStr ''0'')) = Inr (35/100)" by code_simp
  show "to_decimal (row_get example_row ''close'' (row_get example_row ''price'' (PStr ''0''))) = Inr 70000" by code_simp
qed code_simp+

end
