(* ===== verification/Brokers.thy ===== *)
theory Brokers
  imports Values
begin

text \<open>
  The live side: \<open>security/live_approval_gate.py\<close> (the approval of single orders, with nonce and
  time to live), \<open>secrets/broker.py\<close> (the policy in front of credentials), \<open>brokers/protocol.py\<close>,
  \<open>brokers/credentials.py\<close>, and the adapters \<open>brokers/toss.py\<close> and \<open>brokers/kb.py\<close> with the
  router \<open>brokers/safe_router.py\<close>.

  The network and \<open>json.loads\<close> are parameters. A request that raises is \<open>Inl\<close> with the name of
  the exception's class; the variable \<open>PAPER_LIVE_ENABLE_LIVE\<close> of the process environment, the
  clock, and the random tokens are passed in.
\<close>

section \<open>Order approval (security/live_approval_gate.py)\<close>

record order_approval =
  oa_approval_id :: string
  oa_approved_by :: string
  oa_expires_at :: int

record order_gate =
  og_approval :: "order_approval option"
  og_nonce :: string

definition order_gate_init :: "string \<Rightarrow> order_gate" where
  "order_gate_init nonce = \<lparr>og_approval = None, og_nonce = nonce\<rparr>"

text \<open>Times are in microseconds; \<open>token\<close> is the fresh \<open>token_urlsafe(18)\<close>.\<close>

definition order_gate_approve ::
  "order_gate \<Rightarrow> string \<Rightarrow> string option \<Rightarrow> int \<Rightarrow> string \<Rightarrow> int \<Rightarrow> (order_approval \<times> order_gate) res" where
  "order_gate_approve g approved_by nonce ttl_seconds token now =
     (if strip approved_by = [] then Inl (LiveApprovalDenied ''valid approver and TTL are required'')
      else if nonce \<noteq> None \<and> nonce \<noteq> Some (og_nonce g)
      then Inl (LiveApprovalDenied ''valid approval nonce is required'')
      else if \<not> (1 \<le> ttl_seconds \<and> ttl_seconds \<le> 3600)
      then Inl (LiveApprovalDenied ''valid approver and TTL are required'')
      else let a = \<lparr>oa_approval_id = token, oa_approved_by = strip approved_by,
                    oa_expires_at = now + ttl_seconds * 1000000\<rparr>
           in Inr (a, g\<lparr>og_approval := Some a\<rparr>))"

definition order_gate_approved :: "order_gate \<Rightarrow> int \<Rightarrow> bool" where
  "order_gate_approved g now = (case og_approval g of None \<Rightarrow> False | Some a \<Rightarrow> now < oa_expires_at a)"

definition order_gate_revoke :: "order_gate \<Rightarrow> order_gate" where
  "order_gate_revoke g = g\<lparr>og_approval := None\<rparr>"

definition order_gate_require :: "order_gate \<Rightarrow> string \<Rightarrow> int \<Rightarrow> unit res" where
  "order_gate_require g approval_id now =
     (case og_approval g of
        None \<Rightarrow> Inl (LiveApprovalDenied ''valid live approval is required'')
      | Some a \<Rightarrow> raise_if (oa_approval_id a \<noteq> approval_id \<or> oa_expires_at a \<le> now)
          (LiveApprovalDenied ''valid live approval is required''))"

section \<open>Secrets (secrets/broker.py)\<close>

record secret_broker =
  sb_store :: "(string, string) dict"
  sb_live_secret_ids :: "string list"

definition secret_authorize :: "string list \<Rightarrow> string \<Rightarrow> string \<Rightarrow> string \<Rightarrow> unit res" where
  "secret_authorize live_ids secret_id mode capability =
     (if mode \<in> {''PAPER_SANDBOX'', ''VIRTUAL_BACKTEST''} \<and> secret_id \<in> set live_ids
      then Inl (SecretAccessDenied (''live credential denied in '' @ mode))
      else if capability \<in> {''order.create'', ''order.cancel''} \<and> mode \<noteq> ''REAL_LIVE''
      then Inl (SecretAccessDenied (''live trading credential denied outside REAL_LIVE: '' @ capability))
      else Inr ())"

definition store_get :: "(string, string) dict \<Rightarrow> string \<Rightarrow> string res" where
  "store_get values secret_id = (case dict_get values secret_id of None \<Rightarrow> Inl (KeyError secret_id) | Some v \<Rightarrow> Inr v)"

definition store_put :: "(string, string) dict \<Rightarrow> string \<Rightarrow> string \<Rightarrow> (string, string) dict" where
  "store_put values secret_id v = dict_set secret_id v values"

definition secret_resolve :: "secret_broker \<Rightarrow> string \<Rightarrow> string \<Rightarrow> string \<Rightarrow> string res" where
  "secret_resolve sb secret_id mode capability =
     res_bind (secret_authorize (sb_live_secret_ids sb) secret_id mode capability) (\<lambda>_.
     store_get (sb_store sb) secret_id)"

section \<open>Orders and results (brokers/protocol.py)\<close>

record broker_order =
  bo_symbol :: string
  bo_side :: string
  bo_quantity :: decimal
  bo_order_type :: string
  bo_price :: "decimal option"

record order_result =
  rt_broker :: string
  rt_order_id :: string
  rt_accepted :: bool
  rt_message :: string

text \<open>The positional form of \<open>submit\<close>.\<close>

definition legacy_order ::
  "string \<Rightarrow> string option \<Rightarrow> decimal option \<Rightarrow> decimal option \<Rightarrow> broker_order res" where
  "legacy_order symb side quantity price =
     (case (side, quantity) of
        (Some sd, Some q) \<Rightarrow> Inr \<lparr>bo_symbol = symb, bo_side = sd, bo_quantity = q,
           bo_order_type = (if price \<noteq> None then ''limit'' else ''market''), bo_price = price\<rparr>
      | _ \<Rightarrow> Inl (ValueError ''side and quantity are required''))"

section \<open>Credentials\<close>

record toss_credentials =
  tc_client_id :: string
  tc_client_secret :: string
  tc_account_seq :: string

record kb_credentials =
  kc_app_key :: string
  kc_app_secret :: string
  kc_order_path :: string

definition kb_buy_path :: string where "kb_buy_path = ''/api/v1/ssam1802''"

definition kb_sell_path :: string where "kb_sell_path = ''/api/v1/ssam1801''"

text \<open>\<open>str(data[key])\<close>; the message of the \<open>KeyError\<close> shows the key in quotes.\<close>

definition credential_field ::
  "(decimal \<Rightarrow> string) \<Rightarrow> string \<Rightarrow> row \<Rightarrow> string \<Rightarrow> string res" where
  "credential_field show_dec broker data key =
     (case dict_get data key of
        None \<Rightarrow> Inl (CredentialParseError (broker @ '' credential missing field: '' @ [CHR 0x27] @ key @ [CHR 0x27]))
      | Some v \<Rightarrow> Inr (py_str show_dec v))"

definition parse_toss_credentials ::
  "(string \<Rightarrow> py_value option) \<Rightarrow> (decimal \<Rightarrow> string) \<Rightarrow> string \<Rightarrow> toss_credentials res" where
  "parse_toss_credentials json_loads show_dec material =
     (let text = strip material in
      if text = [] then Inl (CredentialParseError ''empty Toss credential material'')
      else if starts_with ''{'' text then
        (case json_loads text of
           None \<Rightarrow> Inl (CredentialParseError ''Toss credential JSON is invalid'')
         | Some (PDict data) \<Rightarrow>
             res_bind (credential_field show_dec ''Toss'' data ''client_id'') (\<lambda>i.
             res_bind (credential_field show_dec ''Toss'' data ''client_secret'') (\<lambda>s.
             res_bind (credential_field show_dec ''Toss'' data ''account_seq'') (\<lambda>a.
             Inr \<lparr>tc_client_id = i, tc_client_secret = s, tc_account_seq = a\<rparr>)))
         | Some _ \<Rightarrow> Inl (TypeError ''indices must be integers''))
      else
        (case split_on (CHR '':'') text of
           [i, s, a] \<Rightarrow> if i \<noteq> [] \<and> s \<noteq> [] \<and> a \<noteq> []
             then Inr \<lparr>tc_client_id = i, tc_client_secret = s, tc_account_seq = a\<rparr>
             else Inl (CredentialParseError ''Toss credential must be JSON or client_id:client_secret:account_seq'')
         | _ \<Rightarrow> Inl (CredentialParseError ''Toss credential must be JSON or client_id:client_secret:account_seq'')))"

definition parse_kb_credentials ::
  "(string \<Rightarrow> py_value option) \<Rightarrow> (decimal \<Rightarrow> string) \<Rightarrow> string \<Rightarrow> kb_credentials res" where
  "parse_kb_credentials json_loads show_dec material =
     (let text = strip material in
      if text = [] then Inl (CredentialParseError ''empty KB credential material'')
      else if starts_with ''{'' text then
        (case json_loads text of
           None \<Rightarrow> Inl (CredentialParseError ''KB credential JSON is invalid'')
         | Some (PDict data) \<Rightarrow>
             (let path = py_str show_dec (row_get data ''order_path'' (PStr kb_buy_path)) in
             res_bind (credential_field show_dec ''KB'' data ''app_key'') (\<lambda>k.
             res_bind (credential_field show_dec ''KB'' data ''app_secret'') (\<lambda>s.
             Inr \<lparr>kc_app_key = k, kc_app_secret = s, kc_order_path = path\<rparr>)))
         | Some _ \<Rightarrow> Inl (AttributeError ''get''))
      else
        (case split_on (CHR '':'') text of
           k # s # rest \<Rightarrow> if k = [] \<or> s = []
             then Inl (CredentialParseError ''KB credential must be JSON or app_key:app_secret'')
             else Inr \<lparr>kc_app_key = k, kc_app_secret = s,
                    kc_order_path = (case rest of p # _ \<Rightarrow> if p \<noteq> [] then p else kb_buy_path | [] \<Rightarrow> kb_buy_path)\<rparr>
         | _ \<Rightarrow> Inl (CredentialParseError ''KB credential must be JSON or app_key:app_secret'')))"

section \<open>Adapters: credentials and tokens\<close>

record 'c adapter =
  ad_credentials :: "'c option"
  ad_base_credentials :: "'c option"
  ad_token :: "string option"
  ad_ephemeral :: bool

definition adapter_init :: "'c option \<Rightarrow> 'c adapter" where
  "adapter_init c = \<lparr>ad_credentials = c, ad_base_credentials = c, ad_token = None, ad_ephemeral = False\<rparr>"

definition toss_apply_secret ::
  "(string \<Rightarrow> py_value option) \<Rightarrow> (decimal \<Rightarrow> string) \<Rightarrow> toss_credentials adapter \<Rightarrow> string \<Rightarrow>
     toss_credentials adapter res" where
  "toss_apply_secret json_loads show_dec ad material =
     res_bind (parse_toss_credentials json_loads show_dec material) (\<lambda>c.
     Inr (ad\<lparr>ad_credentials := Some c, ad_token := None, ad_ephemeral := True\<rparr>))"

definition kb_apply_secret ::
  "(string \<Rightarrow> py_value option) \<Rightarrow> (decimal \<Rightarrow> string) \<Rightarrow> kb_credentials adapter \<Rightarrow> string \<Rightarrow>
     kb_credentials adapter res" where
  "kb_apply_secret json_loads show_dec ad material =
     res_bind (parse_kb_credentials json_loads show_dec material) (\<lambda>c.
     Inr (ad\<lparr>ad_credentials := Some c, ad_token := None, ad_ephemeral := True\<rparr>))"

definition clear_secret :: "'c adapter \<Rightarrow> 'c adapter" where
  "clear_secret ad = (if ad_ephemeral ad
     then ad\<lparr>ad_credentials := ad_base_credentials ad, ad_token := None, ad_ephemeral := False\<rparr> else ad)"

text \<open>Adapters built from the process environment; a missing variable is a \<open>KeyError\<close>.\<close>

definition environ_item :: "(string, string) dict \<Rightarrow> string \<Rightarrow> string res" where
  "environ_item env name = (case dict_get env name of None \<Rightarrow> Inl (KeyError name) | Some v \<Rightarrow> Inr v)"

definition toss_from_env :: "(string, string) dict \<Rightarrow> toss_credentials adapter res" where
  "toss_from_env env =
     res_bind (environ_item env ''TOSS_CLIENT_ID'') (\<lambda>i.
     res_bind (environ_item env ''TOSS_CLIENT_SECRET'') (\<lambda>s.
     res_bind (environ_item env ''TOSS_ACCOUNT_SEQ'') (\<lambda>a.
     Inr (adapter_init (Some \<lparr>tc_client_id = i, tc_client_secret = s, tc_account_seq = a\<rparr>)))))"

definition kb_from_env :: "(string, string) dict \<Rightarrow> kb_credentials adapter res" where
  "kb_from_env env =
     res_bind (environ_item env ''KB_APP_KEY'') (\<lambda>k.
     res_bind (environ_item env ''KB_APP_SECRET'') (\<lambda>s.
     Inr (adapter_init (Some \<lparr>kc_app_key = k, kc_app_secret = s,
       kc_order_path = dict_get_or env ''KB_ORDER_PATH'' kb_buy_path\<rparr>))))"

definition live_enabled :: "string option \<Rightarrow> bool" where
  "live_enabled env = (lower (strip (case env of None \<Rightarrow> [] | Some v \<Rightarrow> v)) \<in> {''1'', ''true'', ''yes''})"

section \<open>The Toss adapter (brokers/toss.py)\<close>

text \<open>The network: the token request, and API requests with method, path and JSON body.\<close>

record toss_net =
  tn_token :: "toss_credentials \<Rightarrow> string + py_value"
  tn_api :: "toss_credentials \<Rightarrow> string \<Rightarrow> string \<Rightarrow> string \<Rightarrow> row option \<Rightarrow> string + py_value"

definition toss_require_credentials :: "toss_credentials adapter \<Rightarrow> toss_credentials res" where
  "toss_require_credentials ad = (case ad_credentials ad of
     None \<Rightarrow> Inl (PermissionError ''Toss credentials are not configured'') | Some c \<Rightarrow> Inr c)"

definition toss_token_value :: "toss_net \<Rightarrow> toss_credentials adapter \<Rightarrow> string res \<times> toss_credentials adapter" where
  "toss_token_value net ad =
     (case toss_require_credentials ad of
        Inl e \<Rightarrow> (Inl e, ad)
      | Inr c \<Rightarrow>
          (case ad_token ad of
             Some (ch # t) \<Rightarrow> (Inr (ch # t), ad)
           | _ \<Rightarrow>
             (case tn_token net c of
                Inl exc \<Rightarrow> (Inl (BrokerApiError (''token request failed: '' @ exc)), ad)
              | Inr (PDict payload) \<Rightarrow>
                  (case row_get payload ''access_token'' PNone of
                     PStr (ch # t) \<Rightarrow> (Inr (ch # t), ad\<lparr>ad_token := Some (ch # t)\<rparr>)
                   | _ \<Rightarrow> (Inl (BrokerApiError ''token response did not contain access_token''), ad))
              | Inr _ \<Rightarrow> (Inl (AttributeError ''get''), ad))))"

definition toss_request ::
  "toss_net \<Rightarrow> toss_credentials adapter \<Rightarrow> string \<Rightarrow> string \<Rightarrow> row option \<Rightarrow> row res \<times> toss_credentials adapter" where
  "toss_request net ad meth path body =
     (case toss_require_credentials ad of
        Inl e \<Rightarrow> (Inl e, ad)
      | Inr c \<Rightarrow>
          (case toss_token_value net ad of
             (Inl e, ad') \<Rightarrow> (Inl e, ad')
           | (Inr token, ad') \<Rightarrow>
               (case tn_api net c token meth path body of
                  Inl exc \<Rightarrow> (Inl (BrokerApiError (''Toss API request failed: '' @ exc)), ad')
                | Inr (PDict payload) \<Rightarrow> (Inr payload, ad')
                | Inr _ \<Rightarrow> (Inl (BrokerApiError ''Toss API response was not a JSON object''), ad'))))"

definition toss_validate :: "broker_order \<Rightarrow> (string \<times> string) res" where
  "toss_validate req =
     (let side = upper (strip (bo_side req)); order_type = upper (strip (bo_order_type req)) in
      if side \<notin> {''BUY'', ''SELL''} \<or> order_type \<notin> {''LIMIT'', ''MARKET''}
      then Inl (ValueError ''unsupported Toss order request'')
      else if strip (bo_symbol req) = [] then Inl (ValueError ''symbol is required'')
      else if bo_quantity req \<le> 0 then Inl (ValueError ''quantity must be positive'')
      else if order_type = ''LIMIT'' then
        (case bo_price req of
           None \<Rightarrow> Inl (ValueError ''limit orders require a positive price'')
         | Some p \<Rightarrow> if p \<le> 0 then Inl (ValueError ''limit orders require a positive price'')
             else Inr (side, order_type))
      else if bo_price req \<noteq> None then Inl (ValueError ''market orders must not include price'')
      else Inr (side, order_type))"

definition toss_result :: "row \<Rightarrow> order_result" where
  "toss_result response =
     (case row_get response ''result'' PNone of
        PDict result \<Rightarrow>
          (case row_get result ''orderId'' PNone of
             PStr oid \<Rightarrow> if strip oid = []
               then \<lparr>rt_broker = ''toss'', rt_order_id = [], rt_accepted = False,
                     rt_message = ''Toss API response did not contain orderId''\<rparr>
               else \<lparr>rt_broker = ''toss'', rt_order_id = oid, rt_accepted = True, rt_message = []\<rparr>
           | _ \<Rightarrow> \<lparr>rt_broker = ''toss'', rt_order_id = [], rt_accepted = False,
                   rt_message = ''Toss API response did not contain orderId''\<rparr>)
      | _ \<Rightarrow> \<lparr>rt_broker = ''toss'', rt_order_id = [], rt_accepted = False,
              rt_message = ''Toss API response did not contain result''\<rparr>)"

definition toss_payload :: "(decimal \<Rightarrow> string) \<Rightarrow> broker_order \<Rightarrow> string \<Rightarrow> string \<Rightarrow> row" where
  "toss_payload show_dec req side order_type =
     [(''symbol'', PStr (bo_symbol req)), (''side'', PStr side), (''orderType'', PStr order_type),
      (''quantity'', PStr (show_dec (bo_quantity req)))]
     @ (case bo_price req of None \<Rightarrow> [] | Some p \<Rightarrow> [(''price'', PStr (show_dec p))])"

definition toss_submit ::
  "toss_net \<Rightarrow> (decimal \<Rightarrow> string) \<Rightarrow> string option \<Rightarrow> toss_credentials adapter \<Rightarrow> broker_order \<Rightarrow>
     order_result res \<times> toss_credentials adapter" where
  "toss_submit net show_dec env ad req =
     (if \<not> live_enabled env then (Inl (PermissionError ''Toss live execution is disabled by default''), ad)
      else case toss_validate req of
        Inl e \<Rightarrow> (Inl e, ad)
      | Inr (side, order_type) \<Rightarrow>
          (case toss_request net ad ''POST'' ''/api/v1/orders'' (Some (toss_payload show_dec req side order_type)) of
             (Inl e, ad') \<Rightarrow> (Inl e, ad')
           | (Inr response, ad') \<Rightarrow> (Inr (toss_result response), ad')))"

definition toss_typed_payload ::
  "(decimal \<Rightarrow> string) \<Rightarrow> string \<Rightarrow> string \<Rightarrow> string \<Rightarrow> decimal option \<Rightarrow> decimal option \<Rightarrow> decimal option \<Rightarrow>
     string option \<Rightarrow> string option \<Rightarrow> row" where
  "toss_typed_payload show_dec symb side order_type quantity order_amount price cid tif =
     [(''symbol'', PStr symb), (''side'', PStr side), (''orderType'', PStr order_type)]
     @ (case quantity of None \<Rightarrow> [] | Some q \<Rightarrow> [(''quantity'', PStr (show_dec q))])
     @ (case order_amount of None \<Rightarrow> [] | Some a \<Rightarrow> [(''orderAmount'', PStr (show_dec a))])
     @ (case price of None \<Rightarrow> [] | Some p \<Rightarrow> [(''price'', PStr (show_dec p))])
     @ (case cid of None \<Rightarrow> [] | Some c \<Rightarrow> if c = [] then [] else [(''clientOrderId'', PStr c)])
     @ (case tif of None \<Rightarrow> [] | Some t \<Rightarrow> if t = [] then [] else [(''timeInForce'', PStr t)])"

definition toss_submit_typed ::
  "toss_net \<Rightarrow> (decimal \<Rightarrow> string) \<Rightarrow> string option \<Rightarrow> toss_credentials adapter \<Rightarrow> string \<Rightarrow> string \<Rightarrow> string \<Rightarrow>
     decimal option \<Rightarrow> decimal option \<Rightarrow> decimal option \<Rightarrow> string option \<Rightarrow> string option \<Rightarrow>
     order_result res \<times> toss_credentials adapter" where
  "toss_submit_typed net show_dec env ad symb side order_type quantity price order_amount cid tif =
     (if \<not> live_enabled env then (Inl (PermissionError ''Toss live execution is disabled by default''), ad)
      else if (quantity = None) = (order_amount = None)
      then (Inl (ValueError ''exactly one of quantity or order_amount is required''), ad)
      else if (case quantity of None \<Rightarrow> False | Some q \<Rightarrow> q \<le> 0)
      then (Inl (ValueError ''quantity must be positive''), ad)
      else if (case order_amount of None \<Rightarrow> False | Some a \<Rightarrow> a \<le> 0)
      then (Inl (ValueError ''order_amount must be positive''), ad)
      else case toss_validate \<lparr>bo_symbol = symb, bo_side = side,
             bo_quantity = (case quantity of None \<Rightarrow> 1 | Some q \<Rightarrow> if q = 0 then 1 else q),
             bo_order_type = order_type, bo_price = price\<rparr> of
        Inl e \<Rightarrow> (Inl e, ad)
      | Inr (nside, ntype) \<Rightarrow>
          (case toss_request net ad ''POST'' ''/api/v1/orders''
               (Some (toss_typed_payload show_dec symb nside ntype quantity order_amount price cid tif)) of
             (Inl e, ad') \<Rightarrow> (Inl e, ad')
           | (Inr response, ad') \<Rightarrow> (Inr (toss_result response), ad')))"

text \<open>\<open>urllib.parse.quote(s, safe='')\<close> on ASCII text.\<close>

definition hex_char :: "int \<Rightarrow> char" where
  "hex_char n = (if n < 10 then char_of (n + 48) else char_of (n + 55))"

definition quote_char :: "char \<Rightarrow> string" where
  "quote_char c = (let n = of_char c :: int in
     if (48 \<le> n \<and> n \<le> 57) \<or> (65 \<le> n \<and> n \<le> 90) \<or> (97 \<le> n \<and> n \<le> 122) \<or> c \<in> {CHR ''_'', CHR ''.'', CHR ''-'', CHR ''~''}
     then [c] else [CHR ''%'', hex_char (n div 16), hex_char (n mod 16)])"

definition url_quote :: "string \<Rightarrow> string" where
  "url_quote s = concat (map quote_char s)"

definition toss_cancel ::
  "toss_net \<Rightarrow> string option \<Rightarrow> toss_credentials adapter \<Rightarrow> string \<Rightarrow> bool res \<times> toss_credentials adapter" where
  "toss_cancel net env ad order_id =
     (if \<not> live_enabled env then (Inl (PermissionError ''Toss live execution is disabled by default''), ad)
      else if strip order_id = [] then (Inl (ValueError ''order_id is required''), ad)
      else case toss_request net ad ''POST'' (''/api/v1/orders/'' @ url_quote order_id @ ''/cancel'') None of
        (Inl e, ad') \<Rightarrow> (Inl e, ad')
      | (Inr _, ad') \<Rightarrow> (Inr True, ad'))"

section \<open>The KB adapter (brokers/kb.py)\<close>

record kb_net =
  kn_token :: "kb_credentials \<Rightarrow> string + py_value"
  kn_api :: "string \<Rightarrow> string \<Rightarrow> string \<Rightarrow> row \<Rightarrow> string + py_value"

definition kb_require_credentials :: "kb_credentials adapter \<Rightarrow> kb_credentials res" where
  "kb_require_credentials ad = (case ad_credentials ad of
     None \<Rightarrow> Inl (PermissionError ''KB credentials are not configured'') | Some c \<Rightarrow> Inr c)"

text \<open>A cached token is used without asking for the credentials again.\<close>

definition kb_token_value :: "kb_net \<Rightarrow> kb_credentials adapter \<Rightarrow> string res \<times> kb_credentials adapter" where
  "kb_token_value net ad =
     (case ad_token ad of
        Some (ch # t) \<Rightarrow> (Inr (ch # t), ad)
      | _ \<Rightarrow>
        (case kb_require_credentials ad of
           Inl e \<Rightarrow> (Inl e, ad)
         | Inr c \<Rightarrow>
             (case kn_token net c of
                Inl exc \<Rightarrow> (Inl (BrokerApiError (''KB token request failed: '' @ exc)), ad)
              | Inr payload \<Rightarrow>
                  (case (case payload of PDict d \<Rightarrow> row_get d ''access_token'' PNone | _ \<Rightarrow> PNone) of
                     PStr t \<Rightarrow> if strip t = []
                       then (Inl (BrokerApiError ''KB token response did not contain access_token''), ad)
                       else (Inr (strip t), ad\<lparr>ad_token := Some (strip t)\<rparr>)
                   | _ \<Rightarrow> (Inl (BrokerApiError ''KB token response did not contain access_token''), ad)))))"

definition kb_request ::
  "kb_net \<Rightarrow> kb_credentials adapter \<Rightarrow> string \<Rightarrow> string \<Rightarrow> row \<Rightarrow> row res \<times> kb_credentials adapter" where
  "kb_request net ad meth path body =
     (case kb_require_credentials ad of
        Inl e \<Rightarrow> (Inl e, ad)
      | Inr _ \<Rightarrow>
          (case kb_token_value net ad of
             (Inl e, ad') \<Rightarrow> (Inl e, ad')
           | (Inr token, ad') \<Rightarrow>
               (case kn_api net token meth path body of
                  Inl exc \<Rightarrow> (Inl (BrokerApiError (''KB API request failed: '' @ exc)), ad')
                | Inr (PDict payload) \<Rightarrow> (Inr payload, ad')
                | Inr _ \<Rightarrow> (Inl (BrokerApiError ''KB API response was not a JSON object''), ad'))))"

definition kb_validate :: "broker_order \<Rightarrow> (string \<times> string) res" where
  "kb_validate req =
     (let side = upper (strip (bo_side req)); order_type = upper (strip (bo_order_type req)) in
      if side \<notin> {''BUY'', ''SELL''} \<or> order_type \<notin> {''LIMIT'', ''MARKET''}
      then Inl (ValueError ''unsupported KB order request'')
      else if strip (bo_symbol req) = [] then Inl (ValueError ''symbol is required'')
      else if bo_quantity req \<le> 0 then Inl (ValueError ''quantity must be positive'')
      else if order_type = ''LIMIT'' \<and> (case bo_price req of None \<Rightarrow> True | Some p \<Rightarrow> p \<le> 0)
      then Inl (ValueError ''limit orders require a positive price'')
      else if order_type = ''MARKET'' \<and> bo_price req \<noteq> None
      then Inl (ValueError ''market orders must not include price'')
      else Inr (side, order_type))"

definition kb_build_order_body :: "broker_order \<Rightarrow> string \<Rightarrow> string \<Rightarrow> row res" where
  "kb_build_order_body req side order_type = Inl (KbOrderSchemaUnavailable
     ''KB SSAM1801/SSAM1802 request fields are not fully pinned; refusing to guess order payload'')"

definition kb_path_for_side :: "string \<Rightarrow> string" where
  "kb_path_for_side side = (if side = ''BUY'' then kb_buy_path else kb_sell_path)"

definition kb_submit :: "string option \<Rightarrow> kb_credentials adapter \<Rightarrow> broker_order \<Rightarrow> order_result res" where
  "kb_submit env ad req =
     (if \<not> live_enabled env then Inl (PermissionError ''KB live execution is disabled by default'')
      else res_bind (kb_validate req) (\<lambda>(side, order_type).
           res_bind (kb_build_order_body req side order_type) (\<lambda>_.
           Inl (AssertionError ''unreachable''))))"

definition kb_cancel :: "string option \<Rightarrow> kb_credentials adapter \<Rightarrow> string \<Rightarrow> string option \<Rightarrow> bool res" where
  "kb_cancel env ad order_id symb =
     (if \<not> live_enabled env then Inl (PermissionError ''KB live execution is disabled by default'')
      else if strip order_id = [] then Inl (ValueError ''order_id is required'')
      else if (case symb of None \<Rightarrow> True | Some s \<Rightarrow> strip s = [] \<or> strip s = ''-'')
      then Inl (ValueError ''symbol is required for KB cancel'')
      else Inl (KbOrderSchemaUnavailable
        ''KB SSAM1806 cancel fields are not fully pinned; refusing to guess cancel payload''))"

definition kb_result :: "row \<Rightarrow> order_result" where
  "kb_result response =
     (let message = (case row_get response ''o_msg'' PNone of PStr s \<Rightarrow> strip s | _ \<Rightarrow> []);
          none = \<lparr>rt_broker = ''kb'', rt_order_id = [], rt_accepted = False,
            rt_message = (if message \<noteq> [] then message else ''KB API response did not contain ordr_no'')\<rparr>
      in case row_get response ''ordr_no'' PNone of
           PStr oid \<Rightarrow> if strip oid = [] then none
             else \<lparr>rt_broker = ''kb'', rt_order_id = strip oid, rt_accepted = True, rt_message = message\<rparr>
         | _ \<Rightarrow> none)"

section \<open>The router (brokers/safe_router.py)\<close>

datatype broker_adapter = TossAdapter "toss_credentials adapter" | KbAdapter "kb_credentials adapter"

record broker_router =
  br_adapters :: "(string, broker_adapter) dict"
  br_gate :: "order_gate option"

definition router_authorize :: "broker_router \<Rightarrow> string \<Rightarrow> string option \<Rightarrow> int \<Rightarrow> unit res" where
  "router_authorize r mode approval_id now =
     (if mode \<noteq> ''REAL_LIVE'' then Inl (LiveBrokerDenied ''broker adapters are unavailable outside REAL_LIVE'')
      else case (br_gate r, approval_id) of
        (Some g, Some i) \<Rightarrow> order_gate_require g i now
      | _ \<Rightarrow> Inl (LiveBrokerDenied ''explicit live approval is required''))"

fun adapter_submit ::
  "toss_net \<Rightarrow> (decimal \<Rightarrow> string) \<Rightarrow> string option \<Rightarrow> broker_adapter \<Rightarrow> broker_order \<Rightarrow>
     order_result res \<times> broker_adapter" where
  "adapter_submit net show_dec env (TossAdapter ad) req =
     (case toss_submit net show_dec env ad req of (r, ad') \<Rightarrow> (r, TossAdapter ad'))"
| "adapter_submit net show_dec env (KbAdapter ad) req = (kb_submit env ad req, KbAdapter ad)"

fun adapter_cancel ::
  "toss_net \<Rightarrow> string option \<Rightarrow> broker_adapter \<Rightarrow> string \<Rightarrow> string option \<Rightarrow> bool res \<times> broker_adapter" where
  "adapter_cancel net env (TossAdapter ad) order_id symb =
     (case toss_cancel net env ad order_id of (r, ad') \<Rightarrow> (r, TossAdapter ad'))"
| "adapter_cancel net env (KbAdapter ad) order_id symb = (kb_cancel env ad order_id symb, KbAdapter ad)"

definition router_submit ::
  "toss_net \<Rightarrow> (decimal \<Rightarrow> string) \<Rightarrow> string option \<Rightarrow> broker_router \<Rightarrow> string \<Rightarrow> string \<Rightarrow> broker_order \<Rightarrow>
     string option \<Rightarrow> int \<Rightarrow> order_result res \<times> broker_router" where
  "router_submit net show_dec env r mode broker req approval_id now =
     (case router_authorize r mode approval_id now of
        Inl e \<Rightarrow> (Inl e, r)
      | Inr _ \<Rightarrow>
          (case dict_get (br_adapters r) broker of
             None \<Rightarrow> (Inl (LiveBrokerDenied (''broker adapter is not configured: '' @ broker)), r)
           | Some ad \<Rightarrow> (case adapter_submit net show_dec env ad req of
                (res, ad') \<Rightarrow> (res, r\<lparr>br_adapters := dict_set broker ad' (br_adapters r)\<rparr>))))"

definition router_cancel ::
  "toss_net \<Rightarrow> string option \<Rightarrow> broker_router \<Rightarrow> string \<Rightarrow> string \<Rightarrow> string \<Rightarrow> string option \<Rightarrow> string option \<Rightarrow> int \<Rightarrow>
     bool res \<times> broker_router" where
  "router_cancel net env r mode broker order_id approval_id symb now =
     (case router_authorize r mode approval_id now of
        Inl e \<Rightarrow> (Inl e, r)
      | Inr _ \<Rightarrow>
          (case dict_get (br_adapters r) broker of
             None \<Rightarrow> (Inl (LiveBrokerDenied (''broker adapter is not configured: '' @ broker)), r)
           | Some ad \<Rightarrow> (case adapter_cancel net env ad order_id symb of
                (res, ad') \<Rightarrow> (res, r\<lparr>br_adapters := dict_set broker ad' (br_adapters r)\<rparr>))))"

section \<open>Credentials last for one gated call\<close>

text \<open>
  What the trade facade relies on: applying secret material and using the adapter keep the base
  credentials, and clearing restores them.
\<close>

locale ephemeral_credentials =
  fixes inject :: "'a \<Rightarrow> string \<Rightarrow> 'a res"
    and call :: "'a \<Rightarrow> 'e \<Rightarrow> 'a"
    and clear :: "'a \<Rightarrow> 'a"
    and creds :: "'a \<Rightarrow> 'c option"
    and base :: "'a \<Rightarrow> 'c option"
    and tidy :: "'a \<Rightarrow> bool"
  assumes apply_base: "inject a m = Inr a' \<Longrightarrow> base a' = base a \<and> tidy a'"
    and use_base: "tidy a \<Longrightarrow> base (call a e) = base a \<and> tidy (call a e)"
    and clear_restores: "tidy a \<Longrightarrow> creds (clear a) = base a \<and> base (clear a) = base a \<and> tidy (clear a)"
begin

lemma uses_base: "tidy a \<Longrightarrow> base (foldl call a es) = base a \<and> tidy (foldl call a es)"
  by (induction es arbitrary: a) (use use_base in auto)

lemma gated_call_restores:
  assumes "inject a m = Inr a'"
  shows "creds (clear (foldl call a' es)) = base a \<and> base (clear (foldl call a' es)) = base a"
  using apply_base [OF assms] uses_base [of a' es] clear_restores [of "foldl call a' es"] by simp

end

definition tidy_adapter :: "'c adapter \<Rightarrow> bool" where
  "tidy_adapter ad = (ad_ephemeral ad \<or> ad_credentials ad = ad_base_credentials ad)"

lemma toss_token_value_adapter:
  "toss_token_value net ad = (r, ad') \<Longrightarrow> ad' = ad\<lparr>ad_token := ad_token ad'\<rparr>"
  by (auto simp: toss_token_value_def split: sum.splits option.splits list.splits py_value.splits)

lemma toss_request_adapter:
  "toss_request net ad meth path body = (r, ad') \<Longrightarrow> ad' = ad\<lparr>ad_token := ad_token ad'\<rparr>"
  by (auto simp: toss_request_def dest: toss_token_value_adapter split: sum.splits prod.splits py_value.splits)

lemma toss_submit_adapter:
  "toss_submit net show_dec env ad req = (r, ad') \<Longrightarrow> ad' = ad\<lparr>ad_token := ad_token ad'\<rparr>"
  by (auto simp: toss_submit_def dest: toss_request_adapter split: sum.splits prod.splits if_splits)

lemma toss_cancel_adapter:
  "toss_cancel net env ad oid = (r, ad') \<Longrightarrow> ad' = ad\<lparr>ad_token := ad_token ad'\<rparr>"
  by (auto simp: toss_cancel_def dest: toss_request_adapter split: sum.splits prod.splits if_splits)

text \<open>The calls the router makes on an adapter.\<close>

datatype adapter_call =
    CallSubmit toss_net "decimal \<Rightarrow> string" "string option" broker_order
  | CallCancel toss_net "string option" string "string option"

fun adapter_step :: "broker_adapter \<Rightarrow> adapter_call \<Rightarrow> broker_adapter" where
  "adapter_step ad (CallSubmit net show_dec env req) = snd (adapter_submit net show_dec env ad req)"
| "adapter_step ad (CallCancel net env oid symb) = snd (adapter_cancel net env ad oid symb)"

fun apply_secret ::
  "(string \<Rightarrow> py_value option) \<Rightarrow> (decimal \<Rightarrow> string) \<Rightarrow> broker_adapter \<Rightarrow> string \<Rightarrow> broker_adapter res" where
  "apply_secret json_loads show_dec (TossAdapter ad) m = map_sum id TossAdapter (toss_apply_secret json_loads show_dec ad m)"
| "apply_secret json_loads show_dec (KbAdapter ad) m = map_sum id KbAdapter (kb_apply_secret json_loads show_dec ad m)"

fun clear_adapter :: "broker_adapter \<Rightarrow> broker_adapter" where
  "clear_adapter (TossAdapter ad) = TossAdapter (clear_secret ad)"
| "clear_adapter (KbAdapter ad) = KbAdapter (clear_secret ad)"

datatype any_credentials = TossCreds toss_credentials | KbCreds kb_credentials

fun creds_of :: "broker_adapter \<Rightarrow> any_credentials option" where
  "creds_of (TossAdapter ad) = map_option TossCreds (ad_credentials ad)"
| "creds_of (KbAdapter ad) = map_option KbCreds (ad_credentials ad)"

fun base_of :: "broker_adapter \<Rightarrow> any_credentials option" where
  "base_of (TossAdapter ad) = map_option TossCreds (ad_base_credentials ad)"
| "base_of (KbAdapter ad) = map_option KbCreds (ad_base_credentials ad)"

fun tidy :: "broker_adapter \<Rightarrow> bool" where
  "tidy (TossAdapter ad) = tidy_adapter ad"
| "tidy (KbAdapter ad) = tidy_adapter ad"

lemma adapter_step_Toss: "\<exists>t. adapter_step (TossAdapter ad) c = TossAdapter (ad\<lparr>ad_token := t\<rparr>)"
proof (cases c)
  case (CallSubmit net show_dec env req)
  obtain r ad' where ad': "toss_submit net show_dec env ad req = (r, ad')" by (cases "toss_submit net show_dec env ad req")
  show ?thesis using toss_submit_adapter [OF ad'] by (auto simp: CallSubmit ad' intro: exI [of _ "ad_token ad'"])
next
  case (CallCancel net env oid symb)
  obtain r ad' where ad': "toss_cancel net env ad oid = (r, ad')" by (cases "toss_cancel net env ad oid")
  show ?thesis using toss_cancel_adapter [OF ad'] by (auto simp: CallCancel ad' intro: exI [of _ "ad_token ad'"])
qed

lemma adapter_step_Kb: "adapter_step (KbAdapter ad) c = KbAdapter ad"
  by (cases c) simp_all

interpretation secret: ephemeral_credentials "apply_secret json_loads show_dec" adapter_step clear_adapter
    creds_of base_of tidy for json_loads show_dec
proof
  fix a a' :: broker_adapter and m :: string
  assume "apply_secret json_loads show_dec a m = Inr a'"
  then show "base_of a' = base_of a \<and> tidy a'"
    by (cases a) (auto simp: toss_apply_secret_def kb_apply_secret_def res_bind_def tidy_adapter_def split: sum.splits)
next
  fix a :: broker_adapter and c
  assume "tidy a"
  then show "base_of (adapter_step a c) = base_of a \<and> tidy (adapter_step a c)"
  proof (cases a)
    case (TossAdapter ad)
    then show ?thesis using \<open>tidy a\<close> adapter_step_Toss [of ad c] by (auto simp: tidy_adapter_def)
  qed (simp add: adapter_step_Kb)
next
  fix a :: broker_adapter
  assume "tidy a"
  then show "creds_of (clear_adapter a) = base_of a \<and> base_of (clear_adapter a) = base_of a \<and> tidy (clear_adapter a)"
    by (cases a) (auto simp: clear_secret_def tidy_adapter_def)
qed

section \<open>Runs of the approval gate\<close>

datatype gate_event = GateApprove string "string option" int string int | GateRevoke

fun gate_step :: "order_gate \<Rightarrow> gate_event \<Rightarrow> order_gate" where
  "gate_step g (GateApprove by nonce ttl token now) =
     (case order_gate_approve g by nonce ttl token now of Inl _ \<Rightarrow> g | Inr (_, g') \<Rightarrow> g')"
| "gate_step g GateRevoke = order_gate_revoke g"

text \<open>The call granted approval \<open>a\<close> on a gate with this nonce.\<close>

fun grants :: "string \<Rightarrow> gate_event \<Rightarrow> order_approval \<Rightarrow> bool" where
  "grants nonce0 (GateApprove by nonce ttl token now) a =
     (strip by \<noteq> [] \<and> (nonce = None \<or> nonce = Some nonce0) \<and> 1 \<le> ttl \<and> ttl \<le> 3600
      \<and> a = \<lparr>oa_approval_id = token, oa_approved_by = strip by, oa_expires_at = now + ttl * 1000000\<rparr>)"
| "grants nonce0 GateRevoke a = False"

text \<open>A later call that would replace or remove the approval.\<close>

definition supersedes :: "string \<Rightarrow> gate_event \<Rightarrow> bool" where
  "supersedes nonce e = (e = GateRevoke \<or> (\<exists>a. grants nonce e a))"

lemma gate_step_nonce [simp]: "og_nonce (gate_step g e) = og_nonce g"
  by (cases e) (auto simp: order_gate_approve_def order_gate_revoke_def Let_def split: sum.splits)

lemma gate_step_approval:
  "og_approval (gate_step g e) = Some a \<Longrightarrow>
     grants (og_nonce g) e a \<or> (og_approval g = Some a \<and> \<not> supersedes (og_nonce g) e)"
  by (cases e) (auto simp: order_gate_approve_def order_gate_revoke_def supersedes_def Let_def split: sum.splits if_splits)

lemma gate_run_approval:
  "og_approval (foldl gate_step g es) = Some a \<Longrightarrow>
     (\<exists>es1 e es2. es = es1 @ e # es2 \<and> grants (og_nonce g) e a \<and> (\<forall>e' \<in> set es2. \<not> supersedes (og_nonce g) e'))
     \<or> (og_approval g = Some a \<and> (\<forall>e' \<in> set es. \<not> supersedes (og_nonce g) e'))"
proof (induction es rule: rev_induct)
  case (snoc e es)
  have nonce: "og_nonce (foldl gate_step g es) = og_nonce g" by (induction es rule: rev_induct) simp_all
  from snoc.prems have "grants (og_nonce g) e a \<or>
      (og_approval (foldl gate_step g es) = Some a \<and> \<not> supersedes (og_nonce g) e)"
    using gate_step_approval [of "foldl gate_step g es" e a] nonce by simp
  then show ?case
  proof
    assume "grants (og_nonce g) e a"
    then show ?thesis by (intro disjI1 exI [of _ es] exI [of _ e] exI [of _ "[]"]) simp
  next
    assume a: "og_approval (foldl gate_step g es) = Some a \<and> \<not> supersedes (og_nonce g) e"
    from snoc.IH [OF conjunct1 [OF a]] show ?thesis
    proof (elim disjE exE conjE)
      fix es1 e1 es2
      assume "es = es1 @ e1 # es2" "grants (og_nonce g) e1 a" "\<forall>e' \<in> set es2. \<not> supersedes (og_nonce g) e'"
      then show ?thesis using a
        by (intro disjI1 exI [of _ es1] exI [of _ e1] exI [of _ "es2 @ [e]"]) auto
    qed (use a in auto)
  qed
qed simp

lemma order_gate_require_eq_Inr [res_simps]:
  "order_gate_require g i now = Inr u \<longleftrightarrow>
     (\<exists>a. og_approval g = Some a \<and> oa_approval_id a = i \<and> now < oa_expires_at a)"
  by (auto simp: order_gate_require_def raise_if_eq not_le split: option.splits)

lemma router_authorize_eq_Inr [res_simps]:
  "router_authorize r mode aid now = Inr u \<longleftrightarrow>
     mode = ''REAL_LIVE'' \<and> (\<exists>g i. br_gate r = Some g \<and> aid = Some i \<and> order_gate_require g i now = Inr ())"
  by (auto simp: router_authorize_def split: option.splits)

lemma toss_validate_eq_kb: "toss_validate req = Inr x \<longleftrightarrow> kb_validate req = Inr x"
  by (auto simp: toss_validate_def kb_validate_def Let_def split: option.splits if_splits)

lemma kb_submit_fails: "\<exists>e. kb_submit env ad req = Inl e"
  by (cases "kb_validate req") (auto simp: kb_submit_def kb_build_order_body_def)

lemma kb_cancel_fails: "\<exists>e. kb_cancel env ad oid symb = Inl e"
  by (auto simp: kb_cancel_def split: option.splits)

lemma router_submit_Inr:
  assumes "router_submit net show_dec env r mode broker req aid now = (Inr x, r')"
  shows "router_authorize r mode aid now = Inr () \<and> live_enabled env \<and> is_ok (toss_validate req)
    \<and> (\<exists>ad. dict_get (br_adapters r) broker = Some (TossAdapter ad))"
proof -
  have au: "router_authorize r mode aid now = Inr ()"
    using assms by (auto simp: router_submit_def split: sum.splits)
  obtain ad where ad: "dict_get (br_adapters r) broker = Some ad"
    using assms au by (auto simp: router_submit_def split: option.splits)
  have res: "fst (adapter_submit net show_dec env ad req) = Inr x"
    using assms au ad by (auto simp: router_submit_def split: prod.splits)
  show ?thesis
  proof (cases ad)
    case (TossAdapter t)
    then have "live_enabled env \<and> is_ok (toss_validate req)"
      using res by (auto simp: toss_submit_def split: if_splits sum.splits prod.splits)
    then show ?thesis using au ad TossAdapter by blast
  next
    case (KbAdapter k)
    then show ?thesis using res kb_submit_fails [of env k req] by auto
  qed
qed

lemma toss_submit_disabled:
  "\<not> live_enabled env \<Longrightarrow> toss_submit net show_dec env ad req =
    (Inl (PermissionError ''Toss live execution is disabled by default''), ad)"
  by (simp add: toss_submit_def)

lemma adapter_submit_disabled:
  "\<not> live_enabled env \<Longrightarrow> \<exists>e. \<forall>net. adapter_submit net show_dec env ad req = (Inl e, ad)"
  by (cases ad) (auto simp: toss_submit_disabled kb_submit_def)

lemma router_submit_silent:
  assumes off: "\<not> is_ok (router_authorize r mode aid now) \<or> \<not> live_enabled env" and wf: "dict_wf (br_adapters r)"
  shows "\<exists>e. \<forall>net. router_submit net show_dec env r mode broker req aid now = (Inl e, r)"
proof (cases "router_authorize r mode aid now")
  case (Inl e)
  then show ?thesis by (auto simp: router_submit_def)
next
  case (Inr u)
  show ?thesis
  proof (cases "dict_get (br_adapters r) broker")
    case None
    then show ?thesis using Inr by (auto simp: router_submit_def)
  next
    case (Some ad)
    obtain e where e: "\<And>net. adapter_submit net show_dec env ad req = (Inl e, ad)"
      using adapter_submit_disabled off Inr by fastforce
    have "r\<lparr>br_adapters := dict_set broker ad (br_adapters r)\<rparr> = r"
      using dict_set_same [OF Some wf] by simp
    then show ?thesis using Some Inr e by (auto simp: router_submit_def)
  qed
qed

section \<open>Texts on the wire\<close>

definition hex_value :: "char \<Rightarrow> int" where
  "hex_value c = (let n = of_char c :: int in if n < 65 then n - 48 else n - 55)"

fun url_unquote :: "string \<Rightarrow> string" where
  "url_unquote (c # a # b # cs) = (if c = CHR ''%'' then char_of (hex_value a * 16 + hex_value b) # url_unquote cs
     else c # url_unquote (a # b # cs))"
| "url_unquote cs = cs"

lemma hex_char_code: "0 \<le> n \<Longrightarrow> n < 16 \<Longrightarrow> of_char (hex_char n) = (if n < 10 then n + 48 else n + 55 :: int)"
  by (simp add: hex_char_def of_char_of flip: take_bit_eq_mod)

lemma hex_value_char: "0 \<le> n \<Longrightarrow> n < 16 \<Longrightarrow> hex_value (hex_char n) = n"
  by (simp add: hex_value_def hex_char_code Let_def)

lemma quote_char_cases:
  obtains "quote_char c = [c]" "c \<noteq> CHR ''%''" "c \<noteq> CHR ''/''"
  | "quote_char c = [CHR ''%'', hex_char (of_char c div 16), hex_char (of_char c mod 16)]"
proof (cases "quote_char c = [c]")
  case True
  have "c \<noteq> CHR ''%''" "c \<noteq> CHR ''/''" using True by (auto simp: quote_char_def Let_def)
  then show thesis using True that by blast
next
  case False
  then show thesis using that by (auto simp: quote_char_def Let_def split: if_splits)
qed

lemma url_unquote_kept: "c \<noteq> CHR ''%'' \<Longrightarrow> url_unquote (c # t) = c # url_unquote t"
  by (cases t rule: url_unquote.cases) auto

lemma url_unquote_char: "url_unquote (quote_char c @ t) = c # url_unquote t"
proof (cases c rule: quote_char_cases)
  case 1
  then show ?thesis by (simp add: url_unquote_kept)
next
  case 2
  have b: "0 \<le> (of_char c :: int) div 16" "(of_char c :: int) div 16 < 16" "0 \<le> (of_char c :: int) mod 16"
    "(of_char c :: int) mod 16 < 16" using of_char_range [of c] by (auto simp: pos_imp_zdiv_nonneg_iff)
  have "(of_char c :: int) div 16 * 16 + of_char c mod 16 = of_char c" by simp
  then show ?thesis by (simp add: 2 hex_value_char b del: div_mult_mod_eq)
qed

lemma url_unquote_quote: "url_unquote (url_quote s) = s"
  by (induction s) (simp_all add: url_quote_def url_unquote_char)

lemma quote_char_no_slash: "CHR ''/'' \<notin> set (quote_char c)"
proof (cases c rule: quote_char_cases)
  case 2
  have "CHR ''/'' \<noteq> hex_char n" if "0 \<le> n" "n < 16" for n
  proof
    assume "CHR ''/'' = hex_char n"
    then have "(of_char (hex_char n) :: int) = of_char CHR ''/''" by metis
    then show False using that by (simp add: hex_char_code split: if_splits)
  qed
  then show ?thesis using of_char_range [of c] by (simp add: 2 pos_imp_zdiv_nonneg_iff)
qed simp

section \<open>Properties\<close>

text \<open>
  (C6) An order reaches a broker only with a fresh human approval: whenever the router's submit
  returns, the mode is \<open>REAL_LIVE\<close>, live execution is enabled, the order is valid, and the
  approval id was granted by an \<open>approve\<close> of this gate, by a named person and for at most an hour,
  that has not expired and that no later call revoked or replaced.
\<close>

theorem live_order_needs_fresh_approval:
  assumes g: "br_gate r = Some (foldl gate_step (order_gate_init nonce) es)"
    and s: "router_submit net show_dec env r mode broker req aid now = (Inr x, r')"
  shows "mode = ''REAL_LIVE'' \<and> live_enabled env \<and> is_ok (toss_validate req)
    \<and> (\<exists>es1 operator n ttl token t es2. es = es1 @ GateApprove operator n ttl token t # es2 \<and> aid = Some token
        \<and> strip operator \<noteq> [] \<and> (n = None \<or> n = Some nonce) \<and> 1 \<le> ttl \<and> ttl \<le> 3600
        \<and> now < t + ttl * 1000000 \<and> (\<forall>e \<in> set es2. \<not> supersedes nonce e))"
proof -
  note i = router_submit_Inr [OF s]
  obtain a where a: "og_approval (foldl gate_step (order_gate_init nonce) es) = Some a"
    "mode = ''REAL_LIVE''" "aid = Some (oa_approval_id a)" "now < oa_expires_at a"
    using i g by (auto simp: router_authorize_eq_Inr order_gate_require_eq_Inr)
  obtain es1 e es2 where e: "es = es1 @ e # es2" "grants nonce e a" "\<forall>e' \<in> set es2. \<not> supersedes nonce e'"
    using gate_run_approval [OF a(1)] by (auto simp: order_gate_init_def)
  obtain operator n ttl token t where "e = GateApprove operator n ttl token t"
    using e(2) by (cases e) auto
  then show ?thesis using e a i by fastforce
qed

definition example_net :: toss_net where
  "example_net = \<lparr>tn_token = (\<lambda>_. Inr (PDict [(''access_token'', PStr ''t'')])),
     tn_api = (\<lambda>_ _ _ _ _. Inr (PDict [(''result'', PDict [(''orderId'', PStr ''42'')])]))\<rparr>"

definition example_order_gate :: order_gate where
  "example_order_gate = foldl gate_step (order_gate_init ''n'') [GateApprove ''kim'' (Some ''n'') 60 ''ok'' 0]"

definition example_router :: broker_router where
  "example_router = \<lparr>br_adapters = [(''toss'', TossAdapter (adapter_init
     (Some \<lparr>tc_client_id = ''i'', tc_client_secret = ''s'', tc_account_seq = ''1''\<rparr>)))],
     br_gate = Some example_order_gate\<rparr>"

definition example_broker_order :: broker_order where
  "example_broker_order = \<lparr>bo_symbol = ''005930'', bo_side = ''buy'', bo_quantity = 4, bo_order_type = ''market'',
     bo_price = None\<rparr>"

theorem live_order_needs_fresh_approval_witness:
  "is_ok (fst (router_submit example_net (\<lambda>_. ''4'') (Some ''true'') example_router ''REAL_LIVE'' ''toss''
      example_broker_order (Some ''ok'') 59999999))
   \<and> (\<exists>es1 operator n ttl token t es2. [GateApprove ''kim'' (Some ''n'') 60 ''ok'' 0]
        = es1 @ GateApprove operator n ttl token t # es2 \<and> Some ''ok'' = Some token
        \<and> strip operator \<noteq> [] \<and> (n = None \<or> n = Some ''n'') \<and> 1 \<le> ttl \<and> ttl \<le> 3600
        \<and> 59999999 < t + ttl * 1000000 \<and> (\<forall>e \<in> set es2. \<not> supersedes ''n'' e))"
proof
  show "is_ok (fst (router_submit example_net (\<lambda>_. ''4'') (Some ''true'') example_router ''REAL_LIVE'' ''toss''
      example_broker_order (Some ''ok'') 59999999))" by code_simp
next
  show "\<exists>es1 operator n ttl token t es2. [GateApprove ''kim'' (Some ''n'') 60 ''ok'' 0]
        = es1 @ GateApprove operator n ttl token t # es2 \<and> Some ''ok'' = Some token
        \<and> strip operator \<noteq> [] \<and> (n = None \<or> n = Some ''n'') \<and> 1 \<le> ttl \<and> ttl \<le> 3600
        \<and> 59999999 < t + ttl * 1000000 \<and> (\<forall>e \<in> set es2. \<not> supersedes ''n'' e)"
  proof (rule live_order_needs_fresh_approval [THEN conjunct2, THEN conjunct2, THEN conjunct2])
    show "br_gate example_router = Some (foldl gate_step (order_gate_init ''n'') [GateApprove ''kim'' (Some ''n'') 60 ''ok'' 0])"
      by (simp add: example_router_def example_order_gate_def)
    show "router_submit example_net (\<lambda>_. ''4'') (Some ''true'') example_router ''REAL_LIVE'' ''toss''
      example_broker_order (Some ''ok'') 59999999 = (Inr \<lparr>rt_broker = ''toss'', rt_order_id = ''42'', rt_accepted = True,
        rt_message = []\<rparr>, snd (router_submit example_net (\<lambda>_. ''4'') (Some ''true'') example_router ''REAL_LIVE'' ''toss''
      example_broker_order (Some ''ok'') 59999999))" by code_simp
  qed
qed

text \<open>
  (C17) A refused submission is silent: without a valid approval, outside \<open>REAL_LIVE\<close>, or with live
  execution disabled, submit raises the same error whatever the network would answer, so it has
  asked the network nothing, and it leaves every adapter as it was.
\<close>

theorem refused_submit_is_silent:
  assumes "\<not> is_ok (router_authorize r mode aid now) \<or> \<not> live_enabled env" and "dict_wf (br_adapters r)"
  shows "\<exists>e. \<forall>net. router_submit net show_dec env r mode broker req aid now = (Inl e, r)"
  by (rule router_submit_silent [OF assms])

theorem refused_submit_is_silent_witness:
  "\<exists>e. \<forall>net. router_submit net (\<lambda>_. ''4'') (Some ''1'') example_router ''REAL_LIVE'' ''toss''
      example_broker_order (Some ''ok'') 60000000 = (Inl e, example_router)"
  by (rule refused_submit_is_silent) code_simp+

text \<open>
  The two adapters accept the same orders with the same normalised side and type, although
  their checks are written in a different way.
\<close>

theorem validators_agree: "toss_validate req = Inr x \<longleftrightarrow> kb_validate req = Inr x"
  by (rule toss_validate_eq_kb)

text \<open>
  An order id is one segment of the cancel request's path: its quoting contains no slash and
  loses nothing, so a cancel addresses exactly the order named.
\<close>

theorem cancel_path_is_one_segment: "CHR ''/'' \<notin> set (url_quote s) \<and> url_unquote (url_quote s) = s"
  by (auto simp: url_unquote_quote) (auto simp: url_quote_def quote_char_no_slash)

text \<open>
  Colon-separated Toss credentials are read back: three non-empty parts without colons, joined
  by colons, parse to exactly these parts when the text has no surrounding white space and does
  not look like JSON.
\<close>

theorem toss_credentials_roundtrip:
  assumes "i \<noteq> []" "s \<noteq> []" "a \<noteq> []" and "CHR '':'' \<notin> set i" "CHR '':'' \<notin> set s" "CHR '':'' \<notin> set a"
    and "stripped (i @ '':'' @ s @ '':'' @ a)" and "hd i \<noteq> CHR ''{''"
  shows "parse_toss_credentials json_loads show_dec (i @ '':'' @ s @ '':'' @ a)
    = Inr \<lparr>tc_client_id = i, tc_client_secret = s, tc_account_seq = a\<rparr>"
  using assms
  by (cases i) (simp_all add: parse_toss_credentials_def strip_id starts_with_def split_on_append [of _ "_ # _", simplified]
      split_on_append split_on_absent)

theorem toss_credentials_roundtrip_witness:
  "parse_toss_credentials (\<lambda>_. None) (\<lambda>_. []) (''id'' @ '':'' @ ''key'' @ '':'' @ ''7'')
    = Inr \<lparr>tc_client_id = ''id'', tc_client_secret = ''key'', tc_account_seq = ''7''\<rparr>"
  by (rule toss_credentials_roundtrip; code_simp)

end
