(* ===== verification/Ledger.thy ===== *)
theory Ledger
  imports Execution
begin

text \<open>
  \<open>pnl.py\<close>: the portfolio ledger that turns fills into positions with an average price and a
  realised profit, and \<open>portfolio.py\<close>: account snapshots and the drawdown of an equity curve.
  \<open>pnl.Side\<close> has the same two members as \<open>OrderSide\<close> and is the same type here.
\<close>

section \<open>Positions and fills\<close>

record ledger_position =
  lp_symbol :: string
  lp_quantity :: decimal
  lp_average_price :: decimal
  lp_realized_pnl :: decimal

type_synonym ledger = "(string, ledger_position) dict"

definition empty_position :: "string \<Rightarrow> ledger_position" where
  "empty_position symb = \<lparr>lp_symbol = symb, lp_quantity = 0, lp_average_price = 0, lp_realized_pnl = 0\<rparr>"

text \<open>\<open>Side(value)\<close>.\<close>

definition side_of_value :: "string \<Rightarrow> order_side res" where
  "side_of_value s = (if s = ''BUY'' then Inr BUY else if s = ''SELL'' then Inr SELL
     else Inl (ValueError (s @ '' is not a valid Side'')))"

definition ledger_position_of :: "ledger \<Rightarrow> string \<Rightarrow> ledger_position" where
  "ledger_position_of l symb = dict_get_or l symb (empty_position symb)"

definition position_buy :: "ledger_position \<Rightarrow> string \<Rightarrow> decimal \<Rightarrow> decimal \<Rightarrow> ledger_position res" where
  "position_buy current symb quantity price =
     (let total_cost = dadd (dmul (lp_average_price current) (lp_quantity current)) (dmul price quantity);
          new_qty = dadd (lp_quantity current) quantity
      in res_bind (ddiv total_cost new_qty) (\<lambda>avg.
         Inr \<lparr>lp_symbol = symb, lp_quantity = new_qty, lp_average_price = avg,
              lp_realized_pnl = lp_realized_pnl current\<rparr>))"

definition position_sell :: "ledger_position \<Rightarrow> string \<Rightarrow> decimal \<Rightarrow> decimal \<Rightarrow> ledger_position res" where
  "position_sell current symb quantity price =
     (if lp_quantity current < quantity then Inl (ValueError ''sell quantity exceeds position'')
      else let realized = dadd (lp_realized_pnl current) (dmul (dsub price (lp_average_price current)) quantity);
               new_qty = dsub (lp_quantity current) quantity
           in Inr \<lparr>lp_symbol = symb, lp_quantity = new_qty,
                  lp_average_price = (if new_qty = 0 then 0 else lp_average_price current),
                  lp_realized_pnl = realized\<rparr>)"

definition apply_fill ::
  "ledger \<Rightarrow> string \<Rightarrow> order_side \<Rightarrow> decimal \<Rightarrow> decimal \<Rightarrow> (ledger_position \<times> ledger) res" where
  "apply_fill l symb side quantity price =
     (if quantity \<le> 0 \<or> price \<le> 0 then Inl (ValueError ''quantity and price must be positive'')
      else let current = dict_get_or l symb (empty_position symb) in
      res_bind (if side = BUY then position_buy current symb quantity price
                else position_sell current symb quantity price) (\<lambda>updated.
      Inr (updated, dict_set symb updated l)))"

definition unrealized_pnl :: "ledger \<Rightarrow> string \<Rightarrow> decimal \<Rightarrow> decimal res" where
  "unrealized_pnl l symb mark =
     (let p = ledger_position_of l symb in
      if mark \<le> 0 then Inl (ValueError ''mark_price must be positive'')
      else Inr (dmul (dsub mark (lp_average_price p)) (lp_quantity p)))"

definition total_pnl :: "ledger \<Rightarrow> string \<Rightarrow> decimal \<Rightarrow> decimal res" where
  "total_pnl l symb mark =
     (let p = ledger_position_of l symb in
      res_bind (unrealized_pnl l symb mark) (\<lambda>u. Inr (dadd (lp_realized_pnl p) u)))"

section \<open>Account snapshots (portfolio.py)\<close>

record portfolio_snapshot =
  ps_cash :: decimal
  ps_market_value :: decimal
  ps_equity :: decimal

definition account_snapshot :: "paper_account \<Rightarrow> (string, decimal) dict \<Rightarrow> portfolio_snapshot" where
  "account_snapshot acct prices =
     (let mv = dsum (map (\<lambda>(symb, qty). dmul qty (dict_get_or prices symb 0)) (pa_positions acct))
      in \<lparr>ps_cash = pa_cash acct, ps_market_value = mv, ps_equity = dadd (pa_cash acct) mv\<rparr>)"

text \<open>The loop of \<open>max_drawdown\<close> with its locals \<open>peak\<close> and \<open>worst\<close>; the division is guarded.\<close>

fun drawdown_loop :: "decimal \<Rightarrow> decimal \<Rightarrow> decimal list \<Rightarrow> decimal" where
  "drawdown_loop peak worst [] = worst"
| "drawdown_loop peak worst (equity # es) =
     (let peak' = max peak equity in
      drawdown_loop peak'
        (if 0 < peak' then max worst (fix28 (dsub peak' equity / peak')) else worst) es)"

definition max_drawdown :: "decimal list \<Rightarrow> decimal" where
  "max_drawdown equities = drawdown_loop 0 0 equities"

section \<open>The ledger invariant\<close>

definition position_ok :: "ledger_position \<Rightarrow> bool" where
  "position_ok p = (0 \<le> lp_quantity p \<and> 0 \<le> lp_average_price p
     \<and> (lp_quantity p = 0 \<longrightarrow> lp_average_price p = 0))"

definition ledger_ok :: "ledger \<Rightarrow> bool" where
  "ledger_ok l = (dict_wf l \<and> (\<forall>(symb, p) \<in> set l. position_ok p \<and> lp_symbol p = symb))"

lemma empty_position_simps [simp]:
  "lp_symbol (empty_position s) = s" "lp_quantity (empty_position s) = 0"
  "lp_average_price (empty_position s) = 0" "lp_realized_pnl (empty_position s) = 0"
  by (simp_all add: empty_position_def)

lemma ledger_okD: "ledger_ok l \<Longrightarrow> position_ok (dict_get_or l s (empty_position s))"
  by (auto simp: ledger_ok_def dict_get_or_def position_ok_def split: option.splits dest: dict_get_mem)

lemma ledger_ok_set: "ledger_ok l \<Longrightarrow> position_ok p \<Longrightarrow> lp_symbol p = s \<Longrightarrow> ledger_ok (dict_set s p l)"
  using set_dict_set_subset [of s p l] by (auto simp: ledger_ok_def)

lemma position_buy_eq_Inr [res_simps]:
  "position_buy c s q p = Inr u \<longleftrightarrow> dadd (lp_quantity c) q \<noteq> 0 \<and>
     u = \<lparr>lp_symbol = s, lp_quantity = dadd (lp_quantity c) q,
       lp_average_price = fix28 (dadd (dmul (lp_average_price c) (lp_quantity c)) (dmul p q) / dadd (lp_quantity c) q),
       lp_realized_pnl = lp_realized_pnl c\<rparr>"
  by (auto simp: position_buy_def Let_def res_bind_eq_Inr ddiv_eq_Inr)

lemma position_sell_eq_Inr [res_simps]:
  "position_sell c s q p = Inr u \<longleftrightarrow> q \<le> lp_quantity c \<and>
     u = \<lparr>lp_symbol = s, lp_quantity = dsub (lp_quantity c) q,
       lp_average_price = (if dsub (lp_quantity c) q = 0 then 0 else lp_average_price c),
       lp_realized_pnl = dadd (lp_realized_pnl c) (dmul (dsub p (lp_average_price c)) q)\<rparr>"
  by (auto simp: position_sell_def Let_def)

lemma apply_fill_eq_Inr [res_simps]:
  "apply_fill l s side q p = Inr (u, l') \<longleftrightarrow> 0 < q \<and> 0 < p
     \<and> (if side = BUY then position_buy (ledger_position_of l s) s q p
        else position_sell (ledger_position_of l s) s q p) = Inr u
     \<and> l' = dict_set s u l"
  by (auto simp: apply_fill_def Let_def res_bind_eq_Inr ledger_position_of_def not_le)

lemma position_buy_ok:
  assumes "position_ok c" "0 < q" "0 < p" "position_buy c s q p = Inr u"
  shows "position_ok u"
proof -
  have q': "0 < dadd (lp_quantity c) q" using assms(1,2) by (auto simp: dadd_def position_ok_def intro: ctx.rnd_add_pos)
  have "0 \<le> dadd (dmul (lp_average_price c) (lp_quantity c)) (dmul p q)"
    using assms(1-3) by (auto simp: dadd_def dmul_def dec_sign_simps position_ok_def intro!: add_nonneg_nonneg)
  then show ?thesis using assms(4) q' by (auto simp: position_buy_eq_Inr position_ok_def dec_sign_simps)
qed

lemma position_sell_ok: "position_ok c \<Longrightarrow> position_sell c s q p = Inr u \<Longrightarrow> position_ok u"
  by (auto simp: position_sell_eq_Inr position_ok_def dsub_def dec_sign_simps)

lemma apply_fill_ok:
  assumes "ledger_ok l" and "apply_fill l s side q p = Inr (u, l')"
  shows "ledger_ok l'"
proof -
  have c: "position_ok (ledger_position_of l s)" unfolding ledger_position_of_def by (rule ledger_okD [OF assms(1)])
  have u: "position_ok u \<and> lp_symbol u = s"
  proof (cases "side = BUY")
    case True
    then have b: "position_buy (ledger_position_of l s) s q p = Inr u" "0 < q" "0 < p"
      using assms(2) by (simp_all add: apply_fill_eq_Inr)
    then show ?thesis using position_buy_ok [OF c b(2,3,1)] by (auto simp: position_buy_eq_Inr)
  next
    case False
    then have b: "position_sell (ledger_position_of l s) s q p = Inr u"
      using assms(2) by (simp add: apply_fill_eq_Inr)
    then show ?thesis using position_sell_ok [OF c b] by (auto simp: position_sell_eq_Inr)
  qed
  then show ?thesis using assms by (auto simp: apply_fill_eq_Inr intro: ledger_ok_set)
qed

record ledger_fill =
  lf_symbol :: string
  lf_side :: order_side
  lf_quantity :: decimal
  lf_price :: decimal

definition ledger_step :: "ledger \<Rightarrow> ledger_fill \<Rightarrow> ledger" where
  "ledger_step l f = (case apply_fill l (lf_symbol f) (lf_side f) (lf_quantity f) (lf_price f) of
     Inl _ \<Rightarrow> l | Inr (_, l') \<Rightarrow> l')"

interpretation positions: step_invariant ledger_step ledger_ok
proof
  fix l f
  assume "ledger_ok l"
  then show "ledger_ok (ledger_step l f)"
    by (auto simp: ledger_step_def dest: apply_fill_ok split: sum.splits)
qed

section \<open>Profit and cash flow\<close>

text \<open>What the fills of a symbol paid in and out.\<close>

definition fill_flow :: "string \<Rightarrow> ledger_fill \<Rightarrow> rat" where
  "fill_flow s f = (if lf_symbol f \<noteq> s then 0
     else if lf_side f = BUY then - (lf_price f * lf_quantity f) else lf_price f * lf_quantity f)"

definition cash_flow :: "string \<Rightarrow> ledger_fill list \<Rightarrow> rat" where
  "cash_flow s fs = sum_list (map (fill_flow s) fs)"

text \<open>The realised profit less the cost of what is still held.\<close>

definition book_value :: "ledger_position \<Rightarrow> rat" where
  "book_value p = lp_realized_pnl p - lp_average_price p * lp_quantity p"

text \<open>A run in which every fill is accepted, quantities are exact and amounts are at most \<open>m\<close>.\<close>

definition fill_bounded :: "rat \<Rightarrow> ledger_position \<Rightarrow> ledger_fill \<Rightarrow> bool" where
  "fill_bounded m p f = (lp_average_price p * lp_quantity p \<le> m \<and> \<bar>lp_realized_pnl p\<bar> \<le> m
     \<and> lf_price f * lf_quantity f \<le> m
     \<and> fix28 (lp_quantity p + lf_quantity f) = lp_quantity p + lf_quantity f
     \<and> fix28 (lp_quantity p - lf_quantity f) = lp_quantity p - lf_quantity f)"

fun run_bounded :: "rat \<Rightarrow> string \<Rightarrow> ledger \<Rightarrow> ledger_fill list \<Rightarrow> bool" where
  "run_bounded m s l [] = True"
| "run_bounded m s l (f # fs) =
     ((lf_symbol f = s \<longrightarrow> fill_bounded m (ledger_position_of l s) f)
      \<and> is_ok (apply_fill l (lf_symbol f) (lf_side f) (lf_quantity f) (lf_price f))
      \<and> run_bounded m s (ledger_step l f) fs)"

lemma fix28_near: "\<bar>x\<bar> \<le> b \<Longrightarrow> \<bar>fix28 x - x\<bar> \<le> b / (2 * 10 ^ 27) \<and> \<bar>fix28 x\<bar> \<le> b * (1001/1000)"
proof -
  assume b: "\<bar>x\<bar> \<le> b"
  have "\<bar>fix28 x - x\<bar> \<le> \<bar>x\<bar> / (2 * 10 ^ 27)" by (rule fix28_error)
  also have "\<dots> \<le> b / (2 * 10 ^ 27)" using b by (intro divide_right_mono) auto
  finally have e: "\<bar>fix28 x - x\<bar> \<le> b / (2 * 10 ^ 27)" .
  moreover have "b / (2 * 10 ^ 27) \<le> b / 1000" using b by (intro divide_left_mono) auto
  ultimately show ?thesis using b by linarith
qed

lemma abs_diff_mult: "0 \<le> (c :: rat) \<Longrightarrow> \<bar>a - b\<bar> * c = \<bar>a * c - b * c\<bar>"
  by (simp add: abs_mult flip: left_diff_distrib)

lemma abs_div_mult: "0 < (w :: rat) \<Longrightarrow> \<bar>t / w\<bar> / c * w = \<bar>t\<bar> / c"
  by (simp add: abs_divide)

lemma buy_drift:
  assumes c: "position_ok c" and q: "0 < q" "0 < p" and u: "position_buy c s q p = Inr u"
    and b: "lp_average_price c * lp_quantity c \<le> m" "p * q \<le> m"
    and ex: "fix28 (lp_quantity c + q) = lp_quantity c + q"
  shows "\<bar>book_value u - (book_value c - p * q)\<bar> \<le> m / 10 ^ 26"
proof -
  let ?a = "lp_average_price c" and ?Q = "lp_quantity c"
  define x where "x = dmul ?a ?Q"
  define y where "y = dmul p q"
  define t where "t = dadd x y"
  have nn: "0 \<le> ?a * ?Q" "0 \<le> p * q" using c q by (auto simp: position_ok_def)
  have m0: "0 \<le> m" using nn b by linarith
  have x: "\<bar>x - ?a * ?Q\<bar> \<le> m / (2 * 10 ^ 27)" "\<bar>x\<bar> \<le> m * (1001/1000)"
    using fix28_near [of "?a * ?Q" m] nn b by (auto simp: x_def dmul_def)
  have y: "\<bar>y - p * q\<bar> \<le> m / (2 * 10 ^ 27)" "\<bar>y\<bar> \<le> m * (1001/1000)"
    using fix28_near [of "p * q" m] nn b by (auto simp: y_def dmul_def)
  have "\<bar>x + y\<bar> \<le> m * 3" using x(2) y(2) m0 by linarith
  from fix28_near [OF this] have t: "\<bar>t - (x + y)\<bar> \<le> m * 3 / (2 * 10 ^ 27)" "\<bar>t\<bar> \<le> m * 4"
    using m0 by (auto simp: t_def dadd_def)
  have Q: "0 < ?Q + q" using c q by (auto simp: position_ok_def)
  have "\<bar>fix28 (t / (?Q + q)) - t / (?Q + q)\<bar> \<le> \<bar>t / (?Q + q)\<bar> / (2 * 10 ^ 27)" by (rule fix28_error)
  then have "\<bar>fix28 (t / (?Q + q)) - t / (?Q + q)\<bar> * (?Q + q) \<le> \<bar>t / (?Q + q)\<bar> / (2 * 10 ^ 27) * (?Q + q)"
    using Q by (intro mult_right_mono) auto
  moreover have "\<bar>fix28 (t / (?Q + q)) - t / (?Q + q)\<bar> * (?Q + q) = \<bar>fix28 (t / (?Q + q)) * (?Q + q) - t\<bar>"
    using Q by (simp add: abs_diff_mult)
  moreover have "\<bar>t / (?Q + q)\<bar> / (2 * 10 ^ 27) * (?Q + q) = \<bar>t\<bar> / (2 * 10 ^ 27)"
    using Q by (rule abs_div_mult)
  ultimately have v: "\<bar>fix28 (t / (?Q + q)) * (?Q + q) - t\<bar> \<le> m * 4 / (2 * 10 ^ 27)"
    using t(2) by (simp add: pos_le_divide_eq)
  have eu: "u = \<lparr>lp_symbol = s, lp_quantity = ?Q + q, lp_average_price = fix28 (t / (?Q + q)),
      lp_realized_pnl = lp_realized_pnl c\<rparr>"
    using u by (simp add: position_buy_eq_Inr t_def x_def y_def dadd_def [of ?Q] ex)
  have "book_value u - (book_value c - p * q) = ?a * ?Q + p * q - fix28 (t / (?Q + q)) * (?Q + q)"
    by (simp add: eu book_value_def)
  then show ?thesis using x(1) y(1) t(1) v m0 unfolding abs_le_iff by simp
qed

lemma sell_drift:
  assumes c: "position_ok c" and q: "0 < q" "0 < p" and u: "position_sell c s q p = Inr u"
    and b: "lp_average_price c * lp_quantity c \<le> m" "p * q \<le> m" "\<bar>lp_realized_pnl c\<bar> \<le> m"
    and ex: "fix28 (lp_quantity c - q) = lp_quantity c - q"
  shows "\<bar>book_value u - (book_value c + p * q)\<bar> \<le> m / 10 ^ 26"
proof -
  let ?a = "lp_average_price c" and ?Q = "lp_quantity c" and ?r = "lp_realized_pnl c"
  define d where "d = dsub p ?a"
  define g where "g = dmul d q"
  define r' where "r' = dadd ?r g"
  have a: "0 \<le> ?a" "0 \<le> ?Q" "q \<le> ?Q" using c u by (auto simp: position_ok_def position_sell_eq_Inr)
  have m0: "0 \<le> m" using b(3) by linarith
  have aq: "?a * q \<le> m" using mult_left_mono [OF a(3,1)] b(1) by linarith
  have "0 \<le> ?a * q" "0 \<le> p * q" using a q by simp_all
  then have pa: "\<bar>(p - ?a) * q\<bar> \<le> m" using aq b(2) by (simp add: left_diff_distrib abs_le_iff)
  have "\<bar>d - (p - ?a)\<bar> * q \<le> \<bar>p - ?a\<bar> / (2 * 10 ^ 27) * q"
    unfolding d_def dsub_def using q by (intro mult_right_mono fix28_error) auto
  also have "\<bar>p - ?a\<bar> / (2 * 10 ^ 27) * q = \<bar>(p - ?a) * q\<bar> / (2 * 10 ^ 27)" using q by (simp add: abs_mult)
  also have "\<dots> \<le> m / (2 * 10 ^ 27)" using pa by (intro divide_right_mono) auto
  finally have d: "\<bar>d * q - (p - ?a) * q\<bar> \<le> m / (2 * 10 ^ 27)"
    using q by (simp add: abs_diff_mult)
  moreover have "m / (2 * 10 ^ 27) \<le> m" using m0 by simp
  ultimately have "\<bar>d * q\<bar> \<le> m * 2" using pa m0 by linarith
  from fix28_near [OF this] have g: "\<bar>g - d * q\<bar> \<le> m * 2 / (2 * 10 ^ 27)" "\<bar>g\<bar> \<le> m * 3"
    using m0 by (auto simp: g_def dmul_def)
  have "\<bar>?r + g\<bar> \<le> m * 4" using b(3) g(2) by linarith
  from fix28_near [OF this] have r: "\<bar>r' - (?r + g)\<bar> \<le> m * 4 / (2 * 10 ^ 27)" by (auto simp: r'_def dadd_def)
  have eu: "lp_quantity u = ?Q - q" "lp_average_price u * (?Q - q) = ?a * (?Q - q)" "lp_realized_pnl u = r'"
    using u by (auto simp: position_sell_eq_Inr r'_def g_def d_def dsub_def [of ?Q] ex)
  have "book_value u - (book_value c + p * q) = (r' - (?r + g)) + (g - d * q) + (d * q - (p - ?a) * q)"
    unfolding book_value_def eu(1,3) eu(2) by (simp add: algebra_simps)
  then show ?thesis using d g(1) r m0 unfolding abs_le_iff by simp
qed

lemma ledger_step_drift:
  assumes ok: "ledger_ok l" and r: "is_ok (apply_fill l (lf_symbol f) (lf_side f) (lf_quantity f) (lf_price f))"
    and b: "lf_symbol f = s \<longrightarrow> fill_bounded m (ledger_position_of l s) f" and m: "0 \<le> m"
  shows "\<bar>book_value (ledger_position_of (ledger_step l f) s)
    - (book_value (ledger_position_of l s) + fill_flow s f)\<bar> \<le> m / 10 ^ 26"
proof -
  obtain u l' where u: "apply_fill l (lf_symbol f) (lf_side f) (lf_quantity f) (lf_price f) = Inr (u, l')"
    using r by (auto simp: is_ok_iff)
  have step: "ledger_step l f = dict_set (lf_symbol f) u l"
    using u apply_fill_eq_Inr [THEN iffD1, OF u] by (simp add: ledger_step_def)
  show ?thesis
  proof (cases "lf_symbol f = s")
    case False
    then show ?thesis using m by (simp add: step fill_flow_def ledger_position_of_def dict_get_or_set)
  next
    case True
    have pos: "ledger_position_of (ledger_step l f) s = u"
      using True by (simp add: step ledger_position_of_def dict_get_or_set)
    have c: "position_ok (ledger_position_of l s)" unfolding ledger_position_of_def by (rule ledger_okD [OF ok])
    show ?thesis
      using u b True buy_drift [OF c, of "lf_quantity f" "lf_price f" s u m]
        sell_drift [OF c, of "lf_quantity f" "lf_price f" s u m]
      by (cases "lf_side f") (auto simp: pos apply_fill_eq_Inr fill_flow_def fill_bounded_def)
  qed
qed

lemma ledger_run_drift:
  assumes "ledger_ok l" and "run_bounded m s l fs" and "0 \<le> m"
  shows "\<bar>book_value (ledger_position_of (foldl ledger_step l fs) s)
    - (book_value (ledger_position_of l s) + cash_flow s fs)\<bar> \<le> of_nat (length fs) * (m / 10 ^ 26)"
  using assms
proof (induction fs arbitrary: l)
  case (Cons f fs)
  have st: "\<bar>book_value (ledger_position_of (ledger_step l f) s)
      - (book_value (ledger_position_of l s) + fill_flow s f)\<bar> \<le> m / 10 ^ 26"
    using Cons.prems by (intro ledger_step_drift) auto
  have ok: "ledger_ok (ledger_step l f)" by (rule positions.step_inv [OF Cons.prems(1)])
  have "\<bar>book_value (ledger_position_of (foldl ledger_step (ledger_step l f) fs) s)
    - (book_value (ledger_position_of (ledger_step l f) s) + cash_flow s fs)\<bar> \<le> of_nat (length fs) * (m / 10 ^ 26)"
    using Cons.prems by (intro Cons.IH [OF ok]) auto
  then show ?case using st unfolding abs_le_iff
    by (simp add: cash_flow_def distrib_right)
qed (simp add: cash_flow_def)

section \<open>Drawdown\<close>

text \<open>The loss at \<open>j\<close> relative to an earlier (or the same) high at \<open>i\<close>.\<close>

definition drawdown_at :: "decimal list \<Rightarrow> nat \<Rightarrow> nat \<Rightarrow> decimal" where
  "drawdown_at es i j = fix28 ((es ! i - es ! j) / es ! i)"

definition drawdown_pair :: "decimal list \<Rightarrow> nat \<Rightarrow> nat \<Rightarrow> bool" where
  "drawdown_pair es i j = (i \<le> j \<and> j < length es \<and> 0 < es ! i)"

definition drawdown_inv :: "decimal list \<Rightarrow> decimal \<Rightarrow> decimal \<Rightarrow> bool" where
  "drawdown_inv xs peak worst = (peak \<in> insert 0 (set xs) \<and> (\<forall>x \<in> set xs. x \<le> peak) \<and> 0 \<le> peak \<and> 0 \<le> worst
     \<and> (\<forall>i j. drawdown_pair xs i j \<longrightarrow> drawdown_at xs i j \<le> worst)
     \<and> (worst = 0 \<or> (\<exists>i j. drawdown_pair xs i j \<and> worst = drawdown_at xs i j)))"

lemma drawdown_snoc:
  "j < length xs \<Longrightarrow> i \<le> j \<Longrightarrow> drawdown_pair (xs @ [e]) i j = drawdown_pair xs i j \<and> drawdown_at (xs @ [e]) i j = drawdown_at xs i j"
  by (simp add: drawdown_pair_def drawdown_at_def nth_append)

lemma loss_mono: "0 < x \<Longrightarrow> x \<le> y \<Longrightarrow> 0 \<le> e \<Longrightarrow> (x - e) / x \<le> (y - e) / (y :: rat)"
  by (simp add: diff_divide_distrib frac_le)

lemma drawdown_inv_step:
  assumes inv: "drawdown_inv xs peak worst" and e: "0 \<le> e" and ex: "\<And>x. x \<in> insert e (set xs) \<Longrightarrow> dsub x e = x - e"
  shows "drawdown_inv (xs @ [e]) (max peak e)
    (if 0 < max peak e then max worst (fix28 (dsub (max peak e) e / max peak e)) else worst)"
proof -
  let ?p = "max peak e" and ?n = "length xs" and ?ys = "xs @ [e]"
  let ?l = "fix28 ((max peak e - e) / max peak e)"
  note i = inv [unfolded drawdown_inv_def]
  have pm: "?p \<in> insert 0 (set ?ys)" "\<forall>x \<in> set ?ys. x \<le> ?p" "0 \<le> ?p" using i e by (auto simp: max_def)
  have dp: "dsub ?p e = ?p - e" if "0 < ?p" using pm(1) that by (intro ex) auto
  have new: "drawdown_at ?ys k ?n \<le> ?l" if "drawdown_pair ?ys k ?n" for k
  proof -
    have k: "k \<le> ?n" "0 < ?ys ! k" using that by (auto simp: drawdown_pair_def)
    then have "?ys ! k \<le> ?p" using pm(2) nth_mem [of k ?ys] by auto
    from ctx.rnd_mono [OF loss_mono [OF k(2) this e]] show ?thesis by (simp add: drawdown_at_def)
  qed
  have split: "\<exists>k. drawdown_pair ?ys k ?n" if "drawdown_pair ?ys k j" "j = ?n" for k j using that by auto
  show ?thesis
  proof (cases "0 < ?p")
    case False
    have "\<not> drawdown_pair ?ys k ?n" for k
    proof
      assume k: "drawdown_pair ?ys k ?n"
      then have "?ys ! k \<in> set ?ys" by (intro nth_mem) (simp add: drawdown_pair_def)
      then have "?ys ! k \<le> ?p" using pm(2) by blast
      moreover have "0 < ?ys ! k" using k by (simp only: drawdown_pair_def)
      ultimately show False using False by linarith
    qed
    then have pe: "drawdown_pair ?ys k j \<longleftrightarrow> drawdown_pair xs k j" for k j
      using drawdown_snoc [of j xs k e] by (cases "j < ?n") (auto simp: drawdown_pair_def)
    have ae: "drawdown_pair xs k j \<Longrightarrow> drawdown_at ?ys k j = drawdown_at xs k j" for k j
      using drawdown_snoc [of j xs k e] by (auto simp: drawdown_pair_def)
    have "\<forall>k j. drawdown_pair ?ys k j \<longrightarrow> drawdown_at ?ys k j \<le> worst" using i pe ae by metis
    moreover have "worst = 0 \<or> (\<exists>k j. drawdown_pair ?ys k j \<and> worst = drawdown_at ?ys k j)" using i pe ae by metis
    ultimately show ?thesis using i pm False unfolding drawdown_inv_def by simp
  next
    case True
    have nn: "0 \<le> ?l" using pm(2) True by (auto simp: dec_sign_simps)
    have ub: "drawdown_at ?ys k j \<le> max worst ?l" if pr: "drawdown_pair ?ys k j" for k j
    proof (cases "j < ?n")
      case True
      then show ?thesis using i pr drawdown_snoc [of j xs k e] by (auto simp: drawdown_pair_def le_max_iff_disj)
    next
      case False
      then have "j = ?n" using pr by (auto simp: drawdown_pair_def)
      then show ?thesis using new pr by (auto simp: le_max_iff_disj)
    qed
    have at: "max worst ?l = 0 \<or> (\<exists>k j. drawdown_pair ?ys k j \<and> max worst ?l = drawdown_at ?ys k j)"
    proof (cases "worst < ?l")
      case True
      obtain k where k: "k < length ?ys" "?ys ! k = ?p" using pm(1) \<open>0 < ?p\<close> by (metis in_set_conv_nth insertE less_irrefl)
      then have "drawdown_pair ?ys k ?n" "drawdown_at ?ys k ?n = ?l"
        using \<open>0 < ?p\<close> by (auto simp: drawdown_pair_def drawdown_at_def)
      then show ?thesis using True by (metis max_absorb2 less_imp_le)
    next
      case False
      then have mx: "max worst ?l = worst" by simp
      show ?thesis
      proof (cases "worst = 0")
        case nz: False
        then obtain k j where kj: "drawdown_pair xs k j" "worst = drawdown_at xs k j" using i by blast
        then have "j < ?n" "k \<le> j" by (auto simp: drawdown_pair_def)
        from drawdown_snoc [OF this, of e] kj mx show ?thesis by metis
      next
        case True
        then show ?thesis using mx by metis
      qed
    qed
    show ?thesis using pm i nn ub at True dp unfolding drawdown_inv_def by (simp add: le_max_iff_disj)
  qed
qed

lemma drawdown_loop_inv:
  assumes "drawdown_inv xs peak worst" and "\<forall>e \<in> set es. 0 \<le> e"
    and "\<And>x y. x \<in> set (xs @ es) \<Longrightarrow> y \<in> set (xs @ es) \<Longrightarrow> dsub x y = x - y"
  shows "\<exists>p. drawdown_inv (xs @ es) p (drawdown_loop peak worst es)"
  using assms
proof (induction es arbitrary: xs peak worst)
  case (Cons e es)
  have st: "drawdown_inv (xs @ [e]) (max peak e)
      (if 0 < max peak e then max worst (fix28 (dsub (max peak e) e / max peak e)) else worst)"
    using Cons.prems by (intro drawdown_inv_step) auto
  have "\<exists>p. drawdown_inv ((xs @ [e]) @ es) p (drawdown_loop (max peak e)
      (if 0 < max peak e then max worst (fix28 (dsub (max peak e) e / max peak e)) else worst) es)"
    using Cons.prems by (intro Cons.IH [OF st]) auto
  then show ?case by (simp add: Let_def)
qed auto

section \<open>Properties\<close>

text \<open>
  (C10) Profit is accounted for: over any run of accepted fills from an empty ledger, the realised
  profit of a symbol minus the cost of the shares still held equals what its sales brought minus
  what its purchases paid, up to a rounding error of at most \<open>m / 10^26\<close> per fill when all
  amounts are at most \<open>m\<close>.
\<close>

theorem profit_tracks_cash_flow:
  assumes "run_bounded m s [] fs" and "0 \<le> m"
  shows "\<bar>lp_realized_pnl (ledger_position_of (foldl ledger_step [] fs) s)
      - lp_average_price (ledger_position_of (foldl ledger_step [] fs) s)
        * lp_quantity (ledger_position_of (foldl ledger_step [] fs) s) - cash_flow s fs\<bar>
    \<le> of_nat (length fs) * (m / 10 ^ 26)"
  using ledger_run_drift [of "[]" m s fs] assms
  by (simp add: ledger_ok_def book_value_def ledger_position_of_def dict_get_or_def)

definition example_fills :: "ledger_fill list" where
  "example_fills = [\<lparr>lf_symbol = ''A'', lf_side = BUY, lf_quantity = 3, lf_price = 10\<rparr>,
     \<lparr>lf_symbol = ''A'', lf_side = BUY, lf_quantity = 2, lf_price = 15\<rparr>,
     \<lparr>lf_symbol = ''A'', lf_side = SELL, lf_quantity = 4, lf_price = 13\<rparr>]"

theorem profit_tracks_cash_flow_witness:
  "\<bar>lp_realized_pnl (ledger_position_of (foldl ledger_step [] example_fills) ''A'')
      - lp_average_price (ledger_position_of (foldl ledger_step [] example_fills) ''A'')
        * lp_quantity (ledger_position_of (foldl ledger_step [] example_fills) ''A'') - cash_flow ''A'' example_fills\<bar>
    \<le> of_nat (length example_fills) * (100 / 10 ^ 26)
   \<and> cash_flow ''A'' example_fills = - 8"
proof
  show "\<bar>lp_realized_pnl (ledger_position_of (foldl ledger_step [] example_fills) ''A'')
      - lp_average_price (ledger_position_of (foldl ledger_step [] example_fills) ''A'')
        * lp_quantity (ledger_position_of (foldl ledger_step [] example_fills) ''A'') - cash_flow ''A'' example_fills\<bar>
    \<le> of_nat (length example_fills) * (100 / 10 ^ 26)"
  proof (rule profit_tracks_cash_flow)
    show "run_bounded 100 ''A'' [] example_fills" by code_simp
  qed simp
  show "cash_flow ''A'' example_fills = - 8" by code_simp
qed

text \<open>
  The drawdown of an equity curve is the worst relative loss from a positive value to a later
  one: no pair loses more, and the result is zero or the loss of some pair. The single pass with a
  running peak computes the maximum over all pairs.
\<close>

theorem max_drawdown_is_worst_loss:
  assumes "\<forall>e \<in> set es. 0 \<le> e" and "\<forall>x \<in> set es. \<forall>y \<in> set es. dsub x y = x - y"
  shows "(\<forall>i j. drawdown_pair es i j \<longrightarrow> drawdown_at es i j \<le> max_drawdown es)
    \<and> (max_drawdown es = 0 \<or> (\<exists>i j. drawdown_pair es i j \<and> max_drawdown es = drawdown_at es i j))"
proof -
  have "drawdown_inv [] 0 0" by (simp add: drawdown_inv_def drawdown_pair_def)
  then have "\<exists>p. drawdown_inv ([] @ es) p (drawdown_loop 0 0 es)"
    using assms by (intro drawdown_loop_inv) auto
  then show ?thesis unfolding max_drawdown_def drawdown_inv_def by auto
qed

theorem max_drawdown_is_worst_loss_witness:
  "drawdown_at [100, 120, 90, 110, 60] 1 4 \<le> max_drawdown [100, 120, 90, 110, 60]
    \<and> max_drawdown [100, 120, 90, 110, 60] = 1/2"
proof
  have "\<forall>i j. drawdown_pair [100, 120, 90, 110, 60] i j \<longrightarrow>
      drawdown_at [100, 120, 90, 110, 60] i j \<le> max_drawdown [100, 120, 90, 110, 60]"
    by (rule max_drawdown_is_worst_loss [THEN conjunct1]) code_simp+
  then show "drawdown_at [100, 120, 90, 110, 60] 1 4 \<le> max_drawdown [100, 120, 90, 110, 60]"
    by (simp add: drawdown_pair_def)
next
  show "max_drawdown [100, 120, 90, 110, 60] = 1/2" by code_simp
qed

end
