(* ===== verification/Run_Manifest.thy ===== *)
theory Run_Manifest
  imports Values
begin

text \<open>
  \<open>run_manifest.py\<close>: the manifest of a pipeline run with one artifact per stage, and the tracker
  that binds artifacts to stages while a run proceeds and writes every new version out.

  The checksum of a manifest (SHA-256 of its canonical JSON) and the writer are parameters. The
  writer may raise; a call that raises keeps what it changed before. The texts handed to the
  writer are recorded, in order, in the tracker.
\<close>

section \<open>Manifests\<close>

record run_artifact =
  ra_stage :: string
  ra_artifact_id :: "string option"
  ra_dataset :: "string option"
  ra_row_count :: "int option"
  ra_checksum_sha256 :: "string option"
  ra_status :: string
  ra_metadata :: row

text \<open>An artifact with the defaults of the class.\<close>

definition artifact :: "string \<Rightarrow> run_artifact" where
  "artifact stage = \<lparr>ra_stage = stage, ra_artifact_id = None, ra_dataset = None, ra_row_count = None,
     ra_checksum_sha256 = None, ra_status = ''not_run'', ra_metadata = []\<rparr>"

record run_manifest =
  rm_run_id :: string
  rm_status :: string
  rm_decision_time :: string
  rm_stages :: "run_artifact list"
  rm_schema_version :: string

definition manifest_init :: "run_manifest \<Rightarrow> run_manifest res" where
  "manifest_init m = (if length (remdups (map ra_stage (rm_stages m))) \<noteq> length (rm_stages m)
     then Inl (ValueError ''run manifest stages must be unique'') else Inr m)"

definition manifest_stage :: "run_manifest \<Rightarrow> string \<Rightarrow> run_artifact option" where
  "manifest_stage m name = find (\<lambda>a. ra_stage a = name) (rm_stages m)"

text \<open>\<open>replace\<close> runs the checks of the constructor again.\<close>

definition with_stage :: "run_manifest \<Rightarrow> run_artifact \<Rightarrow> run_manifest res" where
  "with_stage m a =
     (if manifest_stage m (ra_stage a) = None
      then Inl (KeyError (''unknown run manifest stage: '' @ ra_stage a))
      else manifest_init (m\<lparr>rm_stages := map (\<lambda>item. if ra_stage item = ra_stage a then a else item) (rm_stages m)\<rparr>))"

definition with_status :: "run_manifest \<Rightarrow> string \<Rightarrow> run_manifest res" where
  "with_status m status = manifest_init (m\<lparr>rm_status := status\<rparr>)"

definition build_run_manifest_v3 ::
  "string \<Rightarrow> string \<Rightarrow> string \<Rightarrow> run_artifact list \<Rightarrow> run_manifest res" where
  "build_run_manifest_v3 run_id status decision_time stages =
     (if length (remdups (map ra_stage stages)) \<noteq> length stages
      then Inl (ValueError ''run manifest stages must be unique'')
      else manifest_init \<lparr>rm_run_id = run_id, rm_status = status, rm_decision_time = decision_time,
             rm_stages = stages, rm_schema_version = ''paper-live-run-v3''\<rparr>)"

section \<open>The tracker\<close>

type_synonym manifest_writer = "string \<Rightarrow> run_manifest \<Rightarrow> string res"

record manifest_tracker =
  mt_writer :: "manifest_writer option"
  mt_manifests :: "(string, run_manifest) dict"
  mt_written :: "(string \<times> run_manifest) list"

record run_finalization =
  rf_run_id :: string
  rf_status :: string
  rf_manifest_checksum :: string
  rf_manifest_uri :: "string option"
  rf_audit_uri :: "string option"

definition tracker_init :: "manifest_writer option \<Rightarrow> manifest_tracker" where
  "tracker_init w = \<lparr>mt_writer = w, mt_manifests = [], mt_written = []\<rparr>"

definition tracker_persist :: "manifest_tracker \<Rightarrow> run_manifest \<Rightarrow> string option res \<times> manifest_tracker" where
  "tracker_persist t m =
     (case mt_writer t of
        None \<Rightarrow> (Inr None, t)
      | Some w \<Rightarrow> (map_sum id Some (w (rm_run_id m) m), t\<lparr>mt_written := mt_written t @ [(rm_run_id m, m)]\<rparr>))"

definition tracker_register :: "manifest_tracker \<Rightarrow> run_manifest \<Rightarrow> bool \<Rightarrow> run_manifest res \<times> manifest_tracker" where
  "tracker_register t m persist =
     (let t' = t\<lparr>mt_manifests := dict_set (rm_run_id m) m (mt_manifests t)\<rparr> in
      if persist then (case tracker_persist t' m of (r, t'') \<Rightarrow> (res_bind r (\<lambda>_. Inr m), t''))
      else (Inr m, t'))"

definition tracker_get :: "manifest_tracker \<Rightarrow> string \<Rightarrow> run_manifest option" where
  "tracker_get t run_id = dict_get (mt_manifests t) run_id"

definition tracker_bind_stage ::
  "manifest_tracker \<Rightarrow> string \<Rightarrow> run_artifact \<Rightarrow> bool \<Rightarrow> run_manifest res \<times> manifest_tracker" where
  "tracker_bind_stage t run_id a persist =
     (case dict_get (mt_manifests t) run_id of
        None \<Rightarrow> (Inl (KeyError run_id), t)
      | Some m \<Rightarrow>
          (case with_stage m a of
             Inl e \<Rightarrow> (Inl e, t)
           | Inr updated \<Rightarrow>
               (let t' = t\<lparr>mt_manifests := dict_set run_id updated (mt_manifests t)\<rparr> in
                if persist then (case tracker_persist t' updated of (r, t'') \<Rightarrow> (res_bind r (\<lambda>_. Inr updated), t''))
                else (Inr updated, t'))))"

definition tracker_transition ::
  "manifest_tracker \<Rightarrow> string \<Rightarrow> string \<Rightarrow> bool \<Rightarrow> run_manifest res \<times> manifest_tracker" where
  "tracker_transition t run_id status persist =
     (case dict_get (mt_manifests t) run_id of
        None \<Rightarrow> (Inl (KeyError run_id), t)
      | Some m \<Rightarrow>
          (case with_status m status of
             Inl e \<Rightarrow> (Inl e, t)
           | Inr updated \<Rightarrow>
               (let t' = t\<lparr>mt_manifests := dict_set run_id updated (mt_manifests t)\<rparr> in
                if persist then (case tracker_persist t' updated of (r, t'') \<Rightarrow> (res_bind r (\<lambda>_. Inr updated), t''))
                else (Inr updated, t'))))"

definition tracker_finalize ::
  "(run_manifest \<Rightarrow> string) \<Rightarrow> manifest_tracker \<Rightarrow> string \<Rightarrow> string \<Rightarrow> string option \<Rightarrow> bool \<Rightarrow>
     run_finalization res \<times> manifest_tracker" where
  "tracker_finalize checksum t run_id status audit_uri persist =
     (case dict_get (mt_manifests t) run_id of
        None \<Rightarrow> (Inl (KeyError run_id), t)
      | Some m \<Rightarrow>
          (case with_status m status of
             Inl e \<Rightarrow> (Inl e, t)
           | Inr updated \<Rightarrow>
               (let t' = t\<lparr>mt_manifests := dict_set run_id updated (mt_manifests t)\<rparr>;
                    (uri, t'') = (if persist then tracker_persist t' updated else (Inr None, t'))
                in (res_bind uri (\<lambda>u. Inr \<lparr>rf_run_id = run_id, rf_status = status,
                      rf_manifest_checksum = checksum updated, rf_manifest_uri = u, rf_audit_uri = audit_uri\<rparr>), t''))))"

section \<open>Runs\<close>

text \<open>A registered manifest has passed the checks of its constructor.\<close>

datatype tracker_event =
    Register run_manifest bool
  | BindStage string run_artifact bool
  | Transition string string bool
  | Finalize "run_manifest \<Rightarrow> string" string string "string option" bool

fun tracker_step :: "manifest_tracker \<Rightarrow> tracker_event \<Rightarrow> manifest_tracker" where
  "tracker_step t (Register m p) = (case manifest_init m of Inl _ \<Rightarrow> t | Inr m' \<Rightarrow> snd (tracker_register t m' p))"
| "tracker_step t (BindStage r a p) = snd (tracker_bind_stage t r a p)"
| "tracker_step t (Transition r s p) = snd (tracker_transition t r s p)"
| "tracker_step t (Finalize c r s u p) = snd (tracker_finalize c t r s u p)"

text \<open>The call writes what it changes.\<close>

fun persisting :: "tracker_event \<Rightarrow> bool" where
  "persisting (Register m p) = p"
| "persisting (BindStage r a p) = p"
| "persisting (Transition r s p) = p"
| "persisting (Finalize c r s u p) = p"

fun registers :: "tracker_event \<Rightarrow> bool" where
  "registers (Register m p) = True"
| "registers _ = False"

section \<open>What the operations keep\<close>

definition stage_names :: "run_manifest \<Rightarrow> string list" where
  "stage_names m = map ra_stage (rm_stages m)"

definition manifest_ok :: "run_manifest \<Rightarrow> bool" where
  "manifest_ok m = distinct (stage_names m)"

lemma manifest_init_eq_Inr [res_simps]: "manifest_init m = Inr m' \<longleftrightarrow> m' = m \<and> manifest_ok m"
  by (auto simp: manifest_init_def manifest_ok_def stage_names_def)
    (metis length_map length_remdups_eq remdups_id_iff_distinct)+

lemma with_status_eq_Inr [res_simps]: "with_status m s = Inr m' \<longleftrightarrow> m' = m\<lparr>rm_status := s\<rparr> \<and> manifest_ok m'"
  by (auto simp: with_status_def manifest_init_eq_Inr)

lemma replaced_stage_names:
  "map ra_stage (map (\<lambda>item. if ra_stage item = ra_stage a then a else item) xs) = map ra_stage xs"
  by (induction xs) auto

lemma with_stage_eq_Inr [res_simps]:
  "with_stage m a = Inr m' \<longleftrightarrow> ra_stage a \<in> set (stage_names m) \<and> manifest_ok m
     \<and> m' = m\<lparr>rm_stages := map (\<lambda>item. if ra_stage item = ra_stage a then a else item) (rm_stages m)\<rparr>"
  by (auto simp: with_stage_def manifest_init_eq_Inr manifest_stage_def find_None_iff manifest_ok_def stage_names_def
      replaced_stage_names simp del: map_map intro: rev_image_eqI)

definition same_lineage :: "run_manifest \<Rightarrow> run_manifest \<Rightarrow> bool" where
  "same_lineage m m' = (rm_run_id m' = rm_run_id m \<and> stage_names m' = stage_names m
     \<and> rm_decision_time m' = rm_decision_time m \<and> rm_schema_version m' = rm_schema_version m)"

lemma same_lineage_refl [simp]: "same_lineage m m"
  by (simp add: same_lineage_def)

lemma same_lineage_trans: "same_lineage a b \<Longrightarrow> same_lineage b c \<Longrightarrow> same_lineage a c"
  by (simp add: same_lineage_def)

lemma same_lineage_id: "same_lineage m m' \<Longrightarrow> rm_run_id m' = rm_run_id m"
  by (simp add: same_lineage_def)

lemma with_stage_kept: "with_stage m a = Inr m' \<Longrightarrow> same_lineage m m' \<and> manifest_ok m'"
  by (auto simp: with_stage_eq_Inr same_lineage_def manifest_ok_def stage_names_def replaced_stage_names simp del: map_map)

lemma with_status_kept: "with_status m s = Inr m' \<Longrightarrow> same_lineage m m' \<and> manifest_ok m'"
  by (auto simp: with_status_eq_Inr same_lineage_def stage_names_def)

lemma tracker_persist_state:
  "snd (tracker_persist t m) = (case mt_writer t of None \<Rightarrow> t
     | Some w \<Rightarrow> t\<lparr>mt_written := mt_written t @ [(rm_run_id m, m)]\<rparr>)"
  by (simp add: tracker_persist_def split: option.splits)

text \<open>The effect of a call: nothing, or one manifest stored, and written when asked to.\<close>

definition stored :: "manifest_tracker \<Rightarrow> string \<Rightarrow> run_manifest \<Rightarrow> bool \<Rightarrow> manifest_tracker" where
  "stored t rid m p = (let t' = t\<lparr>mt_manifests := dict_set rid m (mt_manifests t)\<rparr>
     in if p then snd (tracker_persist t' m) else t')"

lemma tracker_step_cases:
  obtains (same) "tracker_step t e = t"
  | (new) m where "tracker_step t e = stored t (rm_run_id m) m (persisting e)" "e = Register m (persisting e)" "manifest_ok m"
  | (update) rid m m' where "tracker_step t e = stored t rid m' (persisting e)" "dict_get (mt_manifests t) rid = Some m"
      "\<not> registers e" "same_lineage m m'" "manifest_ok m'"
proof (cases e)
  case (Register m p)
  show thesis
  proof (cases "manifest_init m")
    case (Inr m')
    then have "m' = m" "manifest_ok m" by (simp_all add: manifest_init_eq_Inr)
    then show thesis using new [of m] Register Inr
      by (auto simp: stored_def tracker_register_def Let_def split: prod.splits)
  qed (use same Register in simp)
next
  case (BindStage rid a p)
  show thesis
  proof (cases "dict_get (mt_manifests t) rid")
    case (Some m)
    show thesis
    proof (cases "with_stage m a")
      case (Inr m')
      then show thesis using update [OF _ Some, of m'] with_stage_kept [OF Inr] BindStage Some
        by (auto simp: stored_def tracker_bind_stage_def Let_def split: prod.splits)
    qed (use same BindStage Some in \<open>simp add: tracker_bind_stage_def\<close>)
  qed (use same BindStage in \<open>simp add: tracker_bind_stage_def\<close>)
next
  case (Transition rid s p)
  show thesis
  proof (cases "dict_get (mt_manifests t) rid")
    case (Some m)
    show thesis
    proof (cases "with_status m s")
      case (Inr m')
      then show thesis using update [OF _ Some, of m'] with_status_kept [OF Inr] Transition Some
        by (auto simp: stored_def tracker_transition_def Let_def split: prod.splits)
    qed (use same Transition Some in \<open>simp add: tracker_transition_def\<close>)
  qed (use same Transition in \<open>simp add: tracker_transition_def\<close>)
next
  case (Finalize c rid s u p)
  show thesis
  proof (cases "dict_get (mt_manifests t) rid")
    case (Some m)
    show thesis
    proof (cases "with_status m s")
      case (Inr m')
      then show thesis using update [OF _ Some, of m'] with_status_kept [OF Inr] Finalize Some
        by (auto simp: stored_def tracker_finalize_def Let_def split: prod.splits)
    qed (use same Finalize Some in \<open>simp add: tracker_finalize_def\<close>)
  qed (use same Finalize in \<open>simp add: tracker_finalize_def\<close>)
qed

definition tracker_ok :: "manifest_tracker \<Rightarrow> bool" where
  "tracker_ok t = (dict_wf (mt_manifests t) \<and> (\<forall>(rid, m) \<in> set (mt_manifests t). rm_run_id m = rid \<and> manifest_ok m))"

lemma tracker_okD: "tracker_ok t \<Longrightarrow> dict_get (mt_manifests t) rid = Some m \<Longrightarrow> rm_run_id m = rid \<and> manifest_ok m"
  by (auto simp: tracker_ok_def dest: dict_get_mem)

lemma stored_manifests [simp]: "mt_manifests (stored t rid m p) = dict_set rid m (mt_manifests t)"
  by (auto simp: stored_def Let_def tracker_persist_state split: option.splits)

lemma stored_writer [simp]: "mt_writer (stored t rid m p) = mt_writer t"
  by (auto simp: stored_def Let_def tracker_persist_state split: option.splits)

lemma tracker_ok_stored: "tracker_ok t \<Longrightarrow> manifest_ok m \<Longrightarrow> rm_run_id m = rid \<Longrightarrow> tracker_ok (stored t rid m p)"
  using set_dict_set_subset [of rid m "mt_manifests t"] by (auto simp: tracker_ok_def)

lemma tracker_step_ok: "tracker_ok t \<Longrightarrow> tracker_ok (tracker_step t e)"
  by (cases rule: tracker_step_cases [where t = t and e = e]) (auto intro!: tracker_ok_stored dest: tracker_okD same_lineage_id)

interpretation tracker: step_invariant tracker_step tracker_ok
  by standard (rule tracker_step_ok)

text \<open>The latest text written for a run.\<close>

definition last_written :: "manifest_tracker \<Rightarrow> string \<Rightarrow> run_manifest option" where
  "last_written t rid = dict_get (rev (mt_written t)) rid"

definition written_current :: "manifest_tracker \<Rightarrow> bool" where
  "written_current t = (mt_writer t \<noteq> None \<and> (\<forall>rid. dict_get (mt_manifests t) rid = last_written t rid))"

lemma last_written_stored:
  "mt_writer t \<noteq> None \<Longrightarrow> last_written (stored t rid m True) k = (if k = rm_run_id m then Some m else last_written t k)"
  by (auto simp: stored_def last_written_def tracker_persist_state)

lemma written_current_step:
  assumes "tracker_ok t" and w: "written_current t" and p: "persisting e"
  shows "written_current (tracker_step t e)"
proof (cases rule: tracker_step_cases [where t = t and e = e])
  case (new m)
  then show ?thesis using w p by (auto simp: written_current_def last_written_stored)
next
  case (update rid m m')
  then show ?thesis using w p tracker_okD [OF assms(1) update(2)] same_lineage_id [OF update(4)]
    by (auto simp: written_current_def last_written_stored)
qed (use w in simp)

lemma written_current_run:
  "tracker_ok t \<Longrightarrow> written_current t \<Longrightarrow> \<forall>e \<in> set es. persisting e \<Longrightarrow> written_current (foldl tracker_step t es)"
  by (induction es arbitrary: t) (auto intro: tracker_step_ok written_current_step)

lemma lineage_step:
  assumes ok: "tracker_ok t" and m: "dict_get (mt_manifests t) rid = Some m"
    and e: "\<forall>m' p. e = Register m' p \<longrightarrow> rm_run_id m' \<noteq> rid"
  shows "\<exists>m'. dict_get (mt_manifests (tracker_step t e)) rid = Some m' \<and> same_lineage m m'"
proof (cases rule: tracker_step_cases [where t = t and e = e])
  case (new m')
  then show ?thesis using m e by auto
next
  case (update rid' m1 m')
  then show ?thesis using m by auto
qed (use m in simp)

lemma lineage_run:
  "tracker_ok t \<Longrightarrow> dict_get (mt_manifests t) rid = Some m \<Longrightarrow>
   \<forall>m' p. Register m' p \<in> set es \<longrightarrow> rm_run_id m' \<noteq> rid \<Longrightarrow>
   \<exists>m'. dict_get (mt_manifests (foldl tracker_step t es)) rid = Some m' \<and> same_lineage m m'"
proof (induction es arbitrary: t m)
  case (Cons e es)
  have "\<forall>m' p. e = Register m' p \<longrightarrow> rm_run_id m' \<noteq> rid" using Cons.prems(3) by auto
  from lineage_step [OF Cons.prems(1,2) this] obtain m1
    where m1: "dict_get (mt_manifests (tracker_step t e)) rid = Some m1" "same_lineage m m1" by blast
  have "\<forall>m' p. Register m' p \<in> set es \<longrightarrow> rm_run_id m' \<noteq> rid" using Cons.prems(3) by auto
  from Cons.IH [OF tracker_step_ok [OF Cons.prems(1)] m1(1) this] m1(2) show ?case
    by (auto intro: same_lineage_trans)
qed simp

section \<open>Properties\<close>

text \<open>
  What is written out is current: when every call persists, then after any sequence of calls
  the last text written for a run is the manifest the tracker holds for it, and nothing was written
  for other runs, also when the writer itself raises.
\<close>

theorem persisted_manifest_is_current:
  assumes "\<forall>e \<in> set es. persisting e"
  shows "dict_get (mt_manifests (foldl tracker_step (tracker_init (Some w)) es)) rid
    = last_written (foldl tracker_step (tracker_init (Some w)) es) rid"
  using written_current_run [of "tracker_init (Some w)" es] assms
  by (simp add: written_current_def tracker_init_def tracker_ok_def last_written_def)

definition example_manifest :: run_manifest where
  "example_manifest = \<lparr>rm_run_id = ''r1'', rm_status = ''running'', rm_decision_time = ''t0'',
     rm_stages = map artifact [''ingestion'', ''features'', ''recommendations'', ''portfolio'', ''risk'', ''execution_audit'',
       ''fill'', ''pnl'', ''reflection''], rm_schema_version = ''paper-live-run-v3''\<rparr>"

definition example_events :: "tracker_event list" where
  "example_events = [Register example_manifest True, BindStage ''r1'' ((artifact ''fill'')\<lparr>ra_status := ''FILLED''\<rparr>) True,
     BindStage ''r1'' (artifact ''unknown'') True, Transition ''r2'' ''x'' True, Transition ''r1'' ''done'' True]"

theorem persisted_manifest_is_current_witness:
  "dict_get (mt_manifests (foldl tracker_step (tracker_init (Some (\<lambda>_ _. Inl (RuntimeError ''io'')))) example_events)) ''r1''
    = last_written (foldl tracker_step (tracker_init (Some (\<lambda>_ _. Inl (RuntimeError ''io'')))) example_events) ''r1''"
  by (rule persisted_manifest_is_current) code_simp

text \<open>
  Lineage is preserved: as long as a run is not registered again, no sequence of bindings,
  transitions and finalisations removes it or changes its stages, their order, its decision time
  or its schema version, and its stages stay unique.
\<close>

theorem run_lineage_is_preserved:
  assumes "tracker_ok t" and "dict_get (mt_manifests t) rid = Some m"
    and "\<forall>m' p. Register m' p \<in> set es \<longrightarrow> rm_run_id m' \<noteq> rid"
  shows "\<exists>m'. dict_get (mt_manifests (foldl tracker_step t es)) rid = Some m' \<and> stage_names m' = stage_names m
    \<and> manifest_ok m' \<and> rm_decision_time m' = rm_decision_time m \<and> rm_schema_version m' = rm_schema_version m"
  using lineage_run [OF assms] tracker_okD [OF tracker.run_inv [OF assms(1)]]
  unfolding same_lineage_def by blast

theorem run_lineage_is_preserved_witness:
  "\<exists>m'. dict_get (mt_manifests (foldl tracker_step (foldl tracker_step (tracker_init None) example_events) (tl example_events))) ''r1''
     = Some m' \<and> stage_names m' = stage_names example_manifest \<and> manifest_ok m'
     \<and> rm_decision_time m' = ''t0'' \<and> rm_schema_version m' = ''paper-live-run-v3''"
proof -
  let ?t = "foldl tracker_step (tracker_init None) example_events" and ?m = "the (dict_get (mt_manifests
      (foldl tracker_step (tracker_init None) example_events)) ''r1'')"
  have "\<exists>m'. dict_get (mt_manifests (foldl tracker_step ?t (tl example_events))) ''r1'' = Some m'
    \<and> stage_names m' = stage_names ?m \<and> manifest_ok m' \<and> rm_decision_time m' = rm_decision_time ?m
    \<and> rm_schema_version m' = rm_schema_version ?m"
  proof (rule run_lineage_is_preserved)
    show "tracker_ok ?t" by (rule tracker.run_inv) (simp add: tracker_ok_def tracker_init_def)
    show "dict_get (mt_manifests ?t) ''r1'' = Some ?m" by code_simp
    show "\<forall>m' p. Register m' p \<in> set (tl example_events) \<longrightarrow> rm_run_id m' \<noteq> ''r1''"
      by (simp add: example_events_def)
  qed
  moreover have "stage_names ?m = stage_names example_manifest" "rm_decision_time ?m = ''t0''"
    "rm_schema_version ?m = ''paper-live-run-v3''" by code_simp+
  ultimately show ?thesis by metis
qed

end
