(* ===== verification/Execution_Audit.thy ===== *)
theory Execution_Audit
  imports Trade_Types Brokers Ledger Run_Manifest
begin

text \<open>
  \<open>execution_audit.py\<close>: the audit trail, one record per order decision, updated in place by its
  result, its profit and its reflection, and bound to the manifest of its run.

  SHA-256 digests of canonical JSON, the rendering of decimals, and the current time as text are
  parameters. Operations that raise keep what they changed before.
\<close>

section \<open>Records\<close>

record audit_record =
  au_audit_id :: string
  au_status :: string
  au_created_at :: string
  au_symbol :: string
  au_side :: string
  au_quantity :: string
  au_reference_price :: string
  au_recommendation_run_id :: "string option"
  au_portfolio_rank :: "int option"
  au_target_weight :: "string option"
  au_risk_approved :: bool
  au_risk_level :: string
  au_risk_violations :: "string list"
  au_account_value :: "string option"
  au_portfolio_notional :: "string option"
  au_market_notional :: "string option"
  au_market :: string
  au_client_order_id :: string
  au_preview_id :: "string option"
  au_broker :: string
  au_broker_order_id :: "string option"
  au_fill_quantity :: "string option"
  au_fill_price :: "string option"
  au_fee :: "string option"
  au_tax :: "string option"
  au_pnl :: "string option"
  au_pnl_reference :: "string option"
  au_reflection_episode_id :: "string option"
  au_run_manifest_id :: "string option"
  au_message :: string
  au_schema_version :: string

text \<open>The parameters: \<open>str\<close> of decimals, the hex digest of a payload and of records, and the time.\<close>

record audit_params =
  ap_show_dec :: "decimal \<Rightarrow> string"
  ap_digest :: "row \<Rightarrow> string"
  ap_records_digest :: "audit_record list \<Rightarrow> string"
  ap_now :: string

record audit_trail =
  at_records :: "audit_record list"
  at_tracker :: "manifest_tracker option"

definition audit_get :: "audit_trail \<Rightarrow> string \<Rightarrow> audit_record option" where
  "audit_get t audit_id = find (\<lambda>r. au_audit_id r = audit_id) (at_records t)"

definition audit_append :: "audit_trail \<Rightarrow> audit_record \<Rightarrow> audit_trail" where
  "audit_append t r = (if list_ex (\<lambda>item. au_audit_id item = au_audit_id r) (at_records t) then t
     else t\<lparr>at_records := at_records t @ [r]\<rparr>)"

text \<open>\<open>records[:] = [r for r in records if r.audit_id != id]\<close> and \<open>append\<close> of the new version.\<close>

definition audit_replace :: "audit_trail \<Rightarrow> string \<Rightarrow> audit_record \<Rightarrow> audit_trail" where
  "audit_replace t audit_id r =
     audit_append (t\<lparr>at_records := filter (\<lambda>item. au_audit_id item \<noteq> audit_id) (at_records t)\<rparr>) r"

definition dict_merge :: "('k, 'v) dict \<Rightarrow> ('k, 'v) dict \<Rightarrow> ('k, 'v) dict" where
  "dict_merge d e = foldl (\<lambda>d (k, v). dict_set k v d) d e"

definition audit_bind ::
  "audit_trail \<Rightarrow> audit_record \<Rightarrow> string \<Rightarrow> string \<Rightarrow> string option \<Rightarrow> row \<Rightarrow> unit res \<times> audit_trail" where
  "audit_bind t r stage status artifact_id metadata =
     (case (at_tracker t, au_run_manifest_id r) of
        (Some tr, Some run_id) \<Rightarrow>
          if run_id = [] then (Inr (), t)
          else (case tracker_bind_stage tr run_id
              ((artifact stage)\<lparr>ra_artifact_id := Some (case artifact_id of None \<Rightarrow> au_audit_id r
                   | Some a \<Rightarrow> if a = [] then au_audit_id r else a),
                 ra_status := status,
                 ra_metadata := dict_merge [(''audit_id'', PStr (au_audit_id r))] metadata\<rparr>) True of
             (res, tr') \<Rightarrow> (res_bind res (\<lambda>_. Inr ()), t\<lparr>at_tracker := Some tr'\<rparr>))
      | _ \<Rightarrow> (Inr (), t))"

text \<open>A replaced record and its binding.\<close>

definition audit_store ::
  "audit_trail \<Rightarrow> string \<Rightarrow> audit_record \<Rightarrow> string \<Rightarrow> string \<Rightarrow> string option \<Rightarrow> row \<Rightarrow> audit_record res \<times> audit_trail" where
  "audit_store t audit_id updated stage status artifact_id metadata =
     (case audit_bind (audit_replace t audit_id updated) updated stage status artifact_id metadata of
        (res, t') \<Rightarrow> (res_bind res (\<lambda>_. Inr updated), t'))"

section \<open>Submissions and results\<close>

definition submission_payload ::
  "audit_params \<Rightarrow> order_intent \<Rightarrow> string option \<Rightarrow> int option \<Rightarrow> string option \<Rightarrow> row" where
  "submission_payload ps i rec_id rank run_id =
     [(''symbol'', PStr (oi_symbol i)), (''side'', PStr (oi_side i)),
      (''quantity'', PStr (ap_show_dec ps (oi_quantity i))), (''client_order_id'', PStr (oi_client_order_id i)),
      (''recommendation_run_id'', case rec_id of None \<Rightarrow> PNone | Some s \<Rightarrow> PStr s),
      (''portfolio_rank'', case rank of None \<Rightarrow> PNone | Some n \<Rightarrow> PInt n),
      (''run_manifest_id'', case run_id of None \<Rightarrow> PNone | Some s \<Rightarrow> PStr s)]"

definition submission_record ::
  "audit_params \<Rightarrow> order_intent \<Rightarrow> decimal \<Rightarrow> risk_assessment \<Rightarrow> portfolio_context option \<Rightarrow> string option \<Rightarrow>
     int option \<Rightarrow> decimal option \<Rightarrow> string option \<Rightarrow> string \<Rightarrow> string option \<Rightarrow> audit_record" where
  "submission_record ps i ref_price risk ctxt rec_id rank weight preview_id broker run_id =
     \<lparr>au_audit_id = ''aud-'' @ take 20 (ap_digest ps (submission_payload ps i rec_id rank run_id)),
      au_status = ''SUBMITTED'', au_created_at = ap_now ps,
      au_symbol = oi_symbol i, au_side = oi_side i, au_quantity = ap_show_dec ps (oi_quantity i),
      au_reference_price = ap_show_dec ps ref_price,
      au_recommendation_run_id = rec_id, au_portfolio_rank = rank,
      au_target_weight = map_option (ap_show_dec ps) weight, au_risk_approved = ra_approved risk,
      au_risk_level = ra_level risk, au_risk_violations = ra_violations risk,
      au_account_value = map_option (\<lambda>c. ap_show_dec ps (pc_account_value c)) ctxt,
      au_portfolio_notional = map_option (\<lambda>c. ap_show_dec ps (pc_portfolio_notional c)) ctxt,
      au_market_notional = map_option (\<lambda>c. ap_show_dec ps (pc_market_notional c)) ctxt,
      au_market = (case ctxt of None \<Rightarrow> [] | Some c \<Rightarrow> pc_market c),
      au_client_order_id = oi_client_order_id i, au_preview_id = preview_id, au_broker = broker,
      au_broker_order_id = None, au_fill_quantity = None, au_fill_price = None, au_fee = None, au_tax = None,
      au_pnl = None, au_pnl_reference = None, au_reflection_episode_id = None,
      au_run_manifest_id = run_id, au_message = [], au_schema_version = ''execution-audit-v1''\<rparr>"

definition create_submission ::
  "audit_params \<Rightarrow> audit_trail \<Rightarrow> order_intent \<Rightarrow> decimal \<Rightarrow> risk_assessment \<Rightarrow> portfolio_context option \<Rightarrow>
     string option \<Rightarrow> int option \<Rightarrow> decimal option \<Rightarrow> string option \<Rightarrow> string \<Rightarrow> string option \<Rightarrow>
     audit_record res \<times> audit_trail" where
  "create_submission ps t i ref_price risk ctxt rec_id rank weight preview_id broker run_id =
     (let r = submission_record ps i ref_price risk ctxt rec_id rank weight preview_id broker run_id in
      case audit_bind (audit_append t r) r ''execution_audit'' (au_status r) None [] of
        (res, t') \<Rightarrow> (res_bind res (\<lambda>_. Inr r), t'))"

datatype trade_result = FillResult fill | BrokerResult order_result

definition fill_metadata :: "audit_params \<Rightarrow> fill \<Rightarrow> row" where
  "fill_metadata ps f = [(''quantity'', PStr (ap_show_dec ps (fl_quantity f))), (''price'', PStr (ap_show_dec ps (fl_price f)))]"

definition broker_metadata :: "audit_record \<Rightarrow> row" where
  "broker_metadata r = [(''broker_order_id'', case au_broker_order_id r of None \<Rightarrow> PNone | Some s \<Rightarrow> PStr s)]"

definition audit_record_result ::
  "audit_params \<Rightarrow> audit_trail \<Rightarrow> audit_record \<Rightarrow> trade_result \<Rightarrow> audit_record res \<times> audit_trail" where
  "audit_record_result ps t submission result =
     (case result of
        FillResult f \<Rightarrow>
          (let updated = submission\<lparr>au_status := fl_status f, au_message := [],
                 au_fill_quantity := Some (ap_show_dec ps (fl_quantity f)),
                 au_fill_price := Some (ap_show_dec ps (fl_price f)),
                 au_fee := Some (ap_show_dec ps (fl_fee f)), au_tax := Some (ap_show_dec ps (fl_tax f)),
                 au_broker_order_id := Some (fl_order_id f)\<rparr>
           in audit_store t (au_audit_id submission) updated ''fill'' (au_status updated)
                (Some (fl_order_id f)) (fill_metadata ps f))
      | BrokerResult r \<Rightarrow>
          (let updated = submission\<lparr>au_status := ''ACCEPTED'', au_message := rt_message r,
                 au_broker_order_id := (if rt_order_id r = [] then None else Some (rt_order_id r))\<rparr>
           in audit_store t (au_audit_id submission) updated ''execution_audit'' (au_status updated)
                None (broker_metadata updated)))"

definition audit_record_fill ::
  "audit_params \<Rightarrow> audit_trail \<Rightarrow> audit_record \<Rightarrow> fill \<Rightarrow> audit_record res \<times> audit_trail" where
  "audit_record_fill ps t submission f =
     (if fl_quantity f \<le> 0 \<and> fl_status f \<in> {''ACCEPTED'', ''REJECTED''} then
        (let updated = submission\<lparr>au_status := fl_status f,
               au_broker_order_id := (if fl_order_id f = [] then None else Some (fl_order_id f)), au_message := [],
               au_fill_quantity := None, au_fill_price := None, au_fee := None, au_tax := None\<rparr>
         in audit_store t (au_audit_id submission) updated ''execution_audit'' (au_status updated)
              None (broker_metadata updated))
      else audit_record_result ps t submission (FillResult f))"

section \<open>Profit and reflection\<close>

definition audit_record_pnl ::
  "audit_params \<Rightarrow> audit_trail \<Rightarrow> string \<Rightarrow> decimal \<Rightarrow> string \<Rightarrow> audit_record res \<times> audit_trail" where
  "audit_record_pnl ps t audit_id pnl reference =
     (case audit_get t audit_id of
        None \<Rightarrow> (Inl (KeyError audit_id), t)
      | Some r \<Rightarrow>
          audit_store t audit_id (r\<lparr>au_pnl := Some (ap_show_dec ps pnl), au_pnl_reference := Some reference\<rparr>)
            ''pnl'' ''COMPLETED'' None [(''pnl'', PStr (ap_show_dec ps pnl)), (''pnl_reference'', PStr reference)])"

record trade_episode =
  te_episode_id :: string
  te_symbol :: string
  te_action :: string
  te_entry_price :: string
  te_exit_price :: string
  te_pnl :: string
  te_decision_context :: row
  te_outcome :: string
  te_created_at :: string

definition audit_record_reflection ::
  "audit_trail \<Rightarrow> string \<Rightarrow> trade_episode \<Rightarrow> audit_record res \<times> audit_trail" where
  "audit_record_reflection t audit_id episode =
     (case audit_get t audit_id of
        None \<Rightarrow> (Inl (KeyError audit_id), t)
      | Some r \<Rightarrow>
          audit_store t audit_id (r\<lparr>au_reflection_episode_id := Some (te_episode_id episode)\<rparr>)
            ''reflection'' ''COMPLETED'' (Some (te_episode_id episode)) [])"

text \<open>The ledger has moved when a later step raises.\<close>

definition reconcile_fill_pnl ::
  "audit_params \<Rightarrow> audit_trail \<Rightarrow> ledger \<Rightarrow> string \<Rightarrow> decimal \<Rightarrow> audit_record res \<times> audit_trail \<times> ledger" where
  "reconcile_fill_pnl ps t l audit_id mark =
     (case audit_get t audit_id of
        None \<Rightarrow> (Inl (ValueError ''audit record does not contain a fill''), t, l)
      | Some r \<Rightarrow>
          (case (au_fill_quantity r, au_fill_price r) of
             (Some q, Some p) \<Rightarrow>
               (case res_bind (side_of_value (au_side r)) (\<lambda>side.
                  res_bind (to_decimal (PStr q)) (\<lambda>quantity.
                  res_bind (to_decimal (PStr p)) (\<lambda>price.
                  apply_fill l (au_symbol r) side quantity price))) of
                  Inl e \<Rightarrow> (Inl e, t, l)
                | Inr (_, l') \<Rightarrow>
                    (case total_pnl l' (au_symbol r) mark of
                       Inl e \<Rightarrow> (Inl e, t, l')
                     | Inr pnl \<Rightarrow> (case audit_record_pnl ps t audit_id pnl (''ledger:'' @ au_symbol r) of
                          (res, t') \<Rightarrow> (res, t', l'))))
           | _ \<Rightarrow> (Inl (ValueError ''audit record does not contain a fill''), t, l)))"

section \<open>Preflight records\<close>

definition approved_by_symbol :: "revalidation list \<Rightarrow> (string, revalidation) dict" where
  "approved_by_symbol items = foldl (\<lambda>d item. case rv_intent item of
     None \<Rightarrow> d | Some i \<Rightarrow> dict_set (oi_symbol i) item d) [] items"

definition rejected_by_symbol :: "audit_params \<Rightarrow> (row \<times> string) list \<Rightarrow> (string, string) dict" where
  "rejected_by_symbol ps items = foldl (\<lambda>d (r, reason). dict_set (row_symbol (ap_show_dec ps) r) reason d) [] items"

definition row_selected :: "row \<Rightarrow> bool" where
  "row_selected r = truthy (row_get r ''portfolio_selected'' PNone)"

definition row_rank :: "row \<Rightarrow> int option res" where
  "row_rank r = (case row_get r ''portfolio_rank'' (row_get r ''rank'' PNone) of
     PNone \<Rightarrow> Inr None | v \<Rightarrow> map_sum id Some (to_int v))"

definition preflight_record ::
  "audit_params \<Rightarrow> row \<Rightarrow> string \<Rightarrow> int option \<Rightarrow> revalidation option \<Rightarrow> string option \<Rightarrow> string option \<Rightarrow> audit_record" where
  "preflight_record ps r symb rank approved reason run_id =
     (let sd = ap_show_dec ps;
          weight = (case row_get r ''target_weight'' PNone of PNone \<Rightarrow> None | v \<Rightarrow> Some (py_str sd v));
          intent = (case approved of None \<Rightarrow> None | Some a \<Rightarrow> rv_intent a);
          ctxt = map_option (\<lambda>a. rs_context (rv_snapshot a)) approved;
          status = (if approved \<noteq> None then ''PREFLIGHT_APPROVED'' else ''PREFLIGHT_REJECTED'');
          quantity = (case intent of None \<Rightarrow> ''0'' | Some i \<Rightarrow> sd (oi_quantity i));
          ref_price = (case intent of
              None \<Rightarrow> py_str sd (row_get r ''close'' (row_get r ''price'' (PStr ''0'')))
            | Some i \<Rightarrow> (case oi_price i of
                Some p \<Rightarrow> if p = 0 then py_str sd (row_get r ''close'' (PStr ''0'')) else sd p
              | None \<Rightarrow> py_str sd (row_get r ''close'' (PStr ''0''))));
          payload = [(''run_manifest_id'', case run_id of None \<Rightarrow> PNone | Some s \<Rightarrow> PStr s), (''symbol'', PStr symb),
            (''portfolio_rank'', case rank of None \<Rightarrow> PNone | Some n \<Rightarrow> PInt n),
            (''target_weight'', case weight of None \<Rightarrow> PNone | Some s \<Rightarrow> PStr s), (''status'', PStr status),
            (''quantity'', PStr quantity), (''reference_price'', PStr ref_price)]
      in \<lparr>au_audit_id = ''pfa-'' @ take 20 (ap_digest ps payload), au_status = status, au_created_at = ap_now ps,
          au_symbol = symb, au_side = py_str sd (row_get r ''side'' (PStr [])), au_quantity = quantity,
          au_reference_price = ref_price, au_recommendation_run_id = None, au_portfolio_rank = rank,
          au_target_weight = weight, au_risk_approved = (approved \<noteq> None),
          au_risk_level = (if approved \<noteq> None then ''PASS'' else ''REJECT''),
          au_risk_violations = (if approved \<noteq> None then []
            else [case reason of None \<Rightarrow> ''preflight rejected'' | Some s \<Rightarrow> if s = [] then ''preflight rejected'' else s]),
          au_account_value = map_option (\<lambda>c. sd (pc_account_value c)) ctxt,
          au_portfolio_notional = map_option (\<lambda>c. sd (pc_portfolio_notional c)) ctxt,
          au_market_notional = map_option (\<lambda>c. sd (pc_market_notional c)) ctxt,
          au_market = (case ctxt of None \<Rightarrow> py_str sd (row_get r ''market'' (PStr [])) | Some c \<Rightarrow> pc_market c),
          au_client_order_id = (case intent of None \<Rightarrow> [] | Some i \<Rightarrow> oi_client_order_id i),
          au_preview_id = None, au_broker = (case intent of None \<Rightarrow> [] | Some i \<Rightarrow> oi_broker i),
          au_broker_order_id = None, au_fill_quantity = None, au_fill_price = None, au_fee = None, au_tax = None,
          au_pnl = None, au_pnl_reference = None, au_reflection_episode_id = None, au_run_manifest_id = run_id,
          au_message = (case reason of None \<Rightarrow> ''preflight approved; no order submitted''
            | Some s \<Rightarrow> if s = [] then ''preflight approved; no order submitted'' else s),
          au_schema_version = ''execution-audit-v1''\<rparr>)"

fun record_preflight_rows ::
  "audit_params \<Rightarrow> (string, revalidation) dict \<Rightarrow> (string, string) dict \<Rightarrow> string option \<Rightarrow> row list \<Rightarrow>
     audit_record list \<Rightarrow> audit_trail \<Rightarrow> audit_record list res \<times> audit_trail" where
  "record_preflight_rows ps appr rej run_id [] acc t = (Inr acc, t)"
| "record_preflight_rows ps appr rej run_id (r # rows) acc t =
     (let symb = row_symbol (ap_show_dec ps) r in
      if \<not> row_selected r \<or> symb = [] then record_preflight_rows ps appr rej run_id rows acc t
      else case row_rank r of
        Inl e \<Rightarrow> (Inl e, t)
      | Inr rank \<Rightarrow>
          (let rec = preflight_record ps r symb rank (dict_get appr symb) (dict_get rej symb) run_id in
           record_preflight_rows ps appr rej run_id rows (acc @ [rec]) (audit_append t rec)))"

definition record_preflight ::
  "audit_params \<Rightarrow> audit_trail \<Rightarrow> row list \<Rightarrow> preflight_result \<Rightarrow> string option \<Rightarrow>
     audit_record list res \<times> audit_trail" where
  "record_preflight ps t rows result run_id =
     (case record_preflight_rows ps (approved_by_symbol (pf_approved result)) (rejected_by_symbol ps (pf_rejected result))
         run_id rows [] t of
        (Inl e, t') \<Rightarrow> (Inl e, t')
      | (Inr recs, t') \<Rightarrow>
          (case (run_id, at_tracker t') of
             (Some (ch # rid), Some tr) \<Rightarrow>
               (let checksum = ap_records_digest ps recs in
                case tracker_bind_stage tr (ch # rid)
                  ((artifact ''risk'')\<lparr>ra_artifact_id := Some (''preflight-'' @ take 20 checksum),
                     ra_row_count := Some (int (length recs)),
                     ra_status := (if pf_rejected result = [] then ''completed'' else ''rejected''),
                     ra_checksum_sha256 := Some checksum,
                     ra_metadata := [(''preflight_required'', PBool True), (''rows_checked'', PInt (pf_rows_checked result)),
                       (''approved_count'', PInt (int (length (pf_approved result)))),
                       (''rejected_count'', PInt (int (length (pf_rejected result))))]\<rparr>) True of
                  (res, tr') \<Rightarrow> (res_bind res (\<lambda>_. Inr recs), t'\<lparr>at_tracker := Some tr'\<rparr>))
           | _ \<Rightarrow> (Inr recs, t')))"

section \<open>What the operations keep\<close>

definition audit_ids :: "audit_trail \<Rightarrow> string list" where
  "audit_ids t = map au_audit_id (at_records t)"

definition audit_ok :: "audit_trail \<Rightarrow> bool" where
  "audit_ok t = (distinct (audit_ids t) \<and> (case at_tracker t of None \<Rightarrow> True | Some tr \<Rightarrow> tracker_ok tr))"

text \<open>A step of the trail: the invariant is kept and no decision disappears.\<close>

definition extends :: "audit_trail \<Rightarrow> audit_trail \<Rightarrow> bool" where
  "extends t t' = ((audit_ok t \<longrightarrow> audit_ok t') \<and> set (audit_ids t) \<subseteq> set (audit_ids t'))"

lemma extends_refl [simp, intro]: "extends t t"
  by (simp add: extends_def)

lemma extends_trans: "extends a b \<Longrightarrow> extends b c \<Longrightarrow> extends a c"
  by (auto simp: extends_def)

lemma audit_append_records:
  "at_records (audit_append t r) = (if au_audit_id r \<in> set (audit_ids t) then at_records t else at_records t @ [r])"
  "at_tracker (audit_append t r) = at_tracker t"
  by (auto simp: audit_append_def audit_ids_def list_ex_iff intro: rev_image_eqI)

lemma extends_append: "extends t (audit_append t r)"
  by (auto simp: extends_def audit_ok_def audit_ids_def audit_append_records)

lemma extends_replace: "au_audit_id r = i \<Longrightarrow> extends t (audit_replace t i r)"
  unfolding audit_replace_def extends_def audit_ok_def audit_ids_def audit_append_records
  by (auto simp: audit_ids_def distinct_map_filter)

lemma audit_bind_tracker:
  "audit_bind t r stage status aid md = (res, t') \<Longrightarrow> at_records t' = at_records t
     \<and> (at_tracker t' = at_tracker t \<or> (\<exists>tr rid a. at_tracker t = Some tr \<and> at_tracker t' = Some (tracker_step tr (BindStage rid a True))))"
  by (auto simp: audit_bind_def split: option.splits if_splits prod.splits) (metis snd_conv)+

lemma extends_bind: "audit_bind t r stage status aid md = (res, t') \<Longrightarrow> extends t t'"
  using audit_bind_tracker [of t r stage status aid md res t']
  by (auto simp: extends_def audit_ok_def audit_ids_def intro: tracker_step_ok simp del: tracker_step.simps)

lemma extends_store:
  assumes "audit_store t i r stage status aid md = (res, t')" and "au_audit_id r = i"
  shows "extends t t'"
proof -
  obtain res0 where "audit_bind (audit_replace t i r) r stage status aid md = (res0, t')"
    using assms(1) by (auto simp: audit_store_def split: prod.splits)
  from extends_trans [OF extends_replace [OF assms(2)] extends_bind [OF this]] show ?thesis .
qed

lemma extends_submission:
  "create_submission ps t i p risk c rec_id rank w pid b rid = (res, t') \<Longrightarrow> extends t t'"
  by (auto simp: create_submission_def Let_def split: prod.splits
      intro: extends_trans [OF extends_append] extends_bind)

lemma extends_result: "audit_record_result ps t s r = (res, t') \<Longrightarrow> extends t t'"
  by (auto simp: audit_record_result_def Let_def split: trade_result.splits elim: extends_store)

lemma extends_fill: "audit_record_fill ps t s f = (res, t') \<Longrightarrow> extends t t'"
  by (auto simp: audit_record_fill_def Let_def split: if_splits elim: extends_store extends_result)

lemma audit_get_id: "audit_get t i = Some r \<Longrightarrow> au_audit_id r = i"
  by (auto simp: audit_get_def find_Some_iff)

lemma extends_pnl: "audit_record_pnl ps t i pnl ref = (res, t') \<Longrightarrow> extends t t'"
  by (auto simp: audit_record_pnl_def split: option.splits dest!: audit_get_id extends_store)

lemma extends_reflection: "audit_record_reflection t i e = (res, t') \<Longrightarrow> extends t t'"
  by (auto simp: audit_record_reflection_def split: option.splits dest!: audit_get_id extends_store)

lemma extends_reconcile: "reconcile_fill_pnl ps t l i mark = (res, t', l') \<Longrightarrow> extends t t'"
  by (auto simp: reconcile_fill_pnl_def split: option.splits sum.splits prod.splits dest: extends_pnl)

lemma extends_preflight_rows:
  "record_preflight_rows ps appr rej rid rows acc t = (res, t') \<Longrightarrow> extends t t'"
proof (induction ps appr rej rid rows acc t rule: record_preflight_rows.induct)
  case (2 ps appr rej run_id r rows acc t)
  then show ?case
    by (auto simp: Let_def split: if_splits sum.splits intro: extends_trans [OF extends_append])
qed simp

lemma extends_preflight: "record_preflight ps t rows result rid = (res, t') \<Longrightarrow> extends t t'"
proof -
  assume r: "record_preflight ps t rows result rid = (res, t')"
  obtain res1 t1 where t1: "record_preflight_rows ps (approved_by_symbol (pf_approved result))
      (rejected_by_symbol ps (pf_rejected result)) rid rows [] t = (res1, t1)" by fastforce
  have "t' = t1 \<or> (\<exists>tr run a. at_tracker t1 = Some tr \<and> t' = t1\<lparr>at_tracker := Some (tracker_step tr (BindStage run a True))\<rparr>)"
    using r by (auto simp: record_preflight_def t1 Let_def split: sum.splits option.splits list.splits prod.splits)
      (metis snd_conv)
  then have "extends t1 t'"
    by (auto simp: extends_def audit_ok_def audit_ids_def intro: tracker_step_ok simp del: tracker_step.simps)
  with extends_preflight_rows [OF t1] show ?thesis by (rule extends_trans)
qed

text \<open>The calls the runtime makes on the trail.\<close>

datatype audit_event =
    AuSubmit order_intent decimal risk_assessment "portfolio_context option" "string option" "int option"
      "decimal option" "string option" string "string option"
  | AuResult audit_record trade_result
  | AuFill audit_record fill
  | AuPnl string decimal string
  | AuReflect string trade_episode
  | AuReconcile ledger string decimal
  | AuPreflight "row list" preflight_result "string option"

fun audit_step :: "audit_params \<Rightarrow> audit_trail \<Rightarrow> audit_event \<Rightarrow> audit_trail" where
  "audit_step ps t (AuSubmit i p risk c rec_id rank w pid b rid) =
     snd (create_submission ps t i p risk c rec_id rank w pid b rid)"
| "audit_step ps t (AuResult s r) = snd (audit_record_result ps t s r)"
| "audit_step ps t (AuFill s f) = snd (audit_record_fill ps t s f)"
| "audit_step ps t (AuPnl i d ref) = snd (audit_record_pnl ps t i d ref)"
| "audit_step ps t (AuReflect i e) = snd (audit_record_reflection t i e)"
| "audit_step ps t (AuReconcile l i mark) = fst (snd (reconcile_fill_pnl ps t l i mark))"
| "audit_step ps t (AuPreflight rows res rid) = snd (record_preflight ps t rows res rid)"

lemma audit_step_extends: "extends t (audit_step ps t e)"
  by (cases e)
    (auto intro: extends_submission extends_result extends_fill extends_pnl extends_reflection extends_reconcile
      extends_preflight prod.collapse [symmetric] simp: prod_eq_iff)

interpretation audit: step_invariant "audit_step ps" "\<lambda>t. extends t0 t" for ps t0
proof
  fix t e
  assume "extends t0 t"
  then show "extends t0 (audit_step ps t e)" by (rule extends_trans [OF _ audit_step_extends])
qed

section \<open>Results and reconciliation\<close>

lemma audit_get_replace: "au_audit_id r = i \<Longrightarrow> audit_get (audit_replace t i r) i = Some r"
proof -
  assume i: "au_audit_id r = i"
  have "find (\<lambda>x. au_audit_id x = i) (filter (\<lambda>x. au_audit_id x \<noteq> i) xs @ [r]) = Some r" for xs
    by (induction xs) (auto simp: i)
  then show ?thesis
    by (auto simp: audit_get_def audit_replace_def audit_append_records audit_ids_def i)
qed

lemma audit_get_cong: "at_records t = at_records t' \<Longrightarrow> audit_get t i = audit_get t' i"
  by (simp add: audit_get_def)

lemma audit_store_get:
  assumes "audit_store t i r stage status aid md = (res, t')" and "au_audit_id r = i"
  shows "audit_get t' i = Some r" and "res = Inr x \<Longrightarrow> x = r"
proof -
  obtain res0 where b: "audit_bind (audit_replace t i r) r stage status aid md = (res0, t')"
    and res: "res = res_bind res0 (\<lambda>_. Inr r)"
    using assms(1) by (auto simp: audit_store_def split: prod.splits)
  have "at_records t' = at_records (audit_replace t i r)" using audit_bind_tracker [OF b] by simp
  then show "audit_get t' i = Some r" using audit_get_replace [OF assms(2)] by (metis audit_get_cong)
  show "res = Inr x \<Longrightarrow> x = r" using res by (auto simp: res_bind_eq_Inr)
qed

lemma recorded_fill:
  assumes "audit_record_fill ps t s f = (res, t')" and "0 < fl_quantity f"
  shows "\<exists>r. audit_get t' (au_audit_id s) = Some r \<and> au_symbol r = au_symbol s \<and> au_side r = au_side s
    \<and> au_fill_quantity r = Some (ap_show_dec ps (fl_quantity f)) \<and> au_fill_price r = Some (ap_show_dec ps (fl_price f))
    \<and> au_status r = fl_status f"
proof -
  define r where "r = s\<lparr>au_status := fl_status f, au_message := [],
                 au_fill_quantity := Some (ap_show_dec ps (fl_quantity f)),
                 au_fill_price := Some (ap_show_dec ps (fl_price f)),
                 au_fee := Some (ap_show_dec ps (fl_fee f)), au_tax := Some (ap_show_dec ps (fl_tax f)),
                 au_broker_order_id := Some (fl_order_id f)\<rparr>"
  have "audit_store t (au_audit_id s) r ''fill'' (au_status r) (Some (fl_order_id f)) (fill_metadata ps f) = (res, t')"
    using assms by (simp add: audit_record_fill_def audit_record_result_def Let_def r_def)
  from audit_store_get(1) [OF this] show ?thesis by (simp add: r_def)
qed

section \<open>Properties\<close>

text \<open>
  (C30) The audit trail forgets nothing and counts nothing twice: after any sequence of submissions,
  results, fills, profits, reflections, reconciliations and preflights, including those that raise,
  the audit ids are distinct, every earlier id is still there, and the manifests of the bound
  tracker are well-formed.
\<close>

theorem audit_trail_keeps_every_decision:
  assumes "audit_ok t"
  shows "audit_ok (foldl (audit_step ps) t es) \<and> set (audit_ids t) \<subseteq> set (audit_ids (foldl (audit_step ps) t es))"
  using audit.run_inv [of t t ps es] assms by (simp add: extends_def)

definition example_params :: audit_params where
  "example_params = \<lparr>ap_show_dec = (\<lambda>d. show_int (trunc d)),
     ap_digest = (\<lambda>d. concat (map (\<lambda>(k, v). py_str (\<lambda>_. []) v) d)), ap_records_digest = (\<lambda>rs. ''digest''), ap_now = ''now''\<rparr>"

definition example_intent :: order_intent where
  "example_intent = \<lparr>oi_symbol = ''005930'', oi_side = ''BUY'', oi_quantity = 4, oi_order_type = ''MARKET'',
     oi_price = None, oi_broker = ''toss'', oi_client_order_id = ''c1''\<rparr>"

definition example_trail :: audit_trail where
  "example_trail = snd (create_submission example_params \<lparr>at_records = [], at_tracker = None\<rparr> example_intent 70000
     \<lparr>ra_approved = True, ra_level = ''PASS'', ra_violations = []\<rparr> None None None None None ''toss'' None)"

definition example_submission :: audit_record where
  "example_submission = hd (at_records example_trail)"

theorem audit_trail_keeps_every_decision_witness:
  "set (audit_ids example_trail) \<subseteq> set (audit_ids (foldl (audit_step example_params) example_trail
     [AuPnl ''none'' 3 ''x'', AuFill example_submission (fst (example_result BUY LIMIT))]))"
  by (rule audit_trail_keeps_every_decision [THEN conjunct2]) code_simp

text \<open>
  (C34) A recorded fill is reconciled exactly: when a fill was recorded for a submission of the same
  symbol and side, reconciling that audit record later books the very same quantity and price in
  the ledger and stores the profit of this ledger, provided the texts of the two decimals are read
  back as the decimals they show.
\<close>

theorem recorded_fill_is_reconciled:
  assumes f: "audit_record_fill ps t s f = (res, t')" "0 < fl_quantity f"
    and s: "au_symbol s = fl_symbol f" "au_side s = side_value (fl_side f)"
    and rt: "parse_decimal (ap_show_dec ps (fl_quantity f)) = Some (fl_quantity f)"
      "parse_decimal (ap_show_dec ps (fl_price f)) = Some (fl_price f)"
    and l: "apply_fill l (fl_symbol f) (fl_side f) (fl_quantity f) (fl_price f) = Inr (u, l')"
    and pnl: "total_pnl l' (fl_symbol f) mark = Inr pnl"
  shows "\<exists>res' t''. reconcile_fill_pnl ps t' l (au_audit_id s) mark = (res', t'', l')
    \<and> (\<exists>r. audit_get t'' (au_audit_id s) = Some r \<and> au_pnl r = Some (ap_show_dec ps pnl) \<and> au_status r = fl_status f)"
proof -
  obtain r where r: "audit_get t' (au_audit_id s) = Some r" "au_symbol r = fl_symbol f" "au_side r = side_value (fl_side f)"
    "au_fill_quantity r = Some (ap_show_dec ps (fl_quantity f))" "au_fill_price r = Some (ap_show_dec ps (fl_price f))"
    "au_status r = fl_status f"
    using recorded_fill [OF f] s by auto
  obtain res' t'' where p: "audit_record_pnl ps t' (au_audit_id s) pnl (''ledger:'' @ fl_symbol f) = (res', t'')" by fastforce
  have sd: "side_of_value (side_value (fl_side f)) = Inr (fl_side f)" by (cases "fl_side f") (simp_all add: side_of_value_def)
  have "reconcile_fill_pnl ps t' l (au_audit_id s) mark = (res', t'', l')"
    using r p sd rt l pnl by (simp add: reconcile_fill_pnl_def)
  moreover have "audit_get t'' (au_audit_id s) = Some (r\<lparr>au_pnl := Some (ap_show_dec ps pnl),
      au_pnl_reference := Some (''ledger:'' @ fl_symbol f)\<rparr>)"
    using p r(1) audit_get_id [OF r(1)] by (intro audit_store_get(1)) (auto simp: audit_record_pnl_def)
  ultimately show ?thesis using r(6) by auto
qed

theorem recorded_fill_is_reconciled_witness:
  "\<exists>res' t''. reconcile_fill_pnl example_params (snd (audit_record_fill example_params example_trail example_submission
        (fst (example_result BUY LIMIT)))) [] (au_audit_id example_submission) 70100 = (res', t'',
        [(''005930'', \<lparr>lp_symbol = ''005930'', lp_quantity = 4, lp_average_price = 70035, lp_realized_pnl = 0\<rparr>)])
    \<and> (\<exists>r. audit_get t'' (au_audit_id example_submission) = Some r
         \<and> au_pnl r = Some (ap_show_dec example_params 260) \<and> au_status r = fl_status (fst (example_result BUY LIMIT)))"
proof (rule recorded_fill_is_reconciled)
  show "audit_record_fill example_params example_trail example_submission (fst (example_result BUY LIMIT))
    = (fst (audit_record_fill example_params example_trail example_submission (fst (example_result BUY LIMIT))),
       snd (audit_record_fill example_params example_trail example_submission (fst (example_result BUY LIMIT))))" by simp
  show "0 < fl_quantity (fst (example_result BUY LIMIT))" by code_simp
  show "au_symbol example_submission = fl_symbol (fst (example_result BUY LIMIT))" by code_simp
  show "au_side example_submission = side_value (fl_side (fst (example_result BUY LIMIT)))" by code_simp
  show "parse_decimal (ap_show_dec example_params (fl_quantity (fst (example_result BUY LIMIT))))
    = Some (fl_quantity (fst (example_result BUY LIMIT)))" by code_simp
  show "parse_decimal (ap_show_dec example_params (fl_price (fst (example_result BUY LIMIT))))
    = Some (fl_price (fst (example_result BUY LIMIT)))" by code_simp
  show "apply_fill [] (fl_symbol (fst (example_result BUY LIMIT))) (fl_side (fst (example_result BUY LIMIT)))
      (fl_quantity (fst (example_result BUY LIMIT))) (fl_price (fst (example_result BUY LIMIT)))
    = Inr (\<lparr>lp_symbol = ''005930'', lp_quantity = 4, lp_average_price = 70035, lp_realized_pnl = 0\<rparr>,
       [(''005930'', \<lparr>lp_symbol = ''005930'', lp_quantity = 4, lp_average_price = 70035, lp_realized_pnl = 0\<rparr>)])" by code_simp
  show "total_pnl [(''005930'', \<lparr>lp_symbol = ''005930'', lp_quantity = 4, lp_average_price = 70035, lp_realized_pnl = 0\<rparr>)]
      (fl_symbol (fst (example_result BUY LIMIT))) 70100 = Inr 260" by code_simp
qed

text \<open>
  A refused broker order is recorded as accepted: the status of a broker's answer is never read,
  because the result has no \<open>status\<close>, so a result with \<open>accepted = False\<close> leaves a record
  \<open>ACCEPTED\<close>.
\<close>

theorem refused_result_is_recorded_accepted:
  assumes "audit_record_result ps t s (BrokerResult r) = (res, t')" and "\<not> rt_accepted r"
  shows "\<exists>a. audit_get t' (au_audit_id s) = Some a \<and> au_status a = ''ACCEPTED''"
proof -
  define u where "u = s\<lparr>au_status := ''ACCEPTED'', au_message := rt_message r,
     au_broker_order_id := (if rt_order_id r = [] then None else Some (rt_order_id r))\<rparr>"
  have "audit_store t (au_audit_id s) u ''execution_audit'' (au_status u) None (broker_metadata u) = (res, t')"
    using assms(1) by (simp add: audit_record_result_def Let_def u_def)
  from audit_store_get(1) [OF this] show ?thesis by (simp add: u_def)
qed

theorem refused_result_is_recorded_accepted_witness:
  "\<exists>a. audit_get (snd (audit_record_result example_params example_trail example_submission
      (BrokerResult (toss_result [])))) (au_audit_id example_submission) = Some a \<and> au_status a = ''ACCEPTED''"
  by (rule refused_result_is_recorded_accepted [OF prod.collapse [symmetric]]) code_simp

end
