(* ===== verification/Gateway.thy ===== *)
theory Gateway
  imports Execution
begin

text \<open>
  \<open>execution.py\<close>, the \<open>ExecutionGateway\<close>: the policy gate in front of the paper engine. It
  refuses \<open>REAL_LIVE\<close>, makes execution idempotent by client order id through the order
  registry, and forwards what is left of an order to the matching engine.
\<close>

section \<open>State and operations\<close>

record gateway_state =
  gs_orders :: orders
  gs_account :: paper_account

text \<open>
  What the first half of \<open>execute\<close> decides: return a fill at once (a replay), or forward an
  order to the engine.
\<close>

datatype gateway_decision = Return fill | Forward paper_order

definition replay_fill :: "paper_order \<Rightarrow> order_record \<Rightarrow> decimal \<Rightarrow> fill" where
  "replay_fill ord existing price =
     \<lparr>fl_order_id = po_client_order_id ord, fl_symbol = po_symbol ord, fl_side = po_side ord,
      fl_quantity = or_filled_quantity existing, fl_price = price, fl_fee = 0, fl_tax = 0,
      fl_status = status_value (or_status existing)\<rparr>"

definition gateway_resolve ::
  "env_ctl \<Rightarrow> orders \<Rightarrow> paper_order \<Rightarrow> decimal \<Rightarrow> (gateway_decision \<times> orders) res" where
  "gateway_resolve ctl os ord price =
     (if get_current_mode ctl \<notin> {PAPER_SANDBOX, VIRTUAL_BACKTEST}
      then Inl (EnvironmentTransitionError
        ''REAL_LIVE execution requires an explicitly authorized broker adapter; paper gateway refuses it'')
      else
      res_bind (assert_skill_allowed ctl ''skill-virtual-matching-engine'') (\<lambda>_.
      if po_client_order_id ord = [] then Inl (ValueError ''client_order_id is required for idempotent execution'')
      else
      (case lifecycle_get os (po_client_order_id ord) of
         Some existing \<Rightarrow>
           if or_symbol existing \<noteq> po_symbol ord \<or> or_side existing \<noteq> side_value (po_side ord)
              \<or> or_quantity existing \<noteq> po_quantity ord
           then Inl (ValueError ''client_order_id already used with different order'')
           else if terminal (or_status existing) then Inr (Return (replay_fill ord existing price), os)
           else
             (let remaining = dsub (po_quantity ord) (or_filled_quantity existing) in
              if remaining \<le> 0 then Inr (Return (replay_fill ord existing price), os)
              else Inr (Forward (ord\<lparr>po_quantity := remaining\<rparr>), os))
       | None \<Rightarrow>
           res_bind (lifecycle_submit os (new_order (po_client_order_id ord) (po_symbol ord)
               (side_value (po_side ord)) (po_quantity ord))) (\<lambda>(_, os').
           Inr (Forward ord, os')))))"

text \<open>
  The whole handler. A call that raises in the engine or in the registry keeps what was changed
  before: the state is returned beside the result.
\<close>

definition gateway_execute ::
  "env_ctl \<Rightarrow> matching_engine \<Rightarrow> gateway_state \<Rightarrow> paper_order \<Rightarrow> decimal \<Rightarrow> decimal option \<Rightarrow>
     fill res \<times> gateway_state" where
  "gateway_execute ctl eng st ord price avail =
     (case gateway_resolve ctl (gs_orders st) ord price of
        Inl e \<Rightarrow> (Inl e, st)
      | Inr (Return f, os) \<Rightarrow> (Inr f, st\<lparr>gs_orders := os\<rparr>)
      | Inr (Forward eff, os) \<Rightarrow>
          (case engine_execute eng (gs_account st) eff price avail of
             Inl e \<Rightarrow> (Inl e, st\<lparr>gs_orders := os\<rparr>)
           | Inr (f, acct) \<Rightarrow>
               if 0 < fl_quantity f then
                 (case lifecycle_fill os (po_client_order_id ord) (fl_quantity f) of
                    Inl e \<Rightarrow> (Inl e, st\<lparr>gs_orders := os, gs_account := acct\<rparr>)
                  | Inr (updated, os') \<Rightarrow>
                      (Inr (if or_status updated = FILLED \<and> fl_status f \<noteq> ''FILLED''
                            then f\<lparr>fl_status := ''FILLED''\<rparr> else f),
                       st\<lparr>gs_orders := os', gs_account := acct\<rparr>))
               else
                 (case lifecycle_cancel os (po_client_order_id ord) of
                    Inl e \<Rightarrow> (Inl e, st\<lparr>gs_orders := os, gs_account := acct\<rparr>)
                  | Inr (_, os') \<Rightarrow> (Inr f, st\<lparr>gs_orders := os', gs_account := acct\<rparr>))))"

definition gateway_cancel :: "gateway_state \<Rightarrow> string \<Rightarrow> order_record res \<times> gateway_state" where
  "gateway_cancel st cid =
     (case lifecycle_cancel (gs_orders st) cid of
        Inl e \<Rightarrow> (Inl e, st)
      | Inr (r, os) \<Rightarrow> (Inr r, st\<lparr>gs_orders := os\<rparr>))"

text \<open>Calls of the gateway, each under the mode the controller has at that moment.\<close>

datatype gateway_event =
    Execute env_ctl paper_order decimal "decimal option"
  | Cancel string

fun gateway_step :: "matching_engine \<Rightarrow> gateway_state \<Rightarrow> gateway_event \<Rightarrow> gateway_state" where
  "gateway_step eng st (Execute ctl ord price avail) = snd (gateway_execute ctl eng st ord price avail)"
| "gateway_step eng st (Cancel cid) = snd (gateway_cancel st cid)"

section \<open>What the gate decides\<close>

lemma gateway_resolve_Return:
  assumes "gateway_resolve ctl os ord price = Inr (Return f, os')"
  shows "os' = os \<and> (\<exists>r. dict_get os (po_client_order_id ord) = Some r \<and> f = replay_fill ord r price)"
  using assms
  by (auto simp: gateway_resolve_def res_bind_eq_Inr lifecycle_get_def Let_def split: if_splits option.splits prod.splits)

text \<open>
  The order the engine sees belongs to a record of the registry that is not terminal, and is the
  record's remaining quantity, or the whole order when it is new.
\<close>

definition forwards :: "orders \<Rightarrow> paper_order \<Rightarrow> paper_order \<Rightarrow> orders \<Rightarrow> order_record \<Rightarrow> bool" where
  "forwards os ord eff os' r =
     (dict_get os' (po_client_order_id ord) = Some r \<and> \<not> terminal (or_status r)
      \<and> or_symbol r = po_symbol ord \<and> or_side r = side_value (po_side ord) \<and> or_quantity r = po_quantity ord
      \<and> ((dict_get os (po_client_order_id ord) = Some r \<and> os' = os
            \<and> eff = ord\<lparr>po_quantity := dsub (or_quantity r) (or_filled_quantity r)\<rparr>)
         \<or> (dict_get os (po_client_order_id ord) = None \<and> os' = dict_set (po_client_order_id ord) r os \<and> eff = ord
            \<and> r = new_order (po_client_order_id ord) (po_symbol ord) (side_value (po_side ord)) (po_quantity ord))))"

lemma gateway_resolve_Forward:
  assumes "gateway_resolve ctl os ord price = Inr (Forward eff, os')"
  shows "\<exists>r. forwards os ord eff os' r" and "po_symbol eff = po_symbol ord" and "po_side eff = po_side ord"
    and "get_current_mode ctl \<noteq> REAL_LIVE" and "po_client_order_id ord \<noteq> []"
proof -
  have *: "get_current_mode ctl \<in> {PAPER_SANDBOX, VIRTUAL_BACKTEST}" "po_client_order_id ord \<noteq> []"
    using assms by (auto simp: gateway_resolve_def res_bind_eq_Inr split: if_splits)
  then show "get_current_mode ctl \<noteq> REAL_LIVE" "po_client_order_id ord \<noteq> []" by auto
  have "(\<exists>r. forwards os ord eff os' r) \<and> po_symbol eff = po_symbol ord \<and> po_side eff = po_side ord"
  proof (cases "dict_get os (po_client_order_id ord)")
    case None
    then show ?thesis
      using assms * by (auto simp: gateway_resolve_def res_bind_eq_Inr lifecycle_get_def forwards_def
          lifecycle_submit_def)
  next
    case (Some r)
    then have "forwards os ord eff os' r \<and> po_symbol eff = po_symbol ord \<and> po_side eff = po_side ord"
      using assms * by (auto simp: gateway_resolve_def res_bind_eq_Inr lifecycle_get_def forwards_def Let_def
          split: if_splits)
    then show ?thesis by blast
  qed
  then show "\<exists>r. forwards os ord eff os' r" "po_symbol eff = po_symbol ord" "po_side eff = po_side ord"
    by auto
qed

lemma forwards_orders_ok: "forwards os ord eff os' r \<Longrightarrow> orders_ok os \<Longrightarrow> orders_ok os'"
  by (auto simp: forwards_def intro!: orders_ok_set)

text \<open>The ways a call of \<open>execute\<close> ends.\<close>

lemma gateway_execute_cases [consumes 1, case_names refused replayed unmatched filled dropped]:
  assumes "gateway_execute ctl eng st ord price avail = (res, st')"
  obtains
    (refused) e where "res = Inl e" "st' = st"
  | (replayed) r where "dict_get (gs_orders st) (po_client_order_id ord) = Some r"
      "res = Inr (replay_fill ord r price)" "st' = st"
  | (unmatched) e eff os r where "forwards (gs_orders st) ord eff os r" "res = Inl e"
      "st' = st\<lparr>gs_orders := os\<rparr>"
  | (filled) eff os r f acct where "forwards (gs_orders st) ord eff os r"
      "po_symbol eff = po_symbol ord" "po_side eff = po_side ord"
      "engine_execute eng (gs_account st) eff price avail = Inr (f, acct)" "0 < fl_quantity f"
      "(case lifecycle_fill os (po_client_order_id ord) (fl_quantity f) of
          Inl e \<Rightarrow> res = Inl e \<and> st' = st\<lparr>gs_orders := os, gs_account := acct\<rparr>
        | Inr (u, os') \<Rightarrow> res = Inr (if or_status u = FILLED \<and> fl_status f \<noteq> ''FILLED''
              then f\<lparr>fl_status := ''FILLED''\<rparr> else f) \<and> st' = st\<lparr>gs_orders := os', gs_account := acct\<rparr>)"
  | (dropped) eff os r f where "forwards (gs_orders st) ord eff os r"
      "engine_execute eng (gs_account st) eff price avail = Inr (f, gs_account st)" "f = rejected_fill eff price"
      "res = Inr f"
      "st' = st\<lparr>gs_orders := dict_set (po_client_order_id ord) (r\<lparr>or_status := CANCELED\<rparr>) os\<rparr>"
proof (cases "gateway_resolve ctl (gs_orders st) ord price")
  case (Inl e)
  then show thesis using assms refused by (auto simp: gateway_execute_def)
next
  case rs: (Inr d)
  obtain dec os where d: "d = (dec, os)" by (cases d)
  show thesis
  proof (cases dec)
    case (Return f)
    from gateway_resolve_Return [OF rs [unfolded d Return]] obtain r
      where r: "os = gs_orders st" "dict_get (gs_orders st) (po_client_order_id ord) = Some r"
        "f = replay_fill ord r price" by blast
    have "res = Inr f" "st' = st" using assms rs d Return r(1) by (simp_all add: gateway_execute_def)
    then show thesis using r(3) by (intro replayed [OF r(2)]) simp_all
  next
    case (Forward eff)
    note fw = gateway_resolve_Forward [OF rs [unfolded d Forward]]
    obtain r where r: "forwards (gs_orders st) ord eff os r" using fw(1) by blast
    show thesis
    proof (cases "engine_execute eng (gs_account st) eff price avail")
      case (Inl e)
      then have "res = Inl e" "st' = st\<lparr>gs_orders := os\<rparr>"
        using assms rs d Forward
        by (simp_all add: gateway_execute_def)
      then show thesis by (rule unmatched [OF r])
    next
      case ex: (Inr fa)
      obtain f acct where fa: "fa = (f, acct)" by (cases fa)
      show thesis
      proof (cases "0 < fl_quantity f")
        case True
        show thesis
          by (rule filled [OF r fw(2,3) ex [unfolded fa] True])
            (use assms rs d Forward ex fa True in
              \<open>auto simp: gateway_execute_def split: sum.splits prod.splits\<close>)
      next
        case False
        have none: "acct = gs_account st \<and> f = rejected_fill eff price"
          by (rule engine_execute_cases [OF ex [unfolded fa]]) (use False in auto)
        have "lifecycle_cancel os (po_client_order_id ord) =
            Inr (r\<lparr>or_status := CANCELED\<rparr>, dict_set (po_client_order_id ord) (r\<lparr>or_status := CANCELED\<rparr>) os)"
          using r by (simp add: forwards_def lifecycle_cancel_eq_Inr)
        then have "res = Inr f \<and> st' = st\<lparr>gs_orders :=
            dict_set (po_client_order_id ord) (r\<lparr>or_status := CANCELED\<rparr>) os\<rparr>"
          using assms rs d Forward ex fa False none by (simp add: gateway_execute_def)
        then show thesis using dropped [OF r] ex fa none by blast
      qed
    qed
  qed
qed

end
