(* ===== verification/Gateway_Runs.thy ===== *)
theory Gateway_Runs
  imports Gateway
begin

text \<open>
  What every sequence of gateway calls keeps: the invariants of the registry and of the account,
  terminal orders, and the agreement between the positions of the account and the filled
  quantities of the registry.
\<close>

section \<open>Invariants of one call\<close>

lemma gateway_execute_orders_ok:
  assumes "gateway_execute ctl eng st ord price avail = (res, st')" and ok: "orders_ok (gs_orders st)"
  shows "orders_ok (gs_orders st')"
  using assms(1)
proof (cases rule: gateway_execute_cases)
  case (filled eff os r f acct)
  then show ?thesis
    using forwards_orders_ok [OF filled(1) ok] lifecycle_fill_ok
    by (cases "lifecycle_fill os (po_client_order_id ord) (fl_quantity f)") auto
next
  case (dropped eff os r f)
  note os = forwards_orders_ok [OF dropped(1) ok]
  have "dict_get os (po_client_order_id ord) = Some r" using dropped(1) by (simp add: forwards_def)
  then show ?thesis using dropped orders_okD [OF os] by (auto intro!: orders_ok_set [OF os] order_ok_cancel)
qed (use ok forwards_orders_ok in auto)

lemma gateway_execute_account_ok:
  assumes "gateway_execute ctl eng st ord price avail = (res, st')"
    and "rates_ok eng" and ok: "account_ok (gs_account st)"
  shows "account_ok (gs_account st')"
  using assms(1)
proof (cases rule: gateway_execute_cases)
  case (filled eff os r f acct)
  then show ?thesis
    using engine_execute_account_ok [OF ok assms(2) filled(4)]
    by (cases "lifecycle_fill os (po_client_order_id ord) (fl_quantity f)") auto
qed (use ok in auto)

lemma gateway_execute_other_orders:
  assumes "gateway_execute ctl eng st ord price avail = (res, st')" and "cid \<noteq> po_client_order_id ord"
  shows "dict_get (gs_orders st') cid = dict_get (gs_orders st) cid"
  using assms(1)
proof (cases rule: gateway_execute_cases)
  case (filled eff os r f acct)
  then show ?thesis
    using assms(2) by (cases "lifecycle_fill os (po_client_order_id ord) (fl_quantity f)")
      (auto simp: forwards_def lifecycle_fill_eq_Inr)
qed (use assms(2) in \<open>auto simp: forwards_def\<close>)

lemma gateway_execute_terminal:
  assumes "gateway_execute ctl eng st ord price avail = (res, st')"
    and "dict_get (gs_orders st) (po_client_order_id ord) = Some r" and "terminal (or_status r)"
  shows "st' = st"
  using assms(1)
  by (cases rule: gateway_execute_cases) (use assms(2,3) in \<open>auto simp: forwards_def\<close>)

lemma gateway_cancel_orders_ok:
  "orders_ok (gs_orders st) \<Longrightarrow> orders_ok (gs_orders (snd (gateway_cancel st cid)))"
  by (auto simp: gateway_cancel_def dest: lifecycle_cancel_ok split: sum.splits)

lemma gateway_cancel_account [simp]: "gs_account (snd (gateway_cancel st cid)) = gs_account st"
  by (auto simp: gateway_cancel_def split: sum.splits)

definition order_closed :: "order_record option \<Rightarrow> bool" where
  "order_closed x = (case x of None \<Rightarrow> False | Some r \<Rightarrow> terminal (or_status r))"

interpretation gw: step_stable "gateway_step eng" "\<lambda>st. orders_ok (gs_orders st)"
    "\<lambda>cid st. dict_get (gs_orders st) cid" order_closed for eng
proof
  fix st :: gateway_state and e
  assume ok: "orders_ok (gs_orders st)"
  show "orders_ok (gs_orders (gateway_step eng st e))"
    using ok gateway_execute_orders_ok [OF prod.collapse [symmetric] ok]
    by (cases e) (auto intro: gateway_cancel_orders_ok)
next
  fix st :: gateway_state and cid e
  assume ok: "orders_ok (gs_orders st)" and cl: "order_closed (dict_get (gs_orders st) cid)"
  then obtain r where r: "dict_get (gs_orders st) cid = Some r" "terminal (or_status r)"
    by (auto simp: order_closed_def split: option.splits)
  show "dict_get (gs_orders (gateway_step eng st e)) cid = dict_get (gs_orders st) cid"
  proof (cases e)
    case (Execute ctl ord price avail)
    then show ?thesis
      using r gateway_execute_terminal [OF prod.collapse [symmetric], where ctl = ctl and eng = eng and st = st
          and ord = ord and price = price and avail = avail]
        gateway_execute_other_orders [OF prod.collapse [symmetric], where ctl = ctl and eng = eng and st = st
          and ord = ord and price = price and avail = avail and cid = cid]
      by (cases "cid = po_client_order_id ord") auto
  next
    case (Cancel cid')
    then show ?thesis
      using r by (cases "lifecycle_cancel (gs_orders st) cid'")
        (auto simp: gateway_cancel_def lifecycle_cancel_eq_Inr split: if_splits)
  qed
qed

interpretation gw_account: step_invariant "gateway_step eng" "\<lambda>st. rates_ok eng \<and> account_ok (gs_account st)" for eng
proof
  fix st :: gateway_state and e
  assume "rates_ok eng \<and> account_ok (gs_account st)"
  then show "rates_ok eng \<and> account_ok (gs_account (gateway_step eng st e))"
    using gateway_execute_account_ok [OF prod.collapse [symmetric]] by (cases e) auto
qed

section \<open>Positions agree with the registry\<close>

text \<open>Signed filled quantity of one record and of all records of a symbol.\<close>

definition signed_filled :: "string \<Rightarrow> order_record \<Rightarrow> rat" where
  "signed_filled s r = (if or_symbol r \<noteq> s then 0
     else if or_side r = ''BUY'' then or_filled_quantity r else - or_filled_quantity r)"

definition net_filled :: "orders \<Rightarrow> string \<Rightarrow> rat" where
  "net_filled os s = sum_list (map (signed_filled s \<circ> snd) os)"

lemma net_filled_set:
  "dict_wf os \<Longrightarrow> net_filled (dict_set k r os) s =
     net_filled os s - (case dict_get os k of None \<Rightarrow> 0 | Some r' \<Rightarrow> signed_filled s r') + signed_filled s r"
  unfolding net_filled_def by (rule dict_sum_set)

text \<open>
  The range in which lots are exact: quantities with at most six places, orders below \<open>10^15\<close>,
  positions below \<open>10^21\<close>.
\<close>

definition orders_exact :: "orders \<Rightarrow> bool" where
  "orders_exact os = (\<forall>(cid, r) \<in> set os. amount 6 15 (or_quantity r) \<and> grid 6 (or_filled_quantity r))"

definition positions_exact :: "paper_account \<Rightarrow> bool" where
  "positions_exact a = (\<forall>(s, q) \<in> set (pa_positions a). amount 6 21 q)"

fun event_exact :: "gateway_event \<Rightarrow> bool" where
  "event_exact (Execute ctl ord price avail) =
     (amount 6 15 (po_quantity ord) \<and> (case avail of None \<Rightarrow> True | Some a \<Rightarrow> grid 6 a))"
| "event_exact (Cancel cid) = True"

lemma orders_exactD:
  "orders_exact os \<Longrightarrow> dict_get os k = Some r \<Longrightarrow> amount 6 15 (or_quantity r) \<and> grid 6 (or_filled_quantity r)"
  by (auto simp: orders_exact_def dest: dict_get_mem)

lemma orders_exact_set:
  "orders_exact os \<Longrightarrow> amount 6 15 (or_quantity r) \<Longrightarrow> grid 6 (or_filled_quantity r) \<Longrightarrow> orders_exact (dict_set k r os)"
  using set_dict_set_subset [of k r os] by (auto simp: orders_exact_def)

lemma position_amount: "positions_exact a \<Longrightarrow> amount 6 21 (position_of a s)"
  by (auto simp: positions_exact_def position_of_def dict_get_or_def amount_def
      split: option.splits dest: dict_get_mem)

lemma remaining_exact:
  assumes "order_ok r" and "amount 6 15 (or_quantity r)" and "grid 6 (or_filled_quantity r)"
  shows "dsub (or_quantity r) (or_filled_quantity r) = or_quantity r - or_filled_quantity r"
    and "amount 6 15 (or_quantity r - or_filled_quantity r)"
proof -
  show a: "amount 6 15 (or_quantity r - or_filled_quantity r)"
    using assms by (auto simp: amount_def order_ok_def grid_diff)
  show "dsub (or_quantity r) (or_filled_quantity r) = or_quantity r - or_filled_quantity r"
    unfolding dsub_def by (rule fix28_amount [OF a]) simp
qed

text \<open>The order forwarded to the engine carries the remaining quantity of its record.\<close>

lemma forwards_remaining:
  assumes fw: "forwards os ord eff os' r" and ok: "orders_ok os" "orders_exact os" and q: "amount 6 15 (po_quantity ord)"
  shows "orders_ok os'" and "orders_exact os'" and "order_ok r" and "net_filled os' s = net_filled os s"
    and "po_quantity eff = or_quantity r - or_filled_quantity r"
    and "amount 6 15 (or_quantity r)" and "grid 6 (or_filled_quantity r)"
proof -
  show os': "orders_ok os'" by (rule forwards_orders_ok [OF fw ok(1)])
  have get: "dict_get os' (po_client_order_id ord) = Some r" using fw by (simp add: forwards_def)
  then show r: "order_ok r" using orders_okD [OF os'] by blast
  show ex: "orders_exact os'"
    using fw ok(2) q by (auto simp: forwards_def intro: orders_exact_set)
  show am: "amount 6 15 (or_quantity r)" "grid 6 (or_filled_quantity r)" using orders_exactD [OF ex get] by auto
  show "po_quantity eff = or_quantity r - or_filled_quantity r"
    using fw remaining_exact [OF r am] by (auto simp: forwards_def)
  show "net_filled os' s = net_filled os s"
    using fw ok(1) by (auto simp: forwards_def net_filled_set orders_ok_def signed_filled_def)
qed

lemma engine_qty_exact:
  assumes "me_max_fill_ratio eng = 1" and "amount 6 15 (po_quantity eff)"
    and "case avail of None \<Rightarrow> True | Some a \<Rightarrow> grid 6 a"
  shows "grid 6 (engine_fill_qty eng eff avail)" and "engine_fill_qty eng eff avail \<le> po_quantity eff"
proof -
  have "fix28 (po_quantity eff) = po_quantity eff" by (rule fix28_amount [OF assms(2)]) simp
  then show "grid 6 (engine_fill_qty eng eff avail)" "engine_fill_qty eng eff avail \<le> po_quantity eff"
    using assms by (auto simp: engine_fill_qty_def Let_def dmul_def amount_def min_def split: option.splits)
qed

lemma position_change:
  assumes "engine_execute eng acct eff price avail = Inr (f, acct')" and "0 < fl_quantity f"
    and "positions_exact acct" and "grid 6 (fl_quantity f)" and "fl_quantity f < 10 ^ 15"
  shows "position_of acct' s = position_of acct s
    + (if s \<noteq> po_symbol eff then 0 else if po_side eff = BUY then fl_quantity f else - fl_quantity f)"
proof -
  let ?p = "position_of acct (po_symbol eff)" and ?q = "fl_quantity f"
  have p: "grid 6 ?p" "\<bar>?p\<bar> < 10 ^ 21" using position_amount [OF assms(3)] by (auto simp: amount_def)
  have "fix28 (?p + ?q) = ?p + ?q" "fix28 (?p - ?q) = ?p - ?q"
    using p assms(2,4,5) by (intro fix28_amount [of 6 22]; auto simp: amount_def grid_add grid_diff)+
  then show ?thesis
    using assms(2)
    by (cases rule: engine_execute_cases [OF assms(1)])
      (auto simp: settle_buy_eq_Inr settle_sell_eq_Inr dadd_def [of "position_of _ _"] dsub_def [of "position_of _ _"])
qed

text \<open>One call: no error once the account has moved, and positions move with the registry.\<close>

lemma gateway_execute_exact:
  assumes ex: "gateway_execute ctl eng st ord price avail = (res, st')"
    and ratio: "me_max_fill_ratio eng = 1"
    and ok: "orders_ok (gs_orders st)" "orders_exact (gs_orders st)" "positions_exact (gs_account st)"
    and ev: "event_exact (Execute ctl ord price avail)"
  shows "orders_exact (gs_orders st')
    \<and> (\<forall>s. position_of (gs_account st') s - position_of (gs_account st) s
            = net_filled (gs_orders st') s - net_filled (gs_orders st) s)
    \<and> (\<forall>e. res = Inl e \<longrightarrow> gs_account st' = gs_account st)"
  using ex
proof (cases rule: gateway_execute_cases)
  case (unmatched e eff os r)
  then show ?thesis
    using forwards_remaining [OF unmatched(1) ok(1,2)] ev by simp
next
  case (dropped eff os r f)
  note fw = forwards_remaining [OF dropped(1) ok(1,2)]
  have get: "dict_get os (po_client_order_id ord) = Some r" using dropped(1) by (simp add: forwards_def)
  show ?thesis
    using dropped fw ev get by (auto simp: net_filled_set orders_ok_def signed_filled_def intro!: orders_exact_set)
next
  case (filled eff os r f acct)
  define cid where "cid = po_client_order_id ord"
  define q where "q = fl_quantity f"
  have av: "amount 6 15 (po_quantity ord)" "case avail of None \<Rightarrow> True | Some a \<Rightarrow> grid 6 a"
    using ev by auto
  note fw = forwards_remaining [OF filled(1) ok(1,2) av(1)]
  have get: "dict_get os cid = Some r" using filled(1) by (simp add: forwards_def cid_def)
  have eff: "amount 6 15 (po_quantity eff)"
    unfolding fw(5) by (rule remaining_exact(2) [OF fw(3,6,7)])
  have q: "q = engine_fill_qty eng eff avail" "0 < q"
    using filled(5) unfolding q_def by (cases rule: engine_execute_cases [OF filled(4)]; simp)+
  have qg: "grid 6 q" "q \<le> or_quantity r - or_filled_quantity r"
    using engine_qty_exact [OF ratio eff av(2)] q fw(5) by auto
  have q15: "q < 10 ^ 15" using qg(2) eff fw(5) by (auto simp: amount_def)
  have sum: "dadd (or_filled_quantity r) q = or_filled_quantity r + q"
    unfolding dadd_def using fw(3,6,7) qg q(2)
    by (intro fix28_amount [of 6 15]) (auto simp: amount_def grid_add order_ok_def)
  define u where "u = r\<lparr>or_filled_quantity := or_filled_quantity r + q,
    or_status := (if or_filled_quantity r + q = or_quantity r then FILLED else PARTIALLY_FILLED)\<rparr>"
  have "lifecycle_fill os cid q = Inr (u, dict_set cid u os)"
    unfolding lifecycle_fill_eq_Inr using get q(2) qg(2) by (intro exI [of _ r]) (simp add: sum u_def)
  then have st': "gs_orders st' = dict_set cid u os" "gs_account st' = acct" "\<And>e. res \<noteq> Inl e"
    using filled(6) by (auto simp: cid_def q_def)
  have side: "or_side r = side_value (po_side ord)" "or_symbol r = po_symbol ord"
    using filled(1) by (simp_all add: forwards_def)
  have dwf: "dict_wf os" using fw(1) by (simp add: orders_ok_def)
  have "net_filled (gs_orders st') s - net_filled (gs_orders st) s
      = (if s \<noteq> po_symbol eff then 0 else if po_side eff = BUY then q else - q)" for s
    using get fw(4) [of s] side filled(2,3)
    by (cases "po_side ord") (auto simp: st' net_filled_set [OF dwf] signed_filled_def u_def)
  moreover have "position_of acct s - position_of (gs_account st) s
      = (if s \<noteq> po_symbol eff then 0 else if po_side eff = BUY then q else - q)" for s
    using position_change [OF filled(4,5) ok(3)] qg(1) q15 by (simp add: q_def)
  moreover have "orders_exact (dict_set cid u os)"
    using fw(2,6,7) qg(1) by (intro orders_exact_set) (auto simp: u_def grid_add)
  ultimately show ?thesis using st' by simp
qed (use ok in auto)

text \<open>The run stays in the exact range.\<close>

fun run_exact :: "matching_engine \<Rightarrow> gateway_state \<Rightarrow> gateway_event list \<Rightarrow> bool" where
  "run_exact eng st [] = True"
| "run_exact eng st (e # es) =
     (positions_exact (gs_account st) \<and> event_exact e \<and> run_exact eng (gateway_step eng st e) es)"

lemma gateway_cancel_exact:
  assumes ok: "orders_ok (gs_orders st)" "orders_exact (gs_orders st)"
  shows "orders_exact (gs_orders (snd (gateway_cancel st cid)))"
    and "net_filled (gs_orders (snd (gateway_cancel st cid))) s = net_filled (gs_orders st) s"
proof -
  have "orders_exact (gs_orders (snd (gateway_cancel st cid)))
    \<and> net_filled (gs_orders (snd (gateway_cancel st cid))) s = net_filled (gs_orders st) s"
  proof (cases "lifecycle_cancel (gs_orders st) cid")
    case (Inl e)
    then show ?thesis using ok by (simp add: gateway_cancel_def)
  next
    case (Inr p)
    obtain u os where p: "p = (u, os)" by (cases p)
    obtain r where r: "dict_get (gs_orders st) cid = Some r"
      "if terminal (or_status r) then u = r \<and> os = gs_orders st
       else u = r\<lparr>or_status := CANCELED\<rparr> \<and> os = dict_set cid u (gs_orders st)"
      using Inr p by (auto simp: lifecycle_cancel_eq_Inr)
    show ?thesis
      using r ok orders_exactD [OF ok(2) r(1)] Inr p
      by (auto simp: gateway_cancel_def net_filled_set orders_ok_def signed_filled_def
          intro!: orders_exact_set split: if_splits)
  qed
  then show "orders_exact (gs_orders (snd (gateway_cancel st cid)))"
    "net_filled (gs_orders (snd (gateway_cancel st cid))) s = net_filled (gs_orders st) s" by auto
qed

lemma gateway_run_reconciles:
  assumes "me_max_fill_ratio eng = 1" and "orders_ok (gs_orders st)" and "orders_exact (gs_orders st)"
    and "run_exact eng st es"
  shows "position_of (gs_account (foldl (gateway_step eng) st es)) s - position_of (gs_account st) s
    = net_filled (gs_orders (foldl (gateway_step eng) st es)) s - net_filled (gs_orders st) s"
  using assms(2-)
proof (induction es arbitrary: st)
  case (Cons e es)
  let ?st = "gateway_step eng st e"
  have ok': "orders_ok (gs_orders ?st)" by (rule gw.step_inv [OF Cons.prems(1)])
  have "orders_exact (gs_orders ?st) \<and> position_of (gs_account ?st) s - position_of (gs_account st) s
      = net_filled (gs_orders ?st) s - net_filled (gs_orders st) s"
  proof (cases e)
    case (Execute ctl ord price avail)
    then show ?thesis
      using gateway_execute_exact [OF prod.collapse [symmetric] assms(1) Cons.prems(1,2), where ctl = ctl
          and ord = ord and price = price and avail = avail]
        Cons.prems(3) by simp
  next
    case (Cancel cid)
    then show ?thesis using gateway_cancel_exact [OF Cons.prems(1,2)] by simp
  qed
  then show ?case using Cons.IH [OF ok'] Cons.prems(3) by fastforce
qed simp

section \<open>Replays\<close>

text \<open>A completely filled new order leaves a closed record of the whole quantity.\<close>

lemma new_order_filled:
  assumes ex: "gateway_execute ctl eng st ord price avail = (Inr f, st')"
    and new: "dict_get (gs_orders st) (po_client_order_id ord) = None"
    and f: "fl_status f = ''FILLED''" and q: "fix28 (po_quantity ord) = po_quantity ord"
  shows "\<exists>r. dict_get (gs_orders st') (po_client_order_id ord) = Some r \<and> or_status r = FILLED
    \<and> or_symbol r = po_symbol ord \<and> or_side r = side_value (po_side ord) \<and> or_quantity r = po_quantity ord
    \<and> or_filled_quantity r = po_quantity ord"
  using ex
proof (cases rule: gateway_execute_cases)
  case (filled eff os r f0 acct)
  let ?cid = "po_client_order_id ord" and ?q = "fl_quantity f0"
  have r: "dict_get os ?cid = Some r" "eff = ord"
    "r = new_order ?cid (po_symbol ord) (side_value (po_side ord)) (po_quantity ord)"
    using filled(1) new by (auto simp: forwards_def)
  obtain u os' where u: "lifecycle_fill os ?cid ?q = Inr (u, os')"
    using filled(6) by (cases "lifecycle_fill os ?cid ?q") auto
  then have st': "gs_orders st' = os'" "f = (if or_status u = FILLED \<and> fl_status f0 \<noteq> ''FILLED''
      then f0\<lparr>fl_status := ''FILLED''\<rparr> else f0)" using filled(6) by auto
  have "fix28 ?q = po_quantity ord"
  proof (cases "or_status u = FILLED")
    case True
    then show ?thesis using u r by (auto simp: lifecycle_fill_eq_Inr dadd_def split: if_splits)
  next
    case False
    then have "fl_status f0 = ''FILLED''" using st'(2) f by simp
    then have "?q = po_quantity ord"
      using r(2) by (cases rule: engine_execute_cases [OF filled(4)]) (auto split: if_splits)
    then show ?thesis using q by simp
  qed
  then show ?thesis using u r by (auto simp: lifecycle_fill_eq_Inr dadd_def st'(1))
qed (use new f in auto)

lemma closed_order_replayed:
  assumes r: "dict_get (gs_orders st) (po_client_order_id ord) = Some r" "terminal (or_status r)"
    and same: "or_symbol r = po_symbol ord" "or_side r = side_value (po_side ord)" "or_quantity r = po_quantity ord"
    and "po_client_order_id ord \<noteq> []" and mode: "get_current_mode ctl \<noteq> REAL_LIVE"
  shows "gateway_execute ctl eng st ord price avail = (Inr (replay_fill ord r price), st)"
proof -
  have "assert_skill_allowed ctl ''skill-virtual-matching-engine'' = Inr ()"
    and "get_current_mode ctl \<in> {PAPER_SANDBOX, VIRTUAL_BACKTEST}"
    using mode by (cases "ec_mode ctl"; simp add: assert_skill_allowed_def is_skill_allowed_def get_current_mode_def)+
  then show ?thesis
    using assms by (simp add: gateway_execute_def gateway_resolve_def lifecycle_get_def)
qed

section \<open>Properties\<close>

text \<open>
  (C12) A closed order is final: once an order is filled, canceled or rejected in the registry, no
  sequence of executions and cancellations, under any modes, prices and liquidity, changes its
  record again.
\<close>

theorem closed_orders_are_final:
  assumes "orders_ok (gs_orders st)" and "dict_get (gs_orders st) cid = Some r" and "terminal (or_status r)"
  shows "dict_get (gs_orders (foldl (gateway_step eng) st es)) cid = Some r"
  using gw.run_final [of st cid eng es] assms by (simp add: order_closed_def)

definition example_state :: gateway_state where
  "example_state = \<lparr>gs_orders = [], gs_account = example_account\<rparr>"

definition example_calls :: "gateway_event list" where
  "example_calls = [Execute (example_ctl PAPER_SANDBOX) (example_order BUY MARKET) 70000 (Some (5/2)),
     Execute (example_ctl REAL_LIVE) (example_order BUY MARKET) 70000 None,
     Execute (example_ctl PAPER_SANDBOX) (example_order BUY MARKET) 71000 None,
     Execute (example_ctl VIRTUAL_BACKTEST) ((example_order SELL LIMIT)\<lparr>po_client_order_id := ''c2''\<rparr>) 72000 (Some 0),
     Cancel ''c1'']"

theorem closed_orders_are_final_witness:
  "dict_get (gs_orders (foldl (gateway_step default_engine)
      (foldl (gateway_step default_engine) example_state example_calls) example_calls)) ''c1''
   = Some \<lparr>or_client_order_id = ''c1'', or_symbol = ''005930'', or_side = ''BUY'', or_quantity = 4,
       or_filled_quantity = 4, or_status = FILLED\<rparr>"
proof (rule closed_orders_are_final)
  show "orders_ok (gs_orders (foldl (gateway_step default_engine) example_state example_calls))"
    by (rule gw.run_inv) (simp add: example_state_def)
  show "dict_get (gs_orders (foldl (gateway_step default_engine) example_state example_calls)) ''c1''
   = Some \<lparr>or_client_order_id = ''c1'', or_symbol = ''005930'', or_side = ''BUY'', or_quantity = 4,
       or_filled_quantity = 4, or_status = FILLED\<rparr>" by code_simp
qed simp

text \<open>
  (C1) Positions reconcile with the order registry: over any sequence of gateway calls that stays in
  the exact range (six decimal places, orders below 10^15, positions below 10^21, full fill ratio),
  the change of a position is the filled quantity of the symbol's purchases minus that of its
  sales. No call moves the account without recording it, and none records what did not move it.
\<close>

theorem positions_reconcile_with_orders:
  assumes "me_max_fill_ratio eng = 1" and "orders_ok (gs_orders st)" and "orders_exact (gs_orders st)"
    and "run_exact eng st es"
  shows "position_of (gs_account (foldl (gateway_step eng) st es)) s - position_of (gs_account st) s
    = net_filled (gs_orders (foldl (gateway_step eng) st es)) s - net_filled (gs_orders st) s"
  by (rule gateway_run_reconciles [OF assms])

theorem positions_reconcile_with_orders_witness:
  "position_of (gs_account (foldl (gateway_step default_engine) example_state example_calls)) ''005930''
     - position_of (gs_account example_state) ''005930''
   = net_filled (gs_orders (foldl (gateway_step default_engine) example_state example_calls)) ''005930''
     - net_filled (gs_orders example_state) ''005930''
   \<and> position_of (gs_account (foldl (gateway_step default_engine) example_state example_calls)) ''005930'' = 8"
proof
  show "position_of (gs_account (foldl (gateway_step default_engine) example_state example_calls)) ''005930'' = 8"
    by code_simp
next
  show "position_of (gs_account (foldl (gateway_step default_engine) example_state example_calls)) ''005930''
     - position_of (gs_account example_state) ''005930''
   = net_filled (gs_orders (foldl (gateway_step default_engine) example_state example_calls)) ''005930''
     - net_filled (gs_orders example_state) ''005930''"
  proof (rule positions_reconcile_with_orders)
    show "me_max_fill_ratio default_engine = 1" by code_simp
    show "orders_ok (gs_orders example_state)" by (simp add: example_state_def)
    show "orders_exact (gs_orders example_state)" by code_simp
    show "run_exact default_engine example_state example_calls" by code_simp
  qed
qed

text \<open>
  (C15) A failed execution does not move money: in the exact range, a call of the gateway that
  raises, for whatever reason and in whichever mode, leaves the paper account as it was.
\<close>

theorem failed_execution_keeps_account:
  assumes "gateway_execute ctl eng st ord price avail = (Inl e, st')"
    and "me_max_fill_ratio eng = 1" and "orders_ok (gs_orders st)" and "orders_exact (gs_orders st)"
    and "positions_exact (gs_account st)" and "event_exact (Execute ctl ord price avail)"
  shows "gs_account st' = gs_account st"
  using gateway_execute_exact [OF assms] by blast

theorem failed_execution_keeps_account_witness:
  "gs_account (snd (gateway_execute (example_ctl PAPER_SANDBOX) default_engine example_state
     (example_order BUY MARKET) 7000000 None)) = gs_account example_state"
proof (rule failed_execution_keeps_account)
  show "gateway_execute (example_ctl PAPER_SANDBOX) default_engine example_state (example_order BUY MARKET) 7000000 None
    = (Inl (ValueError ''insufficient paper cash''), snd (gateway_execute (example_ctl PAPER_SANDBOX) default_engine
        example_state (example_order BUY MARKET) 7000000 None))" by code_simp
qed code_simp+

text \<open>
  (C16) Execution is idempotent by client order id: after a new order was filled completely, the
  same order executed again, at any price and liquidity and in any paper mode, changes nothing and
  returns a fill of the original quantity with no fee and no tax.
\<close>

theorem refill_is_replayed:
  assumes ex: "gateway_execute ctl eng st ord price avail = (Inr f, st')"
    and new: "dict_get (gs_orders st) (po_client_order_id ord) = None"
    and f: "fl_status f = ''FILLED''" and q: "fix28 (po_quantity ord) = po_quantity ord"
    and mode: "get_current_mode ctl' \<noteq> REAL_LIVE"
  shows "\<exists>g. gateway_execute ctl' eng st' ord price' avail' = (Inr g, st')
    \<and> fl_quantity g = po_quantity ord \<and> fl_fee g = 0 \<and> fl_tax g = 0 \<and> fl_status g = ''FILLED''"
proof -
  obtain r where r: "dict_get (gs_orders st') (po_client_order_id ord) = Some r" "or_status r = FILLED"
    "or_symbol r = po_symbol ord" "or_side r = side_value (po_side ord)" "or_quantity r = po_quantity ord"
    "or_filled_quantity r = po_quantity ord"
    using new_order_filled [OF ex new f q] by blast
  have "po_client_order_id ord \<noteq> []" using ex
    by (cases "assert_skill_allowed ctl ''skill-virtual-matching-engine''")
      (auto simp: gateway_execute_def gateway_resolve_def split: if_splits)
  from closed_order_replayed [OF r(1) _ r(3-5) this mode] show ?thesis
    using r(2,6) by (simp add: replay_fill_def)
qed

theorem refill_is_replayed_witness:
  "gateway_execute (example_ctl VIRTUAL_BACKTEST) default_engine
     (snd (gateway_execute (example_ctl PAPER_SANDBOX) default_engine example_state (example_order BUY MARKET) 70000 None))
     (example_order BUY MARKET) 99999 None
   = (Inr (replay_fill (example_order BUY MARKET) (\<lparr>or_client_order_id = ''c1'', or_symbol = ''005930'',
        or_side = ''BUY'', or_quantity = 4, or_filled_quantity = 4, or_status = FILLED\<rparr>) 99999),
      snd (gateway_execute (example_ctl PAPER_SANDBOX) default_engine example_state (example_order BUY MARKET) 70000 None))"
    (is "?second = (Inr ?g, ?st)")
proof -
  have "\<exists>g. ?second = (Inr g, ?st) \<and> fl_quantity g = po_quantity (example_order BUY MARKET)
      \<and> fl_fee g = 0 \<and> fl_tax g = 0 \<and> fl_status g = ''FILLED''"
  proof (rule refill_is_replayed)
    show "gateway_execute (example_ctl PAPER_SANDBOX) default_engine example_state (example_order BUY MARKET) 70000 None
      = (Inr (fst (example_result BUY MARKET)), ?st)" by code_simp
    show "dict_get (gs_orders example_state) (po_client_order_id (example_order BUY MARKET)) = None" by code_simp
    show "fl_status (fst (example_result BUY MARKET)) = ''FILLED''" by code_simp
    show "fix28 (po_quantity (example_order BUY MARKET)) = po_quantity (example_order BUY MARKET)" by code_simp
    show "get_current_mode (example_ctl VIRTUAL_BACKTEST) \<noteq> REAL_LIVE" by code_simp
  qed
  moreover have "fst ?second = Inr ?g" by code_simp
  ultimately show ?thesis by (metis fst_conv)
qed

end
