(* ===== verification/Trade_Facade.thy ===== *)
theory Trade_Facade
  imports Execution_Audit Gateway_Runs
begin

text \<open>
  \<open>trade_facade.py\<close>: the internal trade surface \<open>InternalTradeFacade\<close>, from an intent or a
  portfolio row through the risk gates to the paper gateway or a live broker, with its audit trail.

  The risk guardian, the gateway's engine and the facade share one controller and one account, as
  everywhere in the repository: the account is the one in the gateway's state. The clock, the
  fresh identifiers, the environment and the network of a call are in \<open>call_env\<close>.
\<close>

section \<open>State\<close>

record facade =
  fc_ctl :: env_ctl
  fc_risk :: risk_guardian
  fc_engine :: matching_engine
  fc_gateway :: gateway_state
  fc_router :: "broker_router option"
  fc_order_gate :: "order_gate option"
  fc_secrets :: "secret_broker option"
  fc_secret_ids :: "(string, string) dict"
  fc_currency :: string
  fc_audit :: "audit_trail option"
  fc_previews :: "(string, order_preview) dict"

text \<open>
  What a call reads from outside: \<open>ce_uuid\<close> is the fresh \<open>uuid4().hex[:16]\<close>, \<open>ce_now\<close> and
  \<open>ce_now2\<close> the clock at the first and the second check of the approval.
\<close>

record call_env =
  ce_params :: audit_params
  ce_uuid :: string
  ce_now :: int
  ce_now2 :: int
  ce_live :: "string option"
  ce_net :: toss_net
  ce_json_loads :: "string \<Rightarrow> py_value option"

abbreviation ce_show :: "call_env \<Rightarrow> decimal \<Rightarrow> string" where
  "ce_show ce \<equiv> ap_show_dec (ce_params ce)"

section \<open>Orders from intents\<close>

definition to_paper_order :: "string \<Rightarrow> order_intent \<Rightarrow> paper_order res" where
  "to_paper_order uuid i =
     res_bind (normalized_side i) (\<lambda>side.
     res_bind (normalized_order_type i) (\<lambda>t.
     Inr \<lparr>po_symbol = oi_symbol i, po_side = side, po_quantity = oi_quantity i, po_order_type = t,
          po_limit_price = oi_price i,
          po_client_order_id = (if oi_client_order_id i \<noteq> [] then oi_client_order_id i else ''paper-'' @ uuid)\<rparr>))"

definition to_broker_order :: "order_intent \<Rightarrow> broker_order res" where
  "to_broker_order i =
     res_bind (normalized_side i) (\<lambda>side.
     res_bind (normalized_order_type i) (\<lambda>t.
     Inr \<lparr>bo_symbol = oi_symbol i, bo_side = side_value side, bo_quantity = oi_quantity i,
          bo_order_type = order_type_value t, bo_price = oi_price i\<rparr>))"

definition estimate_notional :: "order_intent \<Rightarrow> decimal \<Rightarrow> decimal" where
  "estimate_notional i ref_price = dmul (oi_quantity i) (case oi_price i of None \<Rightarrow> ref_price | Some p \<Rightarrow> p)"

section \<open>Risk assessment and preview\<close>

definition risk_decision :: "facade \<Rightarrow> paper_order \<Rightarrow> decimal \<Rightarrow> portfolio_context option \<Rightarrow> unit res" where
  "risk_decision fc ord ref_price ctxt =
     (case ctxt of
        None \<Rightarrow> approve (fc_ctl fc) (gs_account (fc_gateway fc)) (fc_risk fc) ord ref_price None
      | Some c \<Rightarrow> approve_portfolio (fc_ctl fc) (gs_account (fc_gateway fc)) (fc_risk fc) ord ref_price c)"

definition assess_risk ::
  "facade \<Rightarrow> string \<Rightarrow> order_intent \<Rightarrow> decimal \<Rightarrow> portfolio_context option \<Rightarrow> risk_assessment res" where
  "assess_risk fc uuid i ref_price ctxt =
     res_bind (to_paper_order uuid i) (\<lambda>ord.
     (case risk_decision fc ord ref_price ctxt of
        Inr _ \<Rightarrow> Inr \<lparr>ra_approved = True, ra_level = ''PASS'', ra_violations = []\<rparr>
      | Inl e \<Rightarrow>
          if is_permission_error e \<or> is_value_error e
          then Inr \<lparr>ra_approved = False, ra_level = ''REJECT'', ra_violations = [err_message e]\<rparr>
          else Inl e))"

definition preview_message :: "risk_assessment \<Rightarrow> bool \<Rightarrow> string" where
  "preview_message risk requires_approval =
     (if ra_approved risk
      then (if requires_approval then ''REAL_LIVE requires approval_id; call submit with order approval.''
            else ''Risk passed; submit without approval_id on paper/virtual path.'')
      else ''Risk rejected; submit will fail until limits are adjusted.'')"

definition facade_preview ::
  "call_env \<Rightarrow> facade \<Rightarrow> order_intent \<Rightarrow> decimal \<Rightarrow> portfolio_context option \<Rightarrow> order_preview res \<times> facade" where
  "facade_preview ce fc i ref_price ctxt =
     (if oi_quantity i \<le> 0 then (Inl (ValueError ''quantity must be positive''), fc)
      else if ref_price \<le> 0 \<and> oi_price i = None
      then (Inl (ValueError ''reference_price or limit price is required''), fc)
      else
        let px = (if 0 < ref_price then ref_price else (case oi_price i of None \<Rightarrow> 0 | Some p \<Rightarrow> p));
            mode = get_current_mode (fc_ctl fc)
        in case assess_risk fc (ce_uuid ce) i px ctxt of
          Inl e \<Rightarrow> (Inl e, fc)
        | Inr risk \<Rightarrow>
            let requires_approval = (mode = REAL_LIVE);
                preview_id = ''prv-'' @ ce_uuid ce;
                preview = \<lparr>op_intent = i, op_estimated_notional = estimate_notional i px,
                  op_currency = fc_currency fc, op_risk = risk, op_requires_approval = requires_approval,
                  op_preview_id = preview_id, op_mode = mode_value mode,
                  op_message = preview_message risk requires_approval\<rparr>
            in (Inr preview, fc\<lparr>fc_previews := dict_set preview_id preview (fc_previews fc)\<rparr>))"

section \<open>Portfolio rows\<close>

definition preview_portfolio_row ::
  "call_env \<Rightarrow> facade \<Rightarrow> row \<Rightarrow> paper_account \<Rightarrow> (string, decimal) dict \<Rightarrow> (string, string) dict \<Rightarrow>
     string \<Rightarrow> string \<Rightarrow> decimal \<Rightarrow> order_preview option res \<times> facade" where
  "preview_portfolio_row ce fc r acct prices markets broker order_type lot_size =
     (let symb = row_symbol (ce_show ce) r in
      case res_bind (build_risk_context acct prices markets (Some symb)) (\<lambda>snap.
           res_bind (intent_from_portfolio_row (ce_show ce) r (pc_account_value (rs_context snap))
               (position_of acct symb) broker order_type lot_size) (\<lambda>i. Inr (snap, i))) of
        Inl e \<Rightarrow> (Inl e, fc)
      | Inr (snap, None) \<Rightarrow> (Inr None, fc)
      | Inr (snap, Some i) \<Rightarrow>
          (case facade_preview ce fc i (dict_get_or prices (oi_symbol i) 0) (Some (rs_context snap)) of
             (res, fc') \<Rightarrow> (map_sum id Some res, fc')))"

definition revalidated_intent ::
  "call_env \<Rightarrow> row \<Rightarrow> paper_account \<Rightarrow> (string, decimal) dict \<Rightarrow> (string, string) dict \<Rightarrow> string \<Rightarrow> string \<Rightarrow>
     decimal \<Rightarrow> (risk_snapshot \<times> order_intent option \<times> decimal) res" where
  "revalidated_intent ce r acct latest_prices markets broker order_type lot_size =
     (let symb = row_symbol (ce_show ce) r in
      if symb = [] then Inl (ValueError ''portfolio row symbol is required'')
      else case dict_get latest_prices symb of
        None \<Rightarrow> Inl (ValueError (''missing latest price for target symbol: '' @ symb))
      | Some latest \<Rightarrow>
          if latest \<le> 0 then Inl (ValueError (''latest price must be positive: '' @ symb))
          else res_bind (build_risk_context acct latest_prices markets (Some symb)) (\<lambda>snap.
               res_bind (intent_from_portfolio_row (ce_show ce) (dict_set ''close'' (PStr (ce_show ce latest)) r)
                   (pc_account_value (rs_context snap)) (position_of acct symb) broker order_type lot_size) (\<lambda>i.
               Inr (snap, i, latest))))"

definition revalidate_portfolio_row ::
  "call_env \<Rightarrow> facade \<Rightarrow> row \<Rightarrow> paper_account \<Rightarrow> (string, decimal) dict \<Rightarrow> (string, string) dict \<Rightarrow>
     string \<Rightarrow> string \<Rightarrow> decimal \<Rightarrow> revalidation res \<times> facade" where
  "revalidate_portfolio_row ce fc r acct latest_prices markets broker order_type lot_size =
     (case revalidated_intent ce r acct latest_prices markets broker order_type lot_size of
        Inl e \<Rightarrow> (Inl e, fc)
      | Inr (snap, None, _) \<Rightarrow> (Inr \<lparr>rv_snapshot = snap, rv_intent = None, rv_preview = None\<rparr>, fc)
      | Inr (snap, Some i, latest) \<Rightarrow>
          (case facade_preview ce fc i latest (Some (rs_context snap)) of
             (Inl e, fc') \<Rightarrow> (Inl e, fc')
           | (Inr p, fc') \<Rightarrow> (Inr \<lparr>rv_snapshot = snap, rv_intent = Some i, rv_preview = Some p\<rparr>, fc')))"

text \<open>The loop of \<open>preflight_portfolio\<close>; each row has its own fresh identifiers in \<open>ce\<close>.\<close>

fun preflight_rows ::
  "(nat \<Rightarrow> call_env) \<Rightarrow> paper_account \<Rightarrow> (string, decimal) dict \<Rightarrow> (string, string) dict \<Rightarrow> string \<Rightarrow> string \<Rightarrow>
     decimal \<Rightarrow> nat \<Rightarrow> row list \<Rightarrow> revalidation list \<Rightarrow> (row \<times> string) list \<Rightarrow> facade \<Rightarrow>
     (revalidation list \<times> (row \<times> string) list) res \<times> facade" where
  "preflight_rows ces acct prices markets broker order_type lot_size n [] appr rej fc = (Inr (appr, rej), fc)"
| "preflight_rows ces acct prices markets broker order_type lot_size n (r # rows) appr rej fc =
     (if \<not> row_selected r then preflight_rows ces acct prices markets broker order_type lot_size (Suc n) rows appr rej fc
      else case revalidate_portfolio_row (ces n) fc r acct prices markets broker order_type lot_size of
        (Inl e, fc') \<Rightarrow>
          if is_permission_error e \<or> is_value_error e \<or> is_key_error e
          then preflight_rows ces acct prices markets broker order_type lot_size (Suc n) rows appr
                 (rej @ [(r, err_message e)]) fc'
          else (Inl e, fc')
      | (Inr rv, fc') \<Rightarrow>
          (case (rv_intent rv, rv_preview rv) of
             (Some i, Some p) \<Rightarrow>
               if \<not> ra_approved (op_risk p)
               then preflight_rows ces acct prices markets broker order_type lot_size (Suc n) rows appr
                      (rej @ [(r, let v = join_with ''; '' (ra_violations (op_risk p)) in
                                    if v = [] then ''risk rejected'' else v)]) fc'
               else preflight_rows ces acct prices markets broker order_type lot_size (Suc n) rows (appr @ [rv]) rej fc'
           | _ \<Rightarrow> preflight_rows ces acct prices markets broker order_type lot_size (Suc n) rows appr rej fc'))"

text \<open>\<open>run_manifest_id or recommendation_run_id\<close>.\<close>

definition str_or :: "string option \<Rightarrow> string option \<Rightarrow> string option" where
  "str_or a b = (case a of Some (ch # s) \<Rightarrow> a | _ \<Rightarrow> b)"

definition preflight_portfolio ::
  "(nat \<Rightarrow> call_env) \<Rightarrow> facade \<Rightarrow> row list \<Rightarrow> paper_account \<Rightarrow> (string, decimal) dict \<Rightarrow> (string, string) dict \<Rightarrow>
     string \<Rightarrow> string \<Rightarrow> decimal \<Rightarrow> string option \<Rightarrow> string option \<Rightarrow> preflight_result res \<times> facade" where
  "preflight_portfolio ces fc rows acct latest_prices markets broker order_type lot_size rec_id run_id =
     (case preflight_rows ces acct latest_prices markets broker order_type lot_size 0 rows [] [] fc of
        (Inl e, fc') \<Rightarrow> (Inl e, fc')
      | (Inr (appr, rej), fc') \<Rightarrow>
          (let result = \<lparr>pf_rows_checked = int (length rows), pf_approved = appr, pf_rejected = rej\<rparr> in
           case fc_audit fc' of
             None \<Rightarrow> (Inr result, fc')
           | Some t \<Rightarrow>
               (case record_preflight (ce_params (ces 0)) t rows result (str_or run_id rec_id) of
                  (res, t') \<Rightarrow> (res_bind res (\<lambda>_. Inr result), fc'\<lparr>fc_audit := Some t'\<rparr>))))"

section \<open>The live side\<close>

definition resolve_live_secret :: "facade \<Rightarrow> order_intent \<Rightarrow> string \<Rightarrow> string res" where
  "resolve_live_secret fc i capability =
     (case fc_secrets fc of
        None \<Rightarrow> Inl (PermissionError ''SecretBroker is required for REAL_LIVE submit'')
      | Some sb \<Rightarrow>
          (case dict_get (fc_secret_ids fc) (oi_broker i) of
             Some (ch # sid) \<Rightarrow> secret_resolve sb (ch # sid) ''REAL_LIVE'' capability
           | _ \<Rightarrow> Inl (PermissionError (''no secret mapping for broker: '' @ oi_broker i))))"

definition adapter_for :: "facade \<Rightarrow> string \<Rightarrow> broker_adapter res" where
  "adapter_for fc broker =
     (case fc_router fc of
        None \<Rightarrow> Inl (PermissionError ''BrokerRouter is not configured'')
      | Some r \<Rightarrow>
          (case dict_get (br_adapters r) broker of
             None \<Rightarrow> Inl (PermissionError (''broker adapter is not configured: '' @ broker))
           | Some ad \<Rightarrow> Inr ad))"

definition set_adapter :: "broker_router \<Rightarrow> string \<Rightarrow> broker_adapter \<Rightarrow> broker_router" where
  "set_adapter r broker ad = r\<lparr>br_adapters := dict_set broker ad (br_adapters r)\<rparr>"

text \<open>The router after the credentials were put into the broker's adapter.\<close>

definition inject_credentials :: "call_env \<Rightarrow> facade \<Rightarrow> broker_router \<Rightarrow> order_intent \<Rightarrow> string \<Rightarrow> broker_router res" where
  "inject_credentials ce fc r i capability =
     res_bind (resolve_live_secret fc i capability) (\<lambda>material.
     res_bind (adapter_for fc (oi_broker i)) (\<lambda>ad.
     res_bind (apply_secret (ce_json_loads ce) (ce_show ce) ad material) (\<lambda>ad'.
     Inr (set_adapter r (oi_broker i) ad'))))"

text \<open>The \<open>finally\<close> clause.\<close>

definition clear_credentials :: "broker_router \<Rightarrow> string \<Rightarrow> broker_router" where
  "clear_credentials r broker =
     (case dict_get (br_adapters r) broker of None \<Rightarrow> r | Some ad \<Rightarrow> set_adapter r broker (clear_adapter ad))"

definition submit_live ::
  "call_env \<Rightarrow> facade \<Rightarrow> order_intent \<Rightarrow> string option \<Rightarrow> order_result res \<times> facade" where
  "submit_live ce fc i approval_id =
     (case fc_router fc of
        None \<Rightarrow> (Inl (PermissionError ''BrokerRouter is not configured''), fc)
      | Some r \<Rightarrow>
          (case (fc_order_gate fc, approval_id) of
             (Some g, Some aid) \<Rightarrow>
               (case res_bind (order_gate_require g aid (ce_now ce)) (\<lambda>_. inject_credentials ce fc r i ''order.create'') of
                  Inl e \<Rightarrow> (Inl e, fc)
                | Inr r1 \<Rightarrow>
                    (case (case to_broker_order i of
                         Inl e \<Rightarrow> (Inl e, r1)
                       | Inr ord \<Rightarrow> router_submit (ce_net ce) (ce_show ce) (ce_live ce) r1 ''REAL_LIVE'' (oi_broker i)
                                     ord approval_id (ce_now2 ce)) of
                       (res, r2) \<Rightarrow> (res, fc\<lparr>fc_router := Some (clear_credentials r2 (oi_broker i))\<rparr>)))
           | _ \<Rightarrow> (Inl (PermissionError ''explicit live approval_id is required''), fc)))"

definition facade_cancel ::
  "call_env \<Rightarrow> facade \<Rightarrow> string \<Rightarrow> string \<Rightarrow> string option \<Rightarrow> string option \<Rightarrow> bool res \<times> facade" where
  "facade_cancel ce fc broker order_id approval_id symb =
     (if get_current_mode (fc_ctl fc) \<noteq> REAL_LIVE
      then (Inl (PermissionError ''cancel via broker is only available in REAL_LIVE''), fc)
      else case fc_router fc of
        None \<Rightarrow> (Inl (PermissionError ''BrokerRouter is not configured''), fc)
      | Some r \<Rightarrow>
          (case (fc_order_gate fc, approval_id) of
             (Some g, Some aid) \<Rightarrow>
               (let i = \<lparr>oi_symbol = (case symb of Some (ch # s) \<Rightarrow> ch # s | _ \<Rightarrow> ''-''), oi_side = ''BUY'',
                      oi_quantity = 1, oi_order_type = ''MARKET'', oi_price = None, oi_broker = broker,
                      oi_client_order_id = []\<rparr> in
                case res_bind (order_gate_require g aid (ce_now ce)) (\<lambda>_. inject_credentials ce fc r i ''order.cancel'') of
                  Inl e \<Rightarrow> (Inl e, fc)
                | Inr r1 \<Rightarrow>
                    (case router_cancel (ce_net ce) (ce_live ce) r1 ''REAL_LIVE'' broker order_id approval_id symb (ce_now2 ce) of
                       (res, r2) \<Rightarrow> (res, fc\<lparr>fc_router := Some (clear_credentials r2 broker)\<rparr>)))
           | _ \<Rightarrow> (Inl (PermissionError ''explicit live approval_id is required''), fc)))"

section \<open>Submission\<close>

text \<open>The keyword arguments that only the audit trail sees.\<close>

record audit_args =
  aa_recommendation_run_id :: "string option"
  aa_portfolio_rank :: "int option"
  aa_target_weight :: "decimal option"
  aa_run_manifest_id :: "string option"

definition audit_submission ::
  "call_env \<Rightarrow> facade \<Rightarrow> order_intent \<Rightarrow> decimal \<Rightarrow> risk_assessment \<Rightarrow> portfolio_context option \<Rightarrow> string option \<Rightarrow>
     audit_args \<Rightarrow> audit_record option res \<times> facade" where
  "audit_submission ce fc i ref_price risk ctxt preview_id aa =
     (case fc_audit fc of
        None \<Rightarrow> (Inr None, fc)
      | Some t \<Rightarrow>
          (case create_submission (ce_params ce) t i ref_price risk ctxt (aa_recommendation_run_id aa)
               (aa_portfolio_rank aa) (aa_target_weight aa) preview_id (oi_broker i) (aa_run_manifest_id aa) of
             (res, t') \<Rightarrow> (map_sum id Some res, fc\<lparr>fc_audit := Some t'\<rparr>)))"

definition submitted_intent :: "call_env \<Rightarrow> facade \<Rightarrow> order_intent \<Rightarrow> string option \<Rightarrow> order_intent res" where
  "submitted_intent ce fc i preview_id =
     res_bind (case preview_id of
         None \<Rightarrow> Inr i
       | Some pid \<Rightarrow>
           (case dict_get (fc_previews fc) pid of
              None \<Rightarrow> Inl (ValueError ''unknown preview_id'')
            | Some p \<Rightarrow> if \<not> ra_approved (op_risk p) then Inl (PermissionError ''preview risk was not approved'')
                else Inr (op_intent p))) (\<lambda>i'.
     Inr (if oi_client_order_id i' = [] then i'\<lparr>oi_client_order_id := ''paper-'' @ ce_uuid ce\<rparr> else i'))"

text \<open>Recording of the result, when there is a trail.\<close>

definition audit_outcome ::
  "call_env \<Rightarrow> facade \<Rightarrow> audit_record option \<Rightarrow> trade_result \<Rightarrow> trade_result res \<times> facade" where
  "audit_outcome ce fc audit result =
     (case (audit, fc_audit fc) of
        (Some a, Some t) \<Rightarrow>
          (case (case result of
               FillResult f \<Rightarrow> audit_record_fill (ce_params ce) t a f
             | BrokerResult r \<Rightarrow> audit_record_result (ce_params ce) t a (BrokerResult r)) of
             (res, t') \<Rightarrow> (res_bind res (\<lambda>_. Inr result), fc\<lparr>fc_audit := Some t'\<rparr>))
      | _ \<Rightarrow> (Inr result, fc))"

definition execute_approved ::
  "call_env \<Rightarrow> facade \<Rightarrow> order_intent \<Rightarrow> decimal \<Rightarrow> string option \<Rightarrow> exec_mode \<Rightarrow> trade_result res \<times> facade" where
  "execute_approved ce fc i ref_price approval_id mode =
     (if mode = REAL_LIVE
      then (case submit_live ce fc i approval_id of (res, fc') \<Rightarrow> (map_sum id BrokerResult res, fc'))
      else (case to_paper_order (ce_uuid ce) i of
          Inl e \<Rightarrow> (Inl e, fc)
        | Inr ord \<Rightarrow>
            (case gateway_execute (fc_ctl fc) (fc_engine fc) (fc_gateway fc) ord ref_price None of
               (res, gs) \<Rightarrow> (map_sum id FillResult res, fc\<lparr>fc_gateway := gs\<rparr>))))"

definition facade_submit ::
  "call_env \<Rightarrow> facade \<Rightarrow> order_intent \<Rightarrow> decimal \<Rightarrow> string option \<Rightarrow> string option \<Rightarrow> portfolio_context option \<Rightarrow>
     audit_args \<Rightarrow> trade_result res \<times> facade" where
  "facade_submit ce fc i0 ref_price approval_id preview_id ctxt aa =
     (case submitted_intent ce fc i0 preview_id of
        Inl e \<Rightarrow> (Inl e, fc)
      | Inr i \<Rightarrow>
          (case assess_risk fc (ce_uuid ce) i ref_price ctxt of
             Inl e \<Rightarrow> (Inl e, fc)
           | Inr risk \<Rightarrow>
               (case audit_submission ce fc i ref_price risk ctxt preview_id aa of
                  (Inl e, fc1) \<Rightarrow> (Inl e, fc1)
                | (Inr audit, fc1) \<Rightarrow>
                    if \<not> ra_approved risk
                    then (Inl (PermissionError (let v = join_with ''; '' (ra_violations risk) in
                            if v = [] then ''risk rejected'' else v)), fc1)
                    else (case execute_approved ce fc1 i ref_price approval_id (get_current_mode (fc_ctl fc)) of
                        (Inl e, fc2) \<Rightarrow> (Inl e, fc2)
                      | (Inr result, fc2) \<Rightarrow> audit_outcome ce fc2 audit result))))"

definition submit_portfolio_row ::
  "call_env \<Rightarrow> call_env \<Rightarrow> facade \<Rightarrow> row \<Rightarrow> (string, decimal) dict \<Rightarrow> (string, string) dict \<Rightarrow> string \<Rightarrow> string \<Rightarrow>
     decimal \<Rightarrow> string option \<Rightarrow> string option \<Rightarrow> int option \<Rightarrow> string option \<Rightarrow> trade_result option res \<times> facade" where
  "submit_portfolio_row ce ce' fc r latest_prices markets broker order_type lot_size approval_id rec_id rank run_id =
     (case revalidate_portfolio_row ce fc r (gs_account (fc_gateway fc)) latest_prices markets broker order_type lot_size of
        (Inl e, fc1) \<Rightarrow> (Inl e, fc1)
      | (Inr rv, fc1) \<Rightarrow>
          (case rv_intent rv of
             None \<Rightarrow> (Inr None, fc1)
           | Some i \<Rightarrow>
               (case (case dict_get r ''target_weight'' of None \<Rightarrow> Inr None | Some v \<Rightarrow> map_sum id Some (to_decimal v)) of
                  Inl e \<Rightarrow> (Inl e, fc1)
                | Inr weight \<Rightarrow>
                    (case dict_get latest_prices (oi_symbol i) of
                       None \<Rightarrow> (Inl (KeyError (oi_symbol i)), fc1)
                     | Some latest \<Rightarrow>
                         (case facade_submit ce' fc1 i latest approval_id None (Some (rs_context (rv_snapshot rv)))
                             \<lparr>aa_recommendation_run_id = rec_id, aa_portfolio_rank = rank, aa_target_weight = weight,
                              aa_run_manifest_id = run_id\<rparr> of
                            (res, fc2) \<Rightarrow> (map_sum id Some res, fc2))))))"

end
