(* ===== verification/Facade_Runs.thy ===== *)
theory Facade_Runs
  imports Trade_Facade
begin

text \<open>
  What the trade facade guarantees: checks place no orders, nothing trades without the risk gate's
  approval, the paper and the live side are separate, injected credentials do not outlive a call,
  fills are audited, and rebalancing a row reaches its target.
\<close>

section \<open>Outcomes\<close>

text \<open>Nothing that trades has changed: only previews and the audit trail may differ.\<close>

definition same_trading :: "facade \<Rightarrow> facade \<Rightarrow> bool" where
  "same_trading fc fc' = (fc' = fc\<lparr>fc_previews := fc_previews fc', fc_audit := fc_audit fc'\<rparr>)"

lemma same_trading_refl [simp, intro]: "same_trading fc fc"
  by (simp add: same_trading_def)

lemma same_trading_simps:
  "same_trading fc (fc\<lparr>fc_previews := p\<rparr>)" "same_trading fc (fc\<lparr>fc_audit := a\<rparr>)"
  by (simp_all add: same_trading_def)

lemma same_trading_trans: "same_trading a b \<Longrightarrow> same_trading b c \<Longrightarrow> same_trading a c"
  by (cases a; cases b; cases c) (simp add: same_trading_def)

lemma same_tradingD:
  assumes "same_trading fc fc'"
  shows "fc_ctl fc' = fc_ctl fc" "fc_risk fc' = fc_risk fc" "fc_engine fc' = fc_engine fc"
    "fc_gateway fc' = fc_gateway fc" "fc_router fc' = fc_router fc" "fc_order_gate fc' = fc_order_gate fc"
    "fc_secrets fc' = fc_secrets fc" "fc_secret_ids fc' = fc_secret_ids fc"
  using assms by (cases fc; cases fc'; simp add: same_trading_def)+

lemma preview_same: "facade_preview ce fc i p c = (res, fc') \<Longrightarrow> same_trading fc fc'"
  by (auto simp: facade_preview_def Let_def split: if_splits sum.splits intro: same_trading_simps)

lemma revalidate_same: "revalidate_portfolio_row ce fc r acct ps ms b t l = (res, fc') \<Longrightarrow> same_trading fc fc'"
  by (auto simp: revalidate_portfolio_row_def split: sum.splits prod.splits option.splits dest: preview_same)

lemma preflight_rows_same:
  "preflight_rows ces acct ps ms b t l n rows appr rej fc = (res, fc') \<Longrightarrow> same_trading fc fc'"
proof (induction ces acct ps ms b t l n rows appr rej fc rule: preflight_rows.induct)
  case (2 ces acct prices markets broker order_type lot_size n r rows appr rej fc)
  show ?case
  proof (cases "row_selected r")
    case False
    then show ?thesis using 2 by simp
  next
    case sel: True
    obtain x fc1 where rv: "revalidate_portfolio_row (ces n) fc r acct prices markets broker order_type lot_size = (x, fc1)"
      by fastforce
    note s1 = revalidate_same [OF rv]
    show ?thesis
    proof (cases x)
      case (Inl e)
      then show ?thesis using "2.IH"(2) "2.prems" sel rv s1
        by (auto split: if_splits intro: same_trading_trans)
    next
      case (Inr v)
      then show ?thesis using "2.IH"(3-) "2.prems" sel rv s1
        by (auto simp: Let_def split: option.splits if_splits intro: same_trading_trans)
    qed
  qed
qed simp

lemma preflight_same:
  "preflight_portfolio ces fc rows acct ps ms b t l rec rid = (res, fc') \<Longrightarrow> same_trading fc fc'"
  by (auto simp: preflight_portfolio_def Let_def split: sum.splits prod.splits option.splits
      dest!: preflight_rows_same intro: same_trading_trans same_trading_simps)

lemma audit_submission_same: "audit_submission ce fc i p risk c pid aa = (res, fc') \<Longrightarrow> same_trading fc fc'"
  by (auto simp: audit_submission_def split: option.splits prod.splits intro: same_trading_simps)

lemma audit_outcome_same: "audit_outcome ce fc a r = (res, fc') \<Longrightarrow> same_trading fc fc'"
  by (auto simp: audit_outcome_def split: option.splits prod.splits trade_result.splits intro: same_trading_simps)

lemma assess_approved:
  assumes "assess_risk fc u i p c = Inr risk" and "ra_approved risk"
  shows "\<exists>ord. to_paper_order u i = Inr ord \<and> risk_decision fc ord p c = Inr ()"
proof -
  obtain ord where ord: "to_paper_order u i = Inr ord" using assms(1) by (auto simp: assess_risk_def res_bind_eq_Inr)
  have "risk_decision fc ord p c = Inr ()"
    using assms ord by (cases "risk_decision fc ord p c") (auto simp: assess_risk_def split: if_splits)
  then show ?thesis using ord by blast
qed

lemma facade_submit_cases [consumes 1, case_names stopped executed]:
  assumes "facade_submit ce fc i0 p aid pid ctxt aa = (res, fc')"
  obtains (stopped) e where "res = Inl e" "same_trading fc fc'"
  | (executed) i ord risk audit fc1 r fc2 where "submitted_intent ce fc i0 pid = Inr i"
      "to_paper_order (ce_uuid ce) i = Inr ord" "risk_decision fc ord p ctxt = Inr ()"
      "audit_submission ce fc i p risk ctxt pid aa = (Inr audit, fc1)"
      "execute_approved ce fc1 i p aid (get_current_mode (fc_ctl fc)) = (r, fc2)"
      "case r of Inl e \<Rightarrow> res = Inl e \<and> fc' = fc2 | Inr result \<Rightarrow> audit_outcome ce fc2 audit result = (res, fc')"
proof (cases "submitted_intent ce fc i0 pid")
  case (Inl e)
  then show thesis using assms stopped [of e] by (simp add: facade_submit_def)
next
  case si: (Inr i)
  show thesis
  proof (cases "assess_risk fc (ce_uuid ce) i p ctxt")
    case (Inl e)
    then show thesis using assms si stopped [of e] by (simp add: facade_submit_def)
  next
    case ar: (Inr risk)
    obtain a fc1 where au: "audit_submission ce fc i p risk ctxt pid aa = (a, fc1)" by fastforce
    note same = audit_submission_same [OF au]
    show thesis
    proof (cases a)
      case (Inl e)
      then show thesis using assms si ar au same stopped [of e] by (simp add: facade_submit_def)
    next
      case (Inr audit)
      show thesis
      proof (cases "ra_approved risk")
        case False
        then show thesis using assms si ar au Inr same stopped by (auto simp: facade_submit_def)
      next
        case True
        obtain ord where ord: "to_paper_order (ce_uuid ce) i = Inr ord" "risk_decision fc ord p ctxt = Inr ()"
          using assess_approved [OF ar True] by blast
        obtain r fc2 where ex: "execute_approved ce fc1 i p aid (get_current_mode (fc_ctl fc)) = (r, fc2)" by fastforce
        have "case r of Inl e \<Rightarrow> res = Inl e \<and> fc' = fc2 | Inr result \<Rightarrow> audit_outcome ce fc2 audit result = (res, fc')"
          using assms si ar au Inr True ex by (auto simp: facade_submit_def split: sum.splits)
        then show thesis using executed [OF si ord _ ex] au Inr by simp
      qed
    qed
  qed
qed

lemma after_execution:
  assumes "case r of Inl e \<Rightarrow> res = Inl e \<and> fc' = fc2 | Inr result \<Rightarrow> audit_outcome ce fc2 audit result = (res, fc')"
  shows "same_trading fc2 fc'"
  using assms by (auto split: sum.splits dest: audit_outcome_same)

section \<open>The two sides\<close>

lemma submit_live_gateway: "submit_live ce fc i aid = (res, fc') \<Longrightarrow> fc_gateway fc' = fc_gateway fc"
  by (auto simp: submit_live_def split: option.splits sum.splits prod.splits)

lemma submit_live_required:
  assumes "submit_live ce fc i aid = (res, fc')" and "fc_router fc' \<noteq> fc_router fc"
  shows "\<exists>g a. fc_order_gate fc = Some g \<and> aid = Some a \<and> order_gate_require g a (ce_now ce) = Inr ()"
  using assms by (auto simp: submit_live_def res_bind_eq_Inr split: option.splits sum.splits prod.splits)

lemma submit_sides:
  assumes "facade_submit ce fc i0 p aid pid ctxt aa = (res, fc')"
    and "fc_gateway fc' \<noteq> fc_gateway fc \<or> fc_router fc' \<noteq> fc_router fc"
  shows "\<exists>i ord. submitted_intent ce fc i0 pid = Inr i \<and> to_paper_order (ce_uuid ce) i = Inr ord
    \<and> risk_decision fc ord p ctxt = Inr ()
    \<and> (fc_gateway fc' \<noteq> fc_gateway fc \<longrightarrow> get_current_mode (fc_ctl fc) \<noteq> REAL_LIVE)
    \<and> (fc_router fc' \<noteq> fc_router fc \<longrightarrow> get_current_mode (fc_ctl fc) = REAL_LIVE
         \<and> (\<exists>g a. fc_order_gate fc = Some g \<and> aid = Some a \<and> order_gate_require g a (ce_now ce) = Inr ()))"
  using assms(1)
proof (cases rule: facade_submit_cases)
  case (stopped e)
  then show ?thesis using assms(2) same_tradingD [OF stopped(2)] by simp
next
  case (executed i ord risk audit fc1 r fc2)
  note s1 = same_tradingD [OF audit_submission_same [OF executed(4)]]
    and s2 = same_tradingD [OF after_execution [OF executed(6)]]
  show ?thesis
  proof (cases "get_current_mode (fc_ctl fc) = REAL_LIVE")
    case True
    then obtain res0 where lv: "submit_live ce fc1 i aid = (res0, fc2)"
      using executed(5) by (auto simp: execute_approved_def split: prod.splits)
    then show ?thesis
      using executed(1-3) s1 s2 True submit_live_gateway [OF lv] submit_live_required [OF lv] by auto
  next
    case False
    then have "fc_router fc2 = fc_router fc1"
      using executed(5) by (auto simp: execute_approved_def split: prod.splits sum.splits)
    then show ?thesis using executed(1-3) s1 s2 False assms(2) by auto
  qed
qed

section \<open>Credentials\<close>

text \<open>Every adapter holds its base credentials only.\<close>

definition adapter_clean :: "broker_adapter \<Rightarrow> bool" where
  "adapter_clean ad = (tidy ad \<and> creds_of ad = base_of ad)"

definition router_clean :: "broker_router \<Rightarrow> bool" where
  "router_clean r = (\<forall>(b, ad) \<in> set (br_adapters r). adapter_clean ad)"

definition facade_clean :: "facade \<Rightarrow> bool" where
  "facade_clean fc = (case fc_router fc of None \<Rightarrow> True | Some r \<Rightarrow> router_clean r)"

text \<open>Every adapter but that of \<open>b\<close>, which may hold injected credentials.\<close>

definition router_injected :: "string \<Rightarrow> broker_router \<Rightarrow> bool" where
  "router_injected b r = ((\<forall>b' ad. dict_get (br_adapters r) b' = Some ad \<longrightarrow>
     tidy ad \<and> (b' \<noteq> b \<longrightarrow> adapter_clean ad)) \<and> dict_wf (br_adapters r))"

lemma router_clean_get: "router_clean r \<Longrightarrow> dict_get (br_adapters r) b = Some ad \<Longrightarrow> adapter_clean ad"
  by (auto simp: router_clean_def dest: dict_get_mem)

lemma set_adapter_injected: "router_injected b r \<Longrightarrow> tidy ad \<Longrightarrow> router_injected b (set_adapter r b ad)"
  by (auto simp: router_injected_def set_adapter_def)

lemma inject_injected:
  assumes "inject_credentials ce fc r i cap = Inr r1" and "router_clean r" and "dict_wf (br_adapters r)"
  shows "router_injected (oi_broker i) r1"
proof -
  obtain ad ad' m where ad: "apply_secret (ce_json_loads ce) (ce_show ce) ad m = Inr ad'"
    "r1 = set_adapter r (oi_broker i) ad'"
    using assms(1) by (auto simp: inject_credentials_def res_bind_eq_Inr)
  have "router_injected (oi_broker i) r"
    using assms(2,3) by (auto simp: router_injected_def adapter_clean_def dest: router_clean_get)
  then show ?thesis unfolding ad(2) using secret.apply_base [OF ad(1)] by (intro set_adapter_injected) auto
qed

lemma adapter_submit_step: "adapter_submit net sd env ad req = (res, ad') \<Longrightarrow> tidy ad \<Longrightarrow> tidy ad'"
  using secret.use_base [of ad "CallSubmit net sd env req"] by simp

lemma adapter_cancel_step: "adapter_cancel net env ad oid symb = (res, ad') \<Longrightarrow> tidy ad \<Longrightarrow> tidy ad'"
  using secret.use_base [of ad "CallCancel net env oid symb"] by simp

lemma router_injected_tidy: "router_injected b r \<Longrightarrow> dict_get (br_adapters r) b' = Some ad \<Longrightarrow> tidy ad"
  unfolding router_injected_def by blast

lemma router_submit_cases:
  "router_submit net sd env r mode b req aid now = (res, r') \<Longrightarrow>
     r' = r \<or> (\<exists>ad ad' x. dict_get (br_adapters r) b = Some ad \<and> r' = set_adapter r b ad'
       \<and> adapter_submit net sd env ad req = (x, ad'))"
  by (auto simp: router_submit_def set_adapter_def split: sum.splits option.splits prod.splits)

lemma router_cancel_cases:
  "router_cancel net env r mode b oid aid symb now = (res, r') \<Longrightarrow>
     r' = r \<or> (\<exists>ad ad' x. dict_get (br_adapters r) b = Some ad \<and> r' = set_adapter r b ad'
       \<and> adapter_cancel net env ad oid symb = (x, ad'))"
  by (auto simp: router_cancel_def set_adapter_def split: sum.splits option.splits prod.splits)

lemma router_submit_injected:
  "router_submit net sd env r mode b req aid now = (res, r') \<Longrightarrow> router_injected b r \<Longrightarrow> router_injected b r'"
  using router_submit_cases [of net sd env r mode b req aid now res r']
  by (metis adapter_submit_step router_injected_tidy set_adapter_injected)

lemma router_cancel_injected:
  "router_cancel net env r mode b oid aid symb now = (res, r') \<Longrightarrow> router_injected b r \<Longrightarrow> router_injected b r'"
  using router_cancel_cases [of net env r mode b oid aid symb now res r']
  by (metis adapter_cancel_step router_injected_tidy set_adapter_injected)

lemma clear_credentials_clean:
  assumes "router_injected b r"
  shows "router_clean (clear_credentials r b) \<and> dict_wf (br_adapters (clear_credentials r b))"
proof (cases "dict_get (br_adapters r) b")
  case None
  then show ?thesis
    using assms by (auto simp: clear_credentials_def router_injected_def router_clean_def)
      (metis dict_mem_get option.distinct(1))
next
  case (Some ad)
  have "tidy ad" using assms Some by (auto simp: router_injected_def)
  then have c: "adapter_clean (clear_adapter ad)" using secret.clear_restores [of ad] by (simp add: adapter_clean_def)
  have wf: "dict_wf (br_adapters r)" using assms by (simp add: router_injected_def)
  show ?thesis
  proof
    show "dict_wf (br_adapters (clear_credentials r b))"
      using wf Some by (simp add: clear_credentials_def set_adapter_def)
    show "router_clean (clear_credentials r b)"
      unfolding router_clean_def
    proof (intro ballI, clarify)
      fix b' ad' assume m: "(b', ad') \<in> set (br_adapters (clear_credentials r b))"
      then have "dict_get (br_adapters (clear_credentials r b)) b' = Some ad'"
        using wf Some by (intro dict_mem_get) (simp_all add: clear_credentials_def set_adapter_def)
      then show "adapter_clean ad'"
        using assms c Some by (auto simp: clear_credentials_def set_adapter_def router_injected_def split: if_splits)
    qed
  qed
qed

definition facade_ok :: "facade \<Rightarrow> bool" where
  "facade_ok fc = ((case fc_router fc of None \<Rightarrow> True | Some r \<Rightarrow> router_clean r \<and> dict_wf (br_adapters r))
     \<and> orders_ok (gs_orders (fc_gateway fc)))"

lemma facade_ok_same: "same_trading fc fc' \<Longrightarrow> facade_ok fc \<Longrightarrow> facade_ok fc'"
  by (simp add: facade_ok_def same_tradingD)

lemma submit_live_ok:
  assumes "submit_live ce fc i aid = (res, fc')" and ok: "facade_ok fc"
  shows "facade_ok fc'"
proof (cases "fc_router fc' = fc_router fc")
  case True
  then show ?thesis using ok submit_live_gateway [OF assms(1)] by (simp add: facade_ok_def)
next
  case False
  obtain r r1 x r2 where r: "fc_router fc = Some r" "inject_credentials ce fc r i ''order.create'' = Inr r1"
    "(case to_broker_order i of Inl e \<Rightarrow> (Inl e, r1)
      | Inr ord \<Rightarrow> router_submit (ce_net ce) (ce_show ce) (ce_live ce) r1 ''REAL_LIVE'' (oi_broker i) ord aid (ce_now2 ce)) = (x, r2)"
    "fc_router fc' = Some (clear_credentials r2 (oi_broker i))"
    using assms(1) False by (auto simp: submit_live_def res_bind_eq_Inr split: option.splits sum.splits prod.splits)
  have "router_injected (oi_broker i) r1" using ok r(1) by (intro inject_injected [OF r(2)]) (auto simp: facade_ok_def)
  then have "router_injected (oi_broker i) r2"
    using r(3) by (auto split: sum.splits dest: router_submit_injected)
  then show ?thesis using clear_credentials_clean ok r(4) submit_live_gateway [OF assms(1)]
    by (auto simp: facade_ok_def)
qed

lemma cancel_ok:
  assumes "facade_cancel ce fc b oid aid symb = (res, fc')" and ok: "facade_ok fc"
  shows "facade_ok fc'"
proof (cases "fc' = fc")
  case False
  then obtain r i r1 x r2 where r: "fc_router fc = Some r" "inject_credentials ce fc r i ''order.cancel'' = Inr r1"
    "oi_broker i = b" "router_cancel (ce_net ce) (ce_live ce) r1 ''REAL_LIVE'' b oid aid symb (ce_now2 ce) = (x, r2)"
    "fc' = fc\<lparr>fc_router := Some (clear_credentials r2 b)\<rparr>"
    using assms(1)
    by (auto simp: facade_cancel_def Let_def res_bind_eq_Inr split: option.splits sum.splits prod.splits if_splits)
  have "router_injected b r1" using ok r(1) inject_injected [OF r(2)] r(3) by (auto simp: facade_ok_def)
  from clear_credentials_clean [OF router_cancel_injected [OF r(4) this]] show ?thesis
    using ok by (simp add: facade_ok_def r(5))
qed (use ok in simp)

lemma execute_approved_ok:
  assumes "execute_approved ce fc i p aid mode = (res, fc')" and ok: "facade_ok fc"
  shows "facade_ok fc'"
proof (cases "mode = REAL_LIVE")
  case True
  then show ?thesis using assms by (auto simp: execute_approved_def split: prod.splits dest: submit_live_ok)
next
  case False
  then show ?thesis using assms
    by (auto simp: execute_approved_def facade_ok_def split: prod.splits sum.splits dest: gateway_execute_orders_ok)
qed

lemma submit_ok:
  assumes "facade_submit ce fc i0 p aid pid ctxt aa = (res, fc')" and "facade_ok fc"
  shows "facade_ok fc'"
  using assms(1)
proof (cases rule: facade_submit_cases)
  case (executed i ord risk audit fc1 r fc2)
  then show ?thesis
    using assms(2) facade_ok_same [OF audit_submission_same [OF executed(4)]] execute_approved_ok [OF executed(5)]
      facade_ok_same [OF after_execution [OF executed(6)]] by blast
qed (use assms(2) in \<open>auto intro: facade_ok_same\<close>)

lemma submit_row_ok:
  assumes "submit_portfolio_row ce ce' fc r ps ms b t l aid rec rank rid = (res, fc')" and ok: "facade_ok fc"
  shows "facade_ok fc'"
proof -
  obtain x fc1 where x: "revalidate_portfolio_row ce fc r (gs_account (fc_gateway fc)) ps ms b t l = (x, fc1)" by fastforce
  note ok1 = facade_ok_same [OF revalidate_same [OF x] ok]
  show ?thesis using assms(1) ok1
    by (auto simp: submit_portfolio_row_def x split: sum.splits option.splits prod.splits dest: submit_ok)
qed

text \<open>Every call of the facade that changes its state.\<close>

datatype facade_event =
    FPreview call_env order_intent decimal "portfolio_context option"
  | FPreflight "nat \<Rightarrow> call_env" "row list" paper_account "(string, decimal) dict" "(string, string) dict" string string
      decimal "string option" "string option"
  | FSubmit call_env order_intent decimal "string option" "string option" "portfolio_context option" audit_args
  | FSubmitRow call_env call_env row "(string, decimal) dict" "(string, string) dict" string string decimal
      "string option" "string option" "int option" "string option"
  | FCancel call_env string string "string option" "string option"

fun facade_step :: "facade \<Rightarrow> facade_event \<Rightarrow> facade" where
  "facade_step fc (FPreview ce i p c) = snd (facade_preview ce fc i p c)"
| "facade_step fc (FPreflight ces rows acct ps ms b t l rec rid) = snd (preflight_portfolio ces fc rows acct ps ms b t l rec rid)"
| "facade_step fc (FSubmit ce i p aid pid c aa) = snd (facade_submit ce fc i p aid pid c aa)"
| "facade_step fc (FSubmitRow ce ce' r ps ms b t l aid rec rank rid) =
     snd (submit_portfolio_row ce ce' fc r ps ms b t l aid rec rank rid)"
| "facade_step fc (FCancel ce b oid aid symb) = snd (facade_cancel ce fc b oid aid symb)"

interpretation trading: step_invariant facade_step facade_ok
proof
  fix fc e
  assume ok: "facade_ok fc"
  show "facade_ok (facade_step fc e)"
    by (cases e) (auto intro: facade_ok_same [OF preview_same [OF prod.collapse [symmetric]] ok]
        facade_ok_same [OF preflight_same [OF prod.collapse [symmetric]] ok]
        submit_ok [OF prod.collapse [symmetric] ok] submit_row_ok [OF prod.collapse [symmetric] ok]
        cancel_ok [OF prod.collapse [symmetric] ok])
qed

section \<open>Audited fills\<close>

lemma gateway_fill_fields:
  assumes "gateway_execute ctl eng st ord price avail = (Inr f, st')"
  shows "fl_symbol f = po_symbol ord \<and> fl_order_id f = po_client_order_id ord \<and> fl_side f = po_side ord"
  using assms
proof (cases rule: gateway_execute_cases)
  case (filled eff os r f0 acct)
  have "po_client_order_id eff = po_client_order_id ord" using filled(1) by (auto simp: forwards_def)
  then show ?thesis
    using filled engine_execute_fill_fields [OF filled(4)]
    by (cases "lifecycle_fill os (po_client_order_id ord) (fl_quantity f0)") (auto split: if_splits)
next
  case (dropped eff os r f)
  then show ?thesis by (auto simp: forwards_def)
qed (auto simp: replay_fill_def)

lemma recorded_status:
  assumes "audit_record_fill ps t s f = (res, t')"
  shows "\<exists>r. audit_get t' (au_audit_id s) = Some r \<and> au_symbol r = au_symbol s \<and> au_side r = au_side s
    \<and> au_client_order_id r = au_client_order_id s \<and> au_status r = fl_status f"
proof -
  obtain u stage md aid where "audit_store t (au_audit_id s) u stage (au_status u) aid md = (res, t')"
    "au_symbol u = au_symbol s" "au_side u = au_side s" "au_client_order_id u = au_client_order_id s"
    "au_status u = fl_status f" "au_audit_id u = au_audit_id s"
    using assms by (auto simp: audit_record_fill_def audit_record_result_def Let_def split: if_splits)
  then show ?thesis using audit_store_get(1) by blast
qed

lemma create_submission_record:
  "create_submission ps t i p risk c rec_id rank w pid b rid = (Inr a, t') \<Longrightarrow>
     a = submission_record ps i p risk c rec_id rank w pid b rid"
  by (auto simp: create_submission_def Let_def res_bind_eq_Inr split: prod.splits)

lemma submission_fields:
  assumes "audit_submission ce fc i p risk c pid aa = (Inr (Some a), fc1)"
  shows "au_symbol a = oi_symbol i \<and> au_side a = oi_side i \<and> au_client_order_id a = oi_client_order_id i"
proof -
  obtain t t' where "create_submission (ce_params ce) t i p risk c (aa_recommendation_run_id aa)
      (aa_portfolio_rank aa) (aa_target_weight aa) pid (oi_broker i) (aa_run_manifest_id aa) = (Inr a, t')"
    using assms by (auto simp: audit_submission_def map_sum_id_eq split: option.splits prod.splits)
  from create_submission_record [OF this] show ?thesis by (simp add: submission_record_def)
qed

lemma submission_some:
  "audit_submission ce fc i p risk c pid aa = (Inr audit, fc1) \<Longrightarrow> fc_audit fc = Some t \<Longrightarrow>
     (\<exists>a. audit = Some a) \<and> (\<exists>t'. fc_audit fc1 = Some t')"
  by (auto simp: audit_submission_def map_sum_id_eq split: prod.splits sum.splits)

lemma execute_approved_audit: "execute_approved ce fc i p aid mode = (r, fc') \<Longrightarrow> fc_audit fc' = fc_audit fc"
  by (auto simp: execute_approved_def submit_live_def split: if_splits sum.splits option.splits prod.splits)

lemma submitted_intent_id:
  assumes "submitted_intent ce fc i0 pid = Inr i"
  shows "oi_client_order_id i \<noteq> []"
proof -
  obtain i' where "(if oi_client_order_id i' = [] then i'\<lparr>oi_client_order_id := ''paper-'' @ ce_uuid ce\<rparr> else i') = i"
    using assms by (auto simp: submitted_intent_def res_bind_eq_Inr)
  then show ?thesis by (cases "oi_client_order_id i' = []") auto
qed

lemma fill_is_audited:
  assumes s: "facade_submit ce fc i0 p aid pid ctxt aa = (Inr (FillResult f), fc')" and t: "fc_audit fc = Some t"
  shows "\<exists>t' a. fc_audit fc' = Some t' \<and> a \<in> set (at_records t') \<and> au_client_order_id a = fl_order_id f
    \<and> au_symbol a = fl_symbol f \<and> au_status a = fl_status f"
  using s
proof (cases rule: facade_submit_cases)
  case (executed i ord risk audit fc1 r fc2)
  obtain a t1 where a: "audit = Some a" "fc_audit fc1 = Some t1" using submission_some [OF executed(4) t] by blast
  note sub = submission_fields [OF executed(4) [unfolded a(1)]]
  have t2: "fc_audit fc2 = Some t1" using execute_approved_audit [OF executed(5)] a(2) by simp
  have "r = Inr (FillResult f)"
    using executed(6) by (auto simp: audit_outcome_def a(1) t2 res_bind_eq_Inr split: sum.splits prod.splits)
  then obtain gs where "gateway_execute (fc_ctl fc1) (fc_engine fc1) (fc_gateway fc1) ord p None = (Inr f, gs)"
    using executed(2,5) by (auto simp: execute_approved_def map_sum_id_eq split: if_splits prod.splits sum.splits)
  from gateway_fill_fields [OF this] have f: "fl_symbol f = oi_symbol i" "fl_order_id f = oi_client_order_id i"
    using executed(2) submitted_intent_id [OF executed(1)] by (auto simp: to_paper_order_def res_bind_eq_Inr)
  obtain res0 t' where rf: "audit_record_fill (ce_params ce) t1 a f = (res0, t')" by fastforce
  then have fc': "fc_audit fc' = Some t'"
    using executed(6) \<open>r = Inr (FillResult f)\<close> by (auto simp: audit_outcome_def a(1) t2)
  from recorded_status [OF rf] obtain x where "audit_get t' (au_audit_id a) = Some x" "au_symbol x = au_symbol a"
    "au_client_order_id x = au_client_order_id a" "au_status x = fl_status f" by blast
  moreover from this(1) have "x \<in> set (at_records t')" by (auto simp: audit_get_def find_Some_iff)
  ultimately show ?thesis using f sub fc' by auto
qed auto

section \<open>Rebalancing\<close>

lemma new_order_moves_position:
  assumes ex: "gateway_execute ctl eng st ord price None = (Inr f, st')"
    and new: "dict_get (gs_orders st) (po_client_order_id ord) = None" and ratio: "me_max_fill_ratio eng = 1"
    and q: "0 < po_quantity ord" "grid 6 (po_quantity ord)" "po_quantity ord < 10 ^ 15" and pos: "positions_exact (gs_account st)"
  shows "position_of (gs_account st') s = position_of (gs_account st) s
    + (if s \<noteq> po_symbol ord then 0 else if po_side ord = BUY then po_quantity ord else - po_quantity ord)"
proof -
  have fq: "fix28 (po_quantity ord) = po_quantity ord"
    using q by (intro fix28_amount [of 6 15]) (auto simp: amount_def)
  have eq: "engine_fill_qty eng ord None = po_quantity ord" by (simp add: engine_fill_qty_def Let_def dmul_def ratio fq)
  show ?thesis using ex
  proof (cases rule: gateway_execute_cases)
    case (filled eff os r f0 acct)
    have eff: "eff = ord" using filled(1) new by (auto simp: forwards_def)
    have f0: "fl_quantity f0 = po_quantity ord"
      using filled(5) eq eff by (cases rule: engine_execute_cases [OF filled(4)]) auto
    have "gs_account st' = acct"
      using filled(6) by (cases "lifecycle_fill os (po_client_order_id ord) (fl_quantity f0)") auto
    then show ?thesis
      using position_change [OF filled(4,5) pos, of s] q by (simp add: f0 eff)
  next
    case (dropped eff os r f1)
    have "eff = ord" using dropped(1) new by (auto simp: forwards_def)
    then have "engine_execute eng (gs_account st) ord price None = Inr (f1, gs_account st)" "fl_quantity f1 = 0"
      using dropped by simp_all
    then show ?thesis using q(1) eq by (cases rule: engine_execute_cases [OF \<open>engine_execute _ _ ord _ _ = _\<close>]) auto
  qed (use new in auto)
qed

lemma intent_fields:
  assumes "intent_from_portfolio_row sd r av cur b t l = Inr (Some i)"
  shows "oi_symbol i = row_symbol sd r" "oi_client_order_id i = []" "oi_side i = ''BUY'' \<or> oi_side i = ''SELL''"
  using assms by (auto simp: intent_from_portfolio_row_def Let_def res_bind_eq_Inr split: if_splits sum.splits)

lemma row_close [simp]:
  "row_symbol sd (dict_set ''close'' v r) = row_symbol sd r"
  "row_get (dict_set ''close'' v r) ''target_weight'' d = row_get r ''target_weight'' d"
  "row_get (dict_set ''close'' v r) ''close'' d = v"
  by (simp_all add: row_symbol_def row_get_def dict_get_or_set)

lemma paper_order_fields:
  assumes "to_paper_order u i = Inr ord" and "oi_side i = ''BUY'' \<or> oi_side i = ''SELL''" and "oi_client_order_id i \<noteq> []"
  shows "po_symbol ord = oi_symbol i" "po_quantity ord = oi_quantity i" "po_client_order_id ord = oi_client_order_id i"
    "po_side ord = (if oi_side i = ''BUY'' then BUY else SELL)"
proof -
  have n: "strip ''BUY'' = ''BUY''" "strip ''SELL'' = ''SELL''" "upper ''BUY'' = ''BUY''" "upper ''SELL'' = ''SELL''" by code_simp+
  show "po_symbol ord = oi_symbol i" "po_quantity ord = oi_quantity i" "po_client_order_id ord = oi_client_order_id i"
    "po_side ord = (if oi_side i = ''BUY'' then BUY else SELL)"
    using assms by (auto simp: to_paper_order_def res_bind_eq_Inr normalized_side_def n)
qed

lemma submitted_new_intent:
  "oi_client_order_id i0 = [] \<Longrightarrow> submitted_intent ce fc i0 None = Inr i \<Longrightarrow>
     i = i0\<lparr>oi_client_order_id := ''paper-'' @ ce_uuid ce\<rparr>"
  by (simp add: submitted_intent_def)

text \<open>A submission in a paper mode that returns has executed the order at the gateway.\<close>

lemma paper_submit_executes:
  assumes s: "facade_submit ce fc i0 p aid pid ctxt aa = (Inr x, fc')" and mode: "get_current_mode (fc_ctl fc) \<noteq> REAL_LIVE"
  shows "\<exists>i ord f. submitted_intent ce fc i0 pid = Inr i \<and> to_paper_order (ce_uuid ce) i = Inr ord \<and> x = FillResult f
    \<and> gateway_execute (fc_ctl fc) (fc_engine fc) (fc_gateway fc) ord p None = (Inr f, fc_gateway fc')"
  using s
proof (cases rule: facade_submit_cases)
  case (executed i ord risk audit fc1 r fc2)
  note s1 = same_tradingD [OF audit_submission_same [OF executed(4)]]
    and s2 = same_tradingD [OF after_execution [OF executed(6)]]
  have "\<exists>y. r = Inr y \<and> x = y" using executed(6)
    by (auto simp: audit_outcome_def res_bind_eq_Inr split: sum.splits option.splits prod.splits)
  then have r: "r = Inr x" by blast
  obtain f gs where "gateway_execute (fc_ctl fc1) (fc_engine fc1) (fc_gateway fc1) ord p None = (Inr f, gs)"
    "x = FillResult f" "fc2 = fc1\<lparr>fc_gateway := gs\<rparr>"
    using executed(2,5) mode r by (auto simp: execute_approved_def map_sum_id_eq split: prod.splits)
  then show ?thesis using executed(1,2) s1 s2 by auto
qed auto

lemma row_rebalanced:
  fixes r :: row and acct :: paper_account and ce :: call_env and fc :: facade
  defines "symb \<equiv> row_symbol (ce_show ce) r" and "acct \<equiv> gs_account (fc_gateway fc)"
  assumes s: "submit_portfolio_row ce ce' fc r prices markets broker order_type 1 aid rec rank rid = (Inr out, fc')"
    and mode: "get_current_mode (fc_ctl fc) \<noteq> REAL_LIVE" and ratio: "me_max_fill_ratio (fc_engine fc) = 1"
    and fresh: "dict_get (gs_orders (fc_gateway fc)) (''paper-'' @ ce_uuid ce') = None"
    and w: "to_decimal (row_get r ''target_weight'' (PStr ''0'')) = Inr w" "grid 4 w"
    and p: "dict_get prices symb = Some p" "grid 2 p" "p < 10 ^ 7" "parse_decimal (ce_show ce p) = Some p"
    and snap: "build_risk_context acct prices markets (Some symb) = Inr snap" "av = pc_account_value (rs_context snap)"
    and av: "grid 2 av" "av < 10 ^ 11" and cur: "position_of acct symb = of_int c" "c < 10 ^ 14" "positions_exact acct"
  shows "position_of (gs_account (fc_gateway fc')) symb = of_int \<lfloor>av * w / p\<rfloor>
    \<and> of_int \<lfloor>av * w / p\<rfloor> * p \<le> av * w"
proof -
  obtain rv fc1 where rv: "revalidate_portfolio_row ce fc r acct prices markets broker order_type 1 = (Inr rv, fc1)"
    using s by (auto simp: submit_portfolio_row_def acct_def split: prod.splits sum.splits)
  note same = same_tradingD [OF revalidate_same [OF rv]]
  obtain i where i: "revalidated_intent ce r acct prices markets broker order_type 1 = Inr (snap, i, p)" "rv_intent rv = i"
    using rv p(1) snap(1)
    by (auto simp: revalidate_portfolio_row_def revalidated_intent_def Let_def symb_def res_bind_eq_Inr
        split: sum.splits prod.splits option.splits if_splits)
  have ifr: "intent_from_portfolio_row (ce_show ce) (dict_set ''close'' (PStr (ce_show ce p)) r) av (of_int c)
      broker order_type 1 = Inr i"
    using i(1) p(1) snap cur(1) by (auto simp: revalidated_intent_def Let_def symb_def res_bind_eq_Inr split: if_splits)
  have pw: "to_decimal (row_get (dict_set ''close'' (PStr (ce_show ce p)) r) ''target_weight'' (PStr ''0'')) = Inr w"
    "to_decimal (row_get (dict_set ''close'' (PStr (ce_show ce p)) r) ''close''
       (row_get (dict_set ''close'' (PStr (ce_show ce p)) r) ''price'' (PStr ''0''))) = Inr p"
    using w p(4) by simp_all
  note e = intent_from_row_exact [OF ifr av refl cur(2) pw(1) w(2) pw(2) p(2,3)]
  have le: "of_int \<lfloor>av * w / p\<rfloor> * p \<le> av * w"
    using mult_right_mono [OF of_int_floor_le [of "av * w / p"], of p] e(2) by simp
  have "position_of (gs_account (fc_gateway fc')) symb = of_int c + intent_delta i"
  proof (cases i)
    case None
    then have "fc' = fc1" using s rv i(2) by (auto simp: submit_portfolio_row_def acct_def)
    then show ?thesis using same cur(1) None by (simp add: intent_delta_def acct_def)
  next
    case (Some x)
    note xf = intent_fields [OF ifr [unfolded Some]]
    have xs: "oi_symbol x = symb" using xf(1) by (simp add: symb_def)
    obtain aa y where sub: "facade_submit ce' fc1 x p aid None (Some (rs_context (rv_snapshot rv))) aa = (Inr y, fc')"
      using s rv i(2) Some p(1) xs
      by (auto simp: submit_portfolio_row_def acct_def map_sum_id_eq split: sum.splits prod.splits option.splits)
    obtain i' ord f where g: "submitted_intent ce' fc1 x None = Inr i'" "to_paper_order (ce_uuid ce') i' = Inr ord"
      "gateway_execute (fc_ctl fc1) (fc_engine fc1) (fc_gateway fc1) ord p None = (Inr f, fc_gateway fc')"
      using paper_submit_executes [OF sub] mode same(1) by metis
    have i': "i' = x\<lparr>oi_client_order_id := ''paper-'' @ ce_uuid ce'\<rparr>" by (rule submitted_new_intent [OF xf(2) g(1)])
    have ord: "po_symbol ord = symb" "po_quantity ord = oi_quantity x" "po_client_order_id ord = ''paper-'' @ ce_uuid ce'"
      "po_side ord = (if oi_side x = ''BUY'' then BUY else SELL)"
      using paper_order_fields [OF g(2)] xf(3) xs by (auto simp: i')
    have d: "of_int c + (if oi_side x = ''BUY'' then oi_quantity x else - oi_quantity x) = of_int \<lfloor>av * w / p\<rfloor>"
      using e(1) Some by (simp add: intent_delta_def)
    have n: "0 \<le> \<lfloor>av * w / p\<rfloor>" using e(2,3) by simp
    have q0: "0 < oi_quantity x" using e(4) Some by simp
    have "\<lfloor>av * w / p\<rfloor> < 10 ^ 14"
    proof (rule target_quantity_exact(3) [OF av(1) _ av(2) w(2) _ _ p(2) e(2) p(3)])
      show "0 < av" "0 \<le> w" "w \<le> 1" using ifr pw by (auto simp: intent_from_portfolio_row_def Let_def split: if_splits)
    qed
    moreover have c0: "0 \<le> c"
      using ifr by (auto simp: intent_from_portfolio_row_def Let_def not_less split: if_splits)
    ultimately have "\<bar>\<lfloor>av * w / p\<rfloor> - c\<bar> < 10 ^ 14" using n cur(2) unfolding abs_less_iff by linarith
    then have "(of_int \<bar>\<lfloor>av * w / p\<rfloor> - c\<bar> :: rat) < of_int (10 ^ 14)" by (simp only: of_int_less_iff)
    moreover have "oi_quantity x = of_int \<bar>\<lfloor>av * w / p\<rfloor> - c\<bar>"
      using d q0 by (cases "oi_side x = ''BUY''") (simp_all add: of_int_diff)
    ultimately have q: "oi_quantity x < 10 ^ 15" "grid 6 (oi_quantity x)"
      by (simp_all add: grid_def)
    show ?thesis
      using new_order_moves_position [OF g(3), of symb] fresh ratio same q0 q cur(1,3) ord Some
      by (auto simp: intent_delta_def acct_def)
  qed
  then show ?thesis using e(1) le by simp
qed

section \<open>Properties\<close>

definition example_facade :: "exec_mode \<Rightarrow> facade" where
  "example_facade m = \<lparr>fc_ctl = example_ctl m, fc_risk = guardian_init None, fc_engine = default_engine,
     fc_gateway = example_state, fc_router = Some example_router, fc_order_gate = Some example_order_gate,
     fc_secrets = Some \<lparr>sb_store = [(''live'', ''id2:key2:7'')], sb_live_secret_ids = [''live'']\<rparr>,
     fc_secret_ids = [(''toss'', ''live'')], fc_currency = ''KRW'',
     fc_audit = Some \<lparr>at_records = [], at_tracker = None\<rparr>, fc_previews = []\<rparr>"

definition example_env :: call_env where
  "example_env = \<lparr>ce_params = example_params, ce_uuid = ''u1'', ce_now = 1000, ce_now2 = 2000, ce_live = Some ''1'',
     ce_net = example_net, ce_json_loads = (\<lambda>_. None)\<rparr>"

definition example_args :: audit_args where
  "example_args = \<lparr>aa_recommendation_run_id = None, aa_portfolio_rank = None, aa_target_weight = None,
     aa_run_manifest_id = None\<rparr>"

text \<open>
  (C37) A preflight places no order: whatever rows, prices and account it is given, and whether it
  returns or raises, \<open>preflight_portfolio\<close> leaves the gateway with its account and orders, the
  brokers, the gates, the secrets and the controller as they were.
\<close>

theorem preflight_places_no_order:
  assumes "preflight_portfolio ces fc rows acct prices markets broker order_type lot rec_id run_id = (res, fc')"
  shows "fc_gateway fc' = fc_gateway fc \<and> fc_router fc' = fc_router fc \<and> fc_ctl fc' = fc_ctl fc
    \<and> fc_risk fc' = fc_risk fc \<and> fc_order_gate fc' = fc_order_gate fc \<and> fc_secrets fc' = fc_secrets fc"
  using same_tradingD [OF preflight_same [OF assms]] by simp

theorem preflight_places_no_order_witness:
  "fc_gateway (snd (preflight_portfolio (\<lambda>_. example_env) (example_facade REAL_LIVE) [example_row] example_account
     example_prices example_markets ''toss'' ''MARKET'' 1 None None)) = example_state"
proof -
  have "fc_gateway (example_facade REAL_LIVE) = example_state" by (simp add: example_facade_def)
  with preflight_places_no_order [OF prod.collapse [symmetric], THEN conjunct1] show ?thesis by metis
qed



text \<open>
  (C8) Injected credentials do not outlive a call: after any sequence of previews, preflights,
  submissions and cancellations, failed ones included, every adapter holds the credentials it was
  configured with, provided it did at the start.
\<close>

theorem credentials_do_not_outlive_calls:
  assumes "facade_ok fc" and "fc_router (foldl facade_step fc es) = Some r" and "(b, ad) \<in> set (br_adapters r)"
  shows "creds_of ad = base_of ad"
  using trading.run_inv [OF assms(1), of es] assms(2,3) by (auto simp: facade_ok_def router_clean_def adapter_clean_def)

theorem credentials_do_not_outlive_calls_witness:
  "list_all (\<lambda>(b, ad). creds_of ad = base_of ad)
     (br_adapters (the (fc_router (foldl facade_step (example_facade REAL_LIVE)
       [FSubmit example_env example_intent 70000 (Some ''ok'') None None example_args,
        FCancel example_env ''toss'' ''42'' (Some ''ok'') None]))))"
    (is "list_all _ (br_adapters (the ?r))")
  unfolding list_all_iff
proof clarify
  fix b ad assume m: "(b, ad) \<in> set (br_adapters (the ?r))"
  have "facade_ok (example_facade REAL_LIVE)" by code_simp
  moreover have "?r = Some (the ?r)" by code_simp
  ultimately show "creds_of ad = base_of ad" using m by (rule credentials_do_not_outlive_calls)
qed

text \<open>
  (C22) Fills are audited: when a facade with an audit trail returns a fill, the trail holds a record
  with the fill's order id, symbol and status.
\<close>

theorem fills_are_audited:
  assumes "facade_submit ce fc i0 price aid pid ctxt aa = (Inr (FillResult f), fc')" and "fc_audit fc = Some t"
  shows "\<exists>t' a. fc_audit fc' = Some t' \<and> a \<in> set (at_records t') \<and> au_client_order_id a = fl_order_id f
    \<and> au_symbol a = fl_symbol f \<and> au_status a = fl_status f"
  by (rule fill_is_audited [OF assms])

theorem fills_are_audited_witness:
  "\<exists>t' a. fc_audit (snd (facade_submit example_env (example_facade PAPER_SANDBOX) example_intent 70000 None None None
      example_args)) = Some t' \<and> a \<in> set (at_records t')
    \<and> au_client_order_id a = fl_order_id (fst (example_result BUY MARKET))
    \<and> au_symbol a = fl_symbol (fst (example_result BUY MARKET)) \<and> au_status a = fl_status (fst (example_result BUY MARKET))"
proof (rule fills_are_audited)
  show "facade_submit example_env (example_facade PAPER_SANDBOX) example_intent 70000 None None None example_args
    = (Inr (FillResult (fst (example_result BUY MARKET))),
       snd (facade_submit example_env (example_facade PAPER_SANDBOX) example_intent 70000 None None None example_args))"
    by (rule prod_eqI) (simp_all only: fst_conv snd_conv, code_simp)
  show "fc_audit (example_facade PAPER_SANDBOX) = Some \<lparr>at_records = [], at_tracker = None\<rparr>"
    by (simp add: example_facade_def)
qed

text \<open>
  (C2) Rebalancing a portfolio row reaches its target: when a row is submitted in a paper mode with
  lot size one and the full fill ratio, and the submission returns, the account afterwards holds
  exactly the largest whole number of shares whose value at the latest price is within the target
  weight of the account value, no matter how many it held before. (Weights to four places, prices
  and values to two, within the exact range.)
\<close>

theorem rebalancing_reaches_target:
  assumes "submit_portfolio_row ce ce' fc r prices markets broker order_type 1 aid rec rank rid = (Inr out, fc')"
    and "get_current_mode (fc_ctl fc) \<noteq> REAL_LIVE" and "me_max_fill_ratio (fc_engine fc) = 1"
    and "dict_get (gs_orders (fc_gateway fc)) (''paper-'' @ ce_uuid ce') = None"
    and "to_decimal (row_get r ''target_weight'' (PStr ''0'')) = Inr w" "grid 4 w"
    and "dict_get prices (row_symbol (ce_show ce) r) = Some p" "grid 2 p" "p < 10 ^ 7" "parse_decimal (ce_show ce p) = Some p"
    and "build_risk_context (gs_account (fc_gateway fc)) prices markets (Some (row_symbol (ce_show ce) r)) = Inr snap"
    and "grid 2 (pc_account_value (rs_context snap))" "pc_account_value (rs_context snap) < 10 ^ 11"
    and "position_of (gs_account (fc_gateway fc)) (row_symbol (ce_show ce) r) = of_int c" "c < 10 ^ 14"
    and "positions_exact (gs_account (fc_gateway fc))"
  shows "position_of (gs_account (fc_gateway fc')) (row_symbol (ce_show ce) r)
      = of_int \<lfloor>pc_account_value (rs_context snap) * w / p\<rfloor>
    \<and> of_int \<lfloor>pc_account_value (rs_context snap) * w / p\<rfloor> * p \<le> pc_account_value (rs_context snap) * w"
  using row_rebalanced [OF assms(1-11) refl assms(12-16)] by simp

theorem rebalancing_reaches_target_witness:
  "position_of (gs_account (fc_gateway (snd (submit_portfolio_row example_env example_env (example_facade PAPER_SANDBOX)
      example_row example_prices example_markets ''toss'' ''MARKET'' 1 None None None None)))) ''005930'' = 7"
proof -
  let ?s = "submit_portfolio_row example_env example_env (example_facade PAPER_SANDBOX)
      example_row example_prices example_markets ''toss'' ''MARKET'' 1 None None None None"
  have symb: "row_symbol (ce_show example_env) example_row = ''005930''" by code_simp
  have "is_ok (fst ?s)" by code_simp
  then obtain out where out: "fst ?s = Inr out" by (cases "fst ?s") auto
  have av: "pc_account_value (rs_context example_snapshot) = 1430000" by code_simp
  have "position_of (gs_account (fc_gateway (snd ?s))) (row_symbol (ce_show example_env) example_row)
    = of_int \<lfloor>pc_account_value (rs_context example_snapshot) * (35/100) / 70000\<rfloor>
    \<and> of_int \<lfloor>pc_account_value (rs_context example_snapshot) * (35/100) / 70000\<rfloor> * 70000
      \<le> pc_account_value (rs_context example_snapshot) * (35/100)"
  proof (rule rebalancing_reaches_target)
    show "?s = (Inr out, snd ?s)" by (metis out prod.collapse)
    show "position_of (gs_account (fc_gateway (example_facade PAPER_SANDBOX)))
      (row_symbol (ce_show example_env) example_row) = of_int 4" by code_simp
    show "build_risk_context (gs_account (fc_gateway (example_facade PAPER_SANDBOX))) example_prices example_markets
      (Some (row_symbol (ce_show example_env) example_row)) = Inr example_snapshot" by code_simp
  qed (code_simp)+
  moreover have "\<lfloor>143 / 20 :: rat\<rfloor> = 7" by (simp add: floor_eq_iff)
  ultimately show ?thesis by (simp add: symb av)
qed

end
