(* ===== verification/Plugin_Registry.thy ===== *)
theory Plugin_Registry
  imports Values
begin

text \<open>
  The plugin side of the runtime (\<open>plugins/\<close>): manifests and their checks, the source and package
  policies, the repository registry, the lifecycle of a plugin and its versions, the skill registry,
  the installer and the manager that coordinates them.

  What is read from outside is a parameter: the git commands, the digest of a payload, and the
  document in \<open>plugin.yaml\<close>, which is a value as YAML and JSON loaders build it. A plugin record
  that the code hands out and shares is a value here; all changes go through the lifecycle.
\<close>

section \<open>Manifests (manifest.py)\<close>

text \<open>The lists of a permission policy hold what the document holds, texts or not.\<close>

record permission_policy =
  pp_network_allow :: "py_value list"
  pp_secret_allow :: "py_value list"
  pp_filesystem_read :: "py_value list"
  pp_shell :: bool
  pp_allowed_modes :: "py_value list"

record plugin_manifest =
  pm_id :: string
  pm_version :: string
  pm_name :: string
  pm_entrypoint :: string
  pm_skills :: "string list"
  pm_permissions :: permission_policy
  pm_source_commit :: py_value
  pm_sha256 :: py_value

definition between :: "int \<Rightarrow> char \<Rightarrow> int \<Rightarrow> bool" where
  "between a c b = (a \<le> of_char c \<and> of_char c \<le> b)"

definition lower_alnum :: "char \<Rightarrow> bool" where
  "lower_alnum c = (between 97 c 122 \<or> between 48 c 57)"

text \<open>\<open>^[a-z0-9][a-z0-9._-]{1,63}$\<close> as a full match.\<close>

definition plugin_id_ok :: "string \<Rightarrow> bool" where
  "plugin_id_ok s = (case s of [] \<Rightarrow> False
     | c # cs \<Rightarrow> lower_alnum c \<and> 1 \<le> length cs \<and> length cs \<le> 63
         \<and> list_all (\<lambda>d. lower_alnum d \<or> d \<in> set ''._-'') cs)"

text \<open>\<open>Path(s).parts\<close> of a relative path.\<close>

definition path_parts :: "string \<Rightarrow> string list" where
  "path_parts s = filter (\<lambda>p. p \<noteq> [] \<and> p \<noteq> ''.'') (split_on CHR ''/'' s)"

definition manifest_validate :: "plugin_manifest \<Rightarrow> unit res" where
  "manifest_validate m =
     (if \<not> plugin_id_ok (pm_id m) then Inl (ValueError ''invalid plugin id'')
      else if strip (pm_version m) = [] \<or> strip (pm_name m) = []
      then Inl (ValueError ''version and name are required'')
      else if starts_with ''/'' (pm_entrypoint m) \<or> ''..'' \<in> set (path_parts (pm_entrypoint m))
      then Inl (ValueError ''entrypoint must stay inside plugin'')
      else if pp_shell (pm_permissions m)
      then Inl (ValueError ''shell execution must be explicitly enabled outside the default policy'')
      else if PStr ''REAL_LIVE'' \<in> set (pp_allowed_modes (pm_permissions m))
      then Inl (ValueError ''REAL_LIVE cannot be granted by a plugin manifest'')
      else Inr ())"

text \<open>\<open>data.get(key) or {}\<close>, and a list below two keys.\<close>

definition section_of :: "py_value \<Rightarrow> string \<Rightarrow> py_value res" where
  "section_of data key = map_sum id (\<lambda>v. if truthy v then v else PDict []) (value_get data key PNone)"

definition listed :: "py_value \<Rightarrow> string \<Rightarrow> string \<Rightarrow> py_value list res" where
  "listed raw key sub =
     res_bind (value_get raw key (PDict [])) (\<lambda>s. res_bind (value_get s sub (PList [])) py_iter)"

definition default_modes :: "py_value" where
  "default_modes = PList [PStr ''PAPER_SANDBOX'', PStr ''VIRTUAL_BACKTEST'']"

definition load_manifest :: "(decimal \<Rightarrow> string) \<Rightarrow> py_value \<Rightarrow> plugin_manifest res" where
  "load_manifest sd data =
     res_bind (section_of data ''plugin'') (\<lambda>plugin.
     res_bind (section_of data ''runtime'') (\<lambda>runtime.
     res_bind (section_of data ''permissions'') (\<lambda>raw.
     res_bind (section_of data ''execution'') (\<lambda>execution.
     res_bind (value_get plugin ''id'' (PStr [])) (\<lambda>i.
     res_bind (value_get plugin ''version'' (PStr [])) (\<lambda>v.
     res_bind (value_get plugin ''name'' (PStr [])) (\<lambda>n.
     res_bind (value_get runtime ''entrypoint'' (PStr [])) (\<lambda>entry.
     res_bind (res_bind (value_get data ''skills'' (PList [])) py_iter) (\<lambda>skills.
     res_bind (listed raw ''network'' ''allow'') (\<lambda>network.
     res_bind (listed raw ''secrets'' ''allow'') (\<lambda>secrets.
     res_bind (listed raw ''filesystem'' ''read'') (\<lambda>reads.
     res_bind (value_get raw ''shell'' (PBool False)) (\<lambda>shell.
     res_bind (res_bind (value_get execution ''allowed_modes'' default_modes) py_iter) (\<lambda>modes.
     res_bind (res_bind (section_of data ''source'') (\<lambda>s. value_get s ''commit'' PNone)) (\<lambda>commit.
     res_bind (res_bind (section_of data ''integrity'') (\<lambda>s. value_get s ''sha256'' PNone)) (\<lambda>sha.
     let m = \<lparr>pm_id = py_str sd i, pm_version = py_str sd v, pm_name = py_str sd n, pm_entrypoint = py_str sd entry,
              pm_skills = map (py_str sd) skills,
              pm_permissions = \<lparr>pp_network_allow = network, pp_secret_allow = secrets, pp_filesystem_read = reads,
                pp_shell = truthy shell, pp_allowed_modes = modes\<rparr>,
              pm_source_commit = commit, pm_sha256 = sha\<rparr>
     in res_bind (manifest_validate m) (\<lambda>_. Inr m)))))))))))))))))"

section \<open>Sources and manifests a policy allows (security.py)\<close>

record security_policy =
  sp_allowed_hosts :: "string list"
  sp_allow_shell :: bool
  sp_allow_live :: bool

definition default_security :: security_policy where
  "default_security = \<lparr>sp_allowed_hosts = [''github.com'', ''raw.githubusercontent.com''],
     sp_allow_shell = False, sp_allow_live = False\<rparr>"

text \<open>What \<open>urlparse\<close> finds in a URL; a bracketed host, which is an IP address, is refused as malformed.\<close>

record parsed_url =
  pu_scheme :: string
  pu_netloc :: string

definition scheme_char :: "char \<Rightarrow> bool" where
  "scheme_char c = (between 97 c 122 \<or> between 65 c 90 \<or> between 48 c 57 \<or> c \<in> set ''+-.'')"

definition url_clean :: "string \<Rightarrow> string" where
  "url_clean s = filter (\<lambda>c. of_char c \<notin> {9, 10, 13 :: int}) (dropWhile (\<lambda>c. (of_char c :: int) \<le> 32) s)"

definition url_parse :: "string \<Rightarrow> parsed_url res" where
  "url_parse u =
     (let url = url_clean u;
          pre = takeWhile (\<lambda>c. c \<noteq> CHR '':'') url;
          has = (length pre < length url \<and> pre \<noteq> [] \<and> (between 97 (hd pre) 122 \<or> between 65 (hd pre) 90)
                 \<and> list_all scheme_char pre);
          scheme = (if has then lower pre else []);
          rest = (if has then drop (Suc (length pre)) url else url);
          netloc = (if starts_with ''//'' rest then takeWhile (\<lambda>c. c \<notin> set ''/?#'') (drop 2 rest) else [])
      in if CHR ''['' \<in> set netloc \<or> CHR '']'' \<in> set netloc then Inl (ValueError ''Invalid IPv6 URL'')
         else Inr \<lparr>pu_scheme = scheme, pu_netloc = netloc\<rparr>)"

text \<open>The parts of the network location: what precedes the last \<open>@\<close>, and the host before a port.\<close>

definition url_userinfo :: "parsed_url \<Rightarrow> string option" where
  "url_userinfo p = (if CHR ''@'' \<in> set (pu_netloc p)
     then Some (rev (tl (dropWhile (\<lambda>c. c \<noteq> CHR ''@'') (rev (pu_netloc p))))) else None)"

definition url_username :: "parsed_url \<Rightarrow> string" where
  "url_username p = (case url_userinfo p of None \<Rightarrow> [] | Some i \<Rightarrow> takeWhile (\<lambda>c. c \<noteq> CHR '':'') i)"

definition url_password :: "parsed_url \<Rightarrow> string" where
  "url_password p = (case url_userinfo p of None \<Rightarrow> [] | Some i \<Rightarrow> drop 1 (dropWhile (\<lambda>c. c \<noteq> CHR '':'') i))"

definition url_hostname :: "parsed_url \<Rightarrow> string" where
  "url_hostname p =
     (let host = takeWhile (\<lambda>c. c \<noteq> CHR '':'') (rev (takeWhile (\<lambda>c. c \<noteq> CHR ''@'') (rev (pu_netloc p))));
          name = takeWhile (\<lambda>c. c \<noteq> CHR ''%'') host
      in lower name @ drop (length name) host)"

definition validate_source :: "security_policy \<Rightarrow> string \<Rightarrow> unit res" where
  "validate_source pol url =
     res_bind (url_parse url) (\<lambda>p.
     if pu_scheme p \<noteq> ''https'' \<or> url_hostname p = [] \<or> url_hostname p \<notin> set (sp_allowed_hosts pol)
     then Inl (PluginSecurityError ''plugin source must use an allowed HTTPS GitHub host'')
     else if url_username p \<noteq> [] \<or> url_password p \<noteq> []
     then Inl (PluginSecurityError ''credential-bearing repository URLs are forbidden'')
     else Inr ())"

text \<open>\<open>not host or "*" in host\<close> and \<open>not name or name.startswith("/")\<close> for a value of the document.\<close>

fun bad_host :: "py_value \<Rightarrow> bool res" where
  "bad_host (PStr s) = Inr (s = [] \<or> CHR ''*'' \<in> set s)"
| "bad_host (PList xs) = Inr (xs = [] \<or> PStr ''*'' \<in> set xs)"
| "bad_host (PDict d) = Inr (d = [] \<or> ''*'' \<in> fst ` set d)"
| "bad_host v = (if truthy v then Inl (TypeError ''argument is not iterable'') else Inr True)"

fun bad_secret :: "py_value \<Rightarrow> bool res" where
  "bad_secret (PStr s) = Inr (s = [] \<or> starts_with ''/'' s)"
| "bad_secret v = (if truthy v then Inl (AttributeError ''object has no attribute startswith'') else Inr True)"

text \<open>\<open>any(\<dots>)\<close> over a test that may raise.\<close>

fun any_res :: "('a \<Rightarrow> bool res) \<Rightarrow> 'a list \<Rightarrow> bool res" where
  "any_res f [] = Inr False"
| "any_res f (x # xs) = res_bind (f x) (\<lambda>b. if b then Inr True else any_res f xs)"

definition security_validate_manifest :: "security_policy \<Rightarrow> plugin_manifest \<Rightarrow> unit res" where
  "security_validate_manifest pol m =
     (let ps = pm_permissions m in
      if pp_shell ps \<and> \<not> sp_allow_shell pol then Inl (PluginSecurityError ''shell permission is disabled'')
      else if PStr ''REAL_LIVE'' \<in> set (pp_allowed_modes ps) \<and> \<not> sp_allow_live pol
      then Inl (PluginSecurityError ''plugins cannot self-grant REAL_LIVE access'')
      else res_bind (any_res bad_host (pp_network_allow ps)) (\<lambda>b.
        if b then Inl (PluginSecurityError ''network permissions must use explicit hosts'')
        else res_bind (any_res bad_secret (pp_secret_allow ps)) (\<lambda>b'.
          if b' then Inl (PluginSecurityError ''secret permissions must use named allow-list entries'')
          else Inr ())))"

section \<open>Where a manifest is fetched from (loader.py)\<close>

definition remove_suffix :: "string \<Rightarrow> string \<Rightarrow> string" where
  "remove_suffix suf s = (if ends_with suf s \<and> suf \<noteq> [] then take (length s - length suf) s else s)"

definition manifest_url :: "security_policy \<Rightarrow> string \<Rightarrow> string \<Rightarrow> string res" where
  "manifest_url pol url ref =
     res_bind (validate_source pol url) (\<lambda>_.
     let parts = split_on CHR ''/'' (rstrip_char CHR ''/'' url) in
     if length parts < 5 \<or> parts ! 2 \<noteq> ''github.com'' then Inl (ValueError ''expected github.com owner/repository URL'')
     else let owner = parts ! 3; repo = remove_suffix ''.git'' (parts ! 4) in
       if owner = [] \<or> repo = [] then Inl (ValueError ''invalid GitHub repository'')
       else Inr (''https://raw.githubusercontent.com/'' @ owner @ ''/'' @ repo @ ''/'' @ ref @ ''/plugin.yaml''))"

section \<open>Repositories (registry.py)\<close>

record registered_plugin =
  rp_manifest :: plugin_manifest
  rp_repository_url :: string
  rp_trusted :: bool
  rp_enabled :: bool

type_synonym plugin_registry = "(string, registered_plugin) dict"

definition registry_get :: "plugin_registry \<Rightarrow> string \<Rightarrow> registered_plugin res" where
  "registry_get reg pid = (case dict_get reg pid of None \<Rightarrow> Inl (KeyError pid) | Some p \<Rightarrow> Inr p)"

definition registry_add :: "plugin_registry \<Rightarrow> string \<Rightarrow> plugin_manifest \<Rightarrow> (registered_plugin \<times> plugin_registry) res" where
  "registry_add reg url m =
     (if \<not> starts_with ''https://github.com/'' url
      then Inl (ValueError ''only HTTPS GitHub repositories are supported'')
      else res_bind (manifest_validate m) (\<lambda>_.
        let p = \<lparr>rp_manifest = m, rp_repository_url = rstrip_char CHR ''/'' url, rp_trusted = False, rp_enabled = False\<rparr>
        in Inr (p, dict_set (pm_id m) p reg)))"

definition registry_enable :: "plugin_registry \<Rightarrow> string \<Rightarrow> (registered_plugin \<times> plugin_registry) res" where
  "registry_enable reg pid =
     res_bind (registry_get reg pid) (\<lambda>p.
     if \<not> rp_trusted p then Inl (PermissionError ''plugin must be verified before enable'')
     else let p' = p\<lparr>rp_enabled := True\<rparr> in Inr (p', dict_set pid p' reg))"

definition registry_verify ::
  "plugin_registry \<Rightarrow> string \<Rightarrow> string \<Rightarrow> string \<Rightarrow> (registered_plugin \<times> plugin_registry) res" where
  "registry_verify reg pid commit sha =
     res_bind (registry_get reg pid) (\<lambda>p.
     if commit = [] \<or> sha = [] then Inl (ValueError ''immutable commit and artifact hash are required'')
     else let m = rp_manifest p in
       if truthy (pm_source_commit m) \<and> pm_source_commit m \<noteq> PStr commit
       then Inl (ValueError ''commit does not match manifest'')
       else if truthy (pm_sha256 m) \<and> pm_sha256 m \<noteq> PStr sha
       then Inl (ValueError ''artifact hash does not match manifest'')
       else let p' = p\<lparr>rp_trusted := True, rp_enabled := False\<rparr> in Inr (p', dict_set pid p' reg))"

section \<open>The lifecycle (lifecycle.py)\<close>

datatype plugin_state = Installed | Verified | Enabled | Disabled | Removed

record plugin_record =
  pr_plugin_id :: string
  pr_version :: string
  pr_commit :: string
  pr_artifact_sha256 :: string
  pr_state :: plugin_state

type_synonym lifecycle = "(string, plugin_record) dict"

definition lc_get :: "lifecycle \<Rightarrow> string \<Rightarrow> plugin_record res" where
  "lc_get lc pid = (case dict_get lc pid of
     None \<Rightarrow> Inl (PluginLifecycleError (''unknown plugin: '' @ pid))
   | Some r \<Rightarrow> if pr_state r = Removed then Inl (PluginLifecycleError ''plugin is removed'') else Inr r)"

definition lc_add :: "lifecycle \<Rightarrow> plugin_record \<Rightarrow> lifecycle res" where
  "lc_add lc r = (case dict_get lc (pr_plugin_id r) of
     Some old \<Rightarrow> if pr_state old \<noteq> Removed then Inl (PluginLifecycleError ''plugin already installed'')
       else Inr (dict_set (pr_plugin_id r) r lc)
   | None \<Rightarrow> Inr (dict_set (pr_plugin_id r) r lc))"

text \<open>\<open>r.state = st\<close> on the record found.\<close>

definition lc_set :: "lifecycle \<Rightarrow> string \<Rightarrow> plugin_state \<Rightarrow> (plugin_record \<times> lifecycle) res" where
  "lc_set lc pid st = res_bind (lc_get lc pid) (\<lambda>r. let r' = r\<lparr>pr_state := st\<rparr> in Inr (r', dict_set pid r' lc))"

definition lc_verify :: "lifecycle \<Rightarrow> string \<Rightarrow> (plugin_record \<times> lifecycle) res" where
  "lc_verify lc pid = lc_set lc pid Verified"

definition lc_enable :: "lifecycle \<Rightarrow> string \<Rightarrow> (plugin_record \<times> lifecycle) res" where
  "lc_enable lc pid =
     res_bind (lc_get lc pid) (\<lambda>r.
     if pr_state r \<noteq> Verified then Inl (PluginLifecycleError ''plugin must be verified before enabling'')
     else lc_set lc pid Enabled)"

definition lc_disable :: "lifecycle \<Rightarrow> string \<Rightarrow> (plugin_record \<times> lifecycle) res" where
  "lc_disable lc pid = lc_set lc pid Disabled"

definition lc_remove :: "lifecycle \<Rightarrow> string \<Rightarrow> (plugin_record \<times> lifecycle) res" where
  "lc_remove lc pid = lc_set lc pid Removed"

section \<open>Versions (rollback.py)\<close>

record plugin_version =
  pv_version :: string
  pv_commit :: string
  pv_artifact_sha256 :: string

type_synonym versions = "(string, plugin_version list) dict"

definition rollback_record :: "versions \<Rightarrow> string \<Rightarrow> plugin_version \<Rightarrow> versions" where
  "rollback_record vs pid v =
     (let old = dict_get_or vs pid [] in
      if old \<noteq> [] \<and> last old = v then vs else dict_set pid (old @ [v]) vs)"

definition rollback_previous :: "versions \<Rightarrow> string \<Rightarrow> plugin_version res" where
  "rollback_previous vs pid =
     (let old = dict_get_or vs pid [] in
      if length old < 2 then Inl (PluginRollbackError ''no previous verified version'')
      else Inr (old ! (length old - 2)))"

definition rollback :: "versions \<Rightarrow> lifecycle \<Rightarrow> string \<Rightarrow> (plugin_record \<times> lifecycle) res" where
  "rollback vs lc pid =
     res_bind (rollback_previous vs pid) (\<lambda>v.
     res_bind (lc_get lc pid) (\<lambda>_.
     res_bind (lc_disable lc pid) (\<lambda>(_, lc').
     let r = \<lparr>pr_plugin_id = pid, pr_version = pv_version v, pr_commit = pv_commit v,
              pr_artifact_sha256 = pv_artifact_sha256 v, pr_state = Verified\<rparr>
     in Inr (r, dict_set pid r lc'))))"

section \<open>Skills (skill_registry.py)\<close>

record registered_skill =
  sk_skill_id :: string
  sk_plugin_id :: string
  sk_version :: string
  sk_entrypoint :: string

type_synonym skill_registry = "(string, registered_skill) dict"

definition skill_register :: "skill_registry \<Rightarrow> registered_skill \<Rightarrow> skill_registry res" where
  "skill_register reg sk = (case dict_get reg (sk_skill_id sk) of
     Some old \<Rightarrow> if sk_plugin_id old \<noteq> sk_plugin_id sk
       then Inl (SkillRegistryError (''skill id collision: '' @ sk_skill_id sk))
       else Inr (dict_set (sk_skill_id sk) sk reg)
   | None \<Rightarrow> Inr (dict_set (sk_skill_id sk) sk reg))"

definition skill_unregister :: "skill_registry \<Rightarrow> string \<Rightarrow> skill_registry" where
  "skill_unregister reg pid = filter (\<lambda>(_, sk). sk_plugin_id sk \<noteq> pid) reg"

definition skill_resolve :: "skill_registry \<Rightarrow> string \<Rightarrow> registered_skill res" where
  "skill_resolve reg skid = (case dict_get reg skid of
     None \<Rightarrow> Inl (SkillRegistryError (''unknown skill: '' @ skid)) | Some sk \<Rightarrow> Inr sk)"

end
