(* ===== verification/Plugin_Manager.thy ===== *)
theory Plugin_Manager
  imports Plugin_Registry
begin

text \<open>
  Installing and managing plugins: the package policy, the installer, which takes a pinned commit
  from a repository without running any of its code, and the manager, which coordinates
  installation, verification, skill registration and enabling, and undoes them on failure.
\<close>

section \<open>Packages (package_policy.py)\<close>

text \<open>
  A package directory: its files below the root as relative paths with their sizes, in the order
  the file system lists them, and the value of the document in \<open>plugin.yaml\<close>.
\<close>

record plugin_package =
  pk_is_dir :: bool
  pk_files :: "(string list \<times> int) list"
  pk_document :: py_value

definition allowed_root_files :: "string list" where
  "allowed_root_files = [''plugin.yaml'', ''README.md'', ''LICENSE'', ''pyproject.toml'', ''requirements.lock'']"

definition blocked_files :: "string list" where
  "blocked_files = [''Dockerfile'', ''Makefile'', ''install.sh'', ''setup.py'', ''package.json'', ''.env'']"

definition blocked_suffixes :: "string list" where
  "blocked_suffixes = [''.pem'', ''.key'', ''.crt'', ''.p12'', ''.pfx'']"

definition blocked_parts :: "string list" where
  "blocked_parts = [''.git'', ''.github'', ''.ssh'', ''node_modules'', ''__pycache__'']"

text \<open>\<open>Path.suffix\<close>: from the last dot on, unless the dot is the first or the last character.\<close>

definition file_suffix :: "string \<Rightarrow> string" where
  "file_suffix name =
     (let ext = rev (takeWhile (\<lambda>c. c \<noteq> CHR ''.'') (rev name)) in
      if ext = [] \<or> length name \<le> length ext + 1 then [] else ''.'' @ ext)"

definition check_package_file :: "string list \<times> int \<Rightarrow> unit res" where
  "check_package_file f =
     (let rel = join_with ''/'' (fst f); name = last (fst f) in
      if list_ex (\<lambda>p. p \<in> set blocked_parts) (fst f)
      then Inl (PluginPackageError (''forbidden package path: '' @ rel))
      else if name \<in> set blocked_files \<or> lower (file_suffix name) \<in> set blocked_suffixes
      then Inl (PluginPackageError (''forbidden package file: '' @ rel))
      else if 5 * 1024 * 1024 < snd f then Inl (PluginPackageError (''package file too large: '' @ rel))
      else Inr ())"

definition check_root_file :: "string list \<times> int \<Rightarrow> unit res" where
  "check_root_file f =
     (if length (fst f) = 1 \<and> hd (fst f) \<notin> set allowed_root_files \<and> hd (fst f) \<noteq> ''plugin.yaml''
      then Inl (PluginPackageError (''unexpected root file: '' @ hd (fst f))) else Inr ())"

fun check_all :: "('a \<Rightarrow> unit res) \<Rightarrow> 'a list \<Rightarrow> unit res" where
  "check_all f [] = Inr ()"
| "check_all f (x # xs) = res_bind (f x) (\<lambda>_. check_all f xs)"

definition has_manifest :: "plugin_package \<Rightarrow> bool" where
  "has_manifest pk = list_ex (\<lambda>f. fst f = [''plugin.yaml'']) (pk_files pk)"

definition validate_package :: "plugin_package \<Rightarrow> unit res" where
  "validate_package pk =
     (if \<not> pk_is_dir pk then Inl (PluginPackageError ''plugin package directory does not exist'')
      else if \<not> has_manifest pk then Inl (PluginPackageError ''plugin.yaml is required'')
      else res_bind (check_all check_package_file (pk_files pk)) (\<lambda>_.
           check_all check_root_file (pk_files pk)))"

section \<open>Installing (installer.py)\<close>

text \<open>
  The git commands: clone, fetch and \<open>rev-parse\<close> of a commit, and the checkout of the resolved
  one; \<open>None\<close> is a command that fails. The digest covers paths and contents of the payload.
\<close>

record git_tools =
  gt_resolve :: "string \<Rightarrow> string \<Rightarrow> string option"
  gt_checkout :: "string \<Rightarrow> string \<Rightarrow> plugin_package option"
  gt_digest :: "plugin_package \<Rightarrow> string"

record installed_plugin =
  ip_plugin_id :: string
  ip_version :: string
  ip_source :: string
  ip_commit :: string
  ip_artifact_sha256 :: string
  ip_path :: "string list"

text \<open>The directory below the installer's root, by plugin, version and commit.\<close>

type_synonym plugin_store = "(string list, plugin_package) dict"

text \<open>\<open>copytree\<close> with \<open>.git\<close> ignored.\<close>

definition without_git :: "plugin_package \<Rightarrow> plugin_package" where
  "without_git pk = pk\<lparr>pk_files := filter (\<lambda>f. ''.git'' \<notin> set (fst f)) (pk_files pk)\<rparr>"

definition document_or_empty :: "plugin_package \<Rightarrow> py_value" where
  "document_or_empty pk = (if truthy (pk_document pk) then pk_document pk else PDict [])"

text \<open>The package a source delivers for a commit, with all checks passed, and its digest.\<close>

definition checked_package ::
  "(decimal \<Rightarrow> string) \<Rightarrow> git_tools \<Rightarrow> security_policy \<Rightarrow> string \<Rightarrow> string \<Rightarrow> string \<Rightarrow> string \<Rightarrow>
     (string \<times> plugin_package \<times> string) res" where
  "checked_package sd git pol url pid version commit =
     (if commit = [] \<or> length commit < 7 then Inl (PluginInstallError ''immutable commit is required'')
      else res_bind (validate_source pol url) (\<lambda>_.
      case gt_resolve git url commit of
        None \<Rightarrow> Inl (PluginInstallError ''git repository retrieval failed'')
      | Some resolved \<Rightarrow>
          if resolved \<noteq> commit \<and> \<not> starts_with commit resolved
          then Inl (PluginInstallError ''requested commit could not be resolved exactly'')
          else case gt_checkout git url resolved of
            None \<Rightarrow> Inl (PluginInstallError ''git repository retrieval failed'')
          | Some pk \<Rightarrow>
              if \<not> has_manifest pk then Inl (PluginInstallError ''plugin.yaml is required'')
              else res_bind (load_manifest sd (document_or_empty pk)) (\<lambda>m.
                if pm_id m \<noteq> pid \<or> pm_version m \<noteq> version
                then Inl (PluginInstallError ''manifest identity/version mismatch'')
                else if truthy (pm_source_commit m) \<and> pm_source_commit m \<noteq> PStr resolved
                then Inl (PluginInstallError ''manifest source commit mismatch'')
                else res_bind (security_validate_manifest pol m) (\<lambda>_.
                  case validate_package pk of
                    Inl e \<Rightarrow> Inl (PluginInstallError (err_message e))
                  | Inr _ \<Rightarrow>
                      let digest = gt_digest git pk in
                      if truthy (pm_sha256 m) \<and> pm_sha256 m \<noteq> PStr digest
                      then Inl (PluginInstallError ''artifact SHA-256 mismatch'')
                      else Inr (resolved, pk, digest)))))"

definition install ::
  "(decimal \<Rightarrow> string) \<Rightarrow> git_tools \<Rightarrow> security_policy \<Rightarrow> plugin_store \<Rightarrow> string \<Rightarrow> string \<Rightarrow> string \<Rightarrow> string \<Rightarrow>
     (installed_plugin \<times> plugin_store) res" where
  "install sd git pol store url pid version commit =
     res_bind (checked_package sd git pol url pid version commit) (\<lambda>(resolved, pk, digest).
     let target = [pid, version, resolved] in
     Inr (\<lparr>ip_plugin_id = pid, ip_version = version, ip_source = url, ip_commit = resolved,
            ip_artifact_sha256 = digest, ip_path = target\<rparr>, dict_set target (without_git pk) store))"

section \<open>The manager (manager.py)\<close>

record plugin_manager =
  mg_registry :: skill_registry
  mg_policy :: security_policy
  mg_lifecycle :: lifecycle
  mg_store :: plugin_store

text \<open>\<open>manifest.source_commit or "untracked"\<close>.\<close>

definition str_or_untracked :: "(decimal \<Rightarrow> string) \<Rightarrow> py_value \<Rightarrow> string" where
  "str_or_untracked sd v = (if truthy v then py_str sd v else ''untracked'')"

text \<open>The loop over the skills; the ones before a collision stay registered.\<close>

fun register_skills :: "plugin_manifest \<Rightarrow> string list \<Rightarrow> skill_registry \<Rightarrow> unit res \<times> skill_registry" where
  "register_skills m [] reg = (Inr (), reg)"
| "register_skills m (s # ss) reg =
     (case skill_register reg \<lparr>sk_skill_id = s, sk_plugin_id = pm_id m, sk_version = pm_version m,
          sk_entrypoint = pm_entrypoint m\<rparr> of
        Inl e \<Rightarrow> (Inl e, reg)
      | Inr reg' \<Rightarrow> register_skills m ss reg')"

definition register_verified ::
  "(decimal \<Rightarrow> string) \<Rightarrow> plugin_manager \<Rightarrow> plugin_manifest \<Rightarrow> unit res \<times> plugin_manager" where
  "register_verified sd mg m =
     (case res_bind (manifest_validate m) (\<lambda>_.
           res_bind (security_validate_manifest (mg_policy mg) m) (\<lambda>_.
           case lc_get (mg_lifecycle mg) (pm_id m) of
             Inr _ \<Rightarrow> Inr (mg_lifecycle mg)
           | Inl _ \<Rightarrow> lc_add (mg_lifecycle mg)
               \<lparr>pr_plugin_id = pm_id m, pr_version = pm_version m, pr_commit = str_or_untracked sd (pm_source_commit m),
                pr_artifact_sha256 = str_or_untracked sd (pm_sha256 m), pr_state = Installed\<rparr>)) of
        Inl e \<Rightarrow> (Inl e, mg)
      | Inr lc \<Rightarrow>
          (case register_skills m (pm_skills m) (mg_registry mg) of
             (res, reg) \<Rightarrow> (res, mg\<lparr>mg_lifecycle := lc, mg_registry := reg\<rparr>)))"

text \<open>The body of the \<open>try\<close> block: verify, register, enable.\<close>

definition activate ::
  "(decimal \<Rightarrow> string) \<Rightarrow> plugin_manager \<Rightarrow> string \<Rightarrow> plugin_manifest \<Rightarrow> unit res \<times> plugin_manager" where
  "activate sd mg pid m =
     (case lc_verify (mg_lifecycle mg) pid of
        Inl e \<Rightarrow> (Inl e, mg)
      | Inr (_, lc) \<Rightarrow>
          (case register_verified sd (mg\<lparr>mg_lifecycle := lc\<rparr>) m of
             (Inl e, mg') \<Rightarrow> (Inl e, mg')
           | (Inr _, mg') \<Rightarrow>
               (case lc_enable (mg_lifecycle mg') pid of
                  Inl e \<Rightarrow> (Inl e, mg')
                | Inr (_, lc') \<Rightarrow> (Inr (), mg'\<lparr>mg_lifecycle := lc'\<rparr>))))"

text \<open>The handler of its exceptions: the skills and the plugin are removed and the exception is raised again.\<close>

definition undo_activation :: "plugin_manager \<Rightarrow> string \<Rightarrow> py_error \<Rightarrow> unit res \<times> plugin_manager" where
  "undo_activation mg pid e =
     (let mg' = mg\<lparr>mg_registry := skill_unregister (mg_registry mg) pid\<rparr> in
      case lc_remove (mg_lifecycle mg') pid of
        Inl e' \<Rightarrow> (Inl e', mg')
      | Inr (_, lc) \<Rightarrow> (Inl e, mg'\<lparr>mg_lifecycle := lc\<rparr>))"

definition install_and_enable ::
  "(decimal \<Rightarrow> string) \<Rightarrow> git_tools \<Rightarrow> plugin_manager \<Rightarrow> string \<Rightarrow> string \<Rightarrow> string \<Rightarrow> string \<Rightarrow>
     installed_plugin res \<times> plugin_manager" where
  "install_and_enable sd git mg url pid version commit =
     (case install sd git (mg_policy mg) (mg_store mg) url pid version commit of
        Inl e \<Rightarrow> (Inl e, mg)
      | Inr (ip, store) \<Rightarrow>
          (let mg1 = mg\<lparr>mg_store := store\<rparr> in
           case res_bind (case dict_get store (ip_path ip) of
                None \<Rightarrow> Inl (ValueError ''No such file or directory'')
              | Some pk \<Rightarrow> load_manifest sd (document_or_empty pk)) (\<lambda>m.
             res_bind (lc_add (mg_lifecycle mg1)
               \<lparr>pr_plugin_id = ip_plugin_id ip, pr_version = ip_version ip, pr_commit = ip_commit ip,
                pr_artifact_sha256 = ip_artifact_sha256 ip, pr_state = Installed\<rparr>) (\<lambda>lc. Inr (m, lc))) of
             Inl e \<Rightarrow> (Inl e, mg1)
           | Inr (m, lc) \<Rightarrow>
               (case activate sd (mg1\<lparr>mg_lifecycle := lc\<rparr>) pid m of
                  (Inr _, mg') \<Rightarrow> (Inr ip, mg')
                | (Inl e, mg') \<Rightarrow>
                    (case undo_activation mg' pid e of (res, mg'') \<Rightarrow> (map_sum id (\<lambda>_. ip) res, mg'')))))"

definition manager_disable :: "plugin_manager \<Rightarrow> string \<Rightarrow> unit res \<times> plugin_manager" where
  "manager_disable mg pid =
     (case lc_disable (mg_lifecycle mg) pid of
        Inl e \<Rightarrow> (Inl e, mg)
      | Inr (_, lc) \<Rightarrow> (Inr (), mg\<lparr>mg_lifecycle := lc, mg_registry := skill_unregister (mg_registry mg) pid\<rparr>))"

section \<open>The state diagram\<close>

text \<open>
  The states a plugin can move between, as an abstract specification; \<open>None\<close> is a plugin that was
  never added. A plugin is enabled only from \<open>Verified\<close>, and \<open>Removed\<close> is left only by installing
  it again.
\<close>

inductive moves :: "plugin_state option \<Rightarrow> plugin_state option \<Rightarrow> bool" where
  stay: "moves s s"
| install_new: "moves None (Some Installed)"
| install_again: "moves (Some Removed) (Some Installed)"
| verify: "s \<noteq> Removed \<Longrightarrow> moves (Some s) (Some Verified)"
| enable: "moves (Some Verified) (Some Enabled)"
| disable: "s \<noteq> Removed \<Longrightarrow> moves (Some s) (Some Disabled)"
| remove: "moves (Some s) (Some Removed)"

inductive_cases moves_to_enabled: "moves s (Some Enabled)"

inductive_simps moves_from_removed: "moves (Some Removed) s"

definition state_of :: "lifecycle \<Rightarrow> string \<Rightarrow> plugin_state option" where
  "state_of lc pid = map_option pr_state (dict_get lc pid)"

datatype lc_event = LcAdd plugin_record | LcVerify string | LcEnable string | LcDisable string | LcRemove string
  | LcRollback versions string

fun lc_step :: "lifecycle \<Rightarrow> lc_event \<Rightarrow> lifecycle" where
  "lc_step lc (LcAdd r) = (case lc_add lc (r\<lparr>pr_state := Installed\<rparr>) of Inl _ \<Rightarrow> lc | Inr lc' \<Rightarrow> lc')"
| "lc_step lc (LcVerify p) = (case lc_verify lc p of Inl _ \<Rightarrow> lc | Inr (_, lc') \<Rightarrow> lc')"
| "lc_step lc (LcEnable p) = (case lc_enable lc p of Inl _ \<Rightarrow> lc | Inr (_, lc') \<Rightarrow> lc')"
| "lc_step lc (LcDisable p) = (case lc_disable lc p of Inl _ \<Rightarrow> lc | Inr (_, lc') \<Rightarrow> lc')"
| "lc_step lc (LcRemove p) = (case lc_remove lc p of Inl _ \<Rightarrow> lc | Inr (_, lc') \<Rightarrow> lc')"
| "lc_step lc (LcRollback vs p) = (case rollback vs lc p of Inl _ \<Rightarrow> lc | Inr (_, lc') \<Rightarrow> lc')"

lemma lc_get_state: "lc_get lc p = Inr r \<Longrightarrow> dict_get lc p = Some r \<and> pr_state r \<noteq> Removed"
  by (auto simp: lc_get_def split: option.splits if_splits)

lemma lc_get_exists: "state_of lc p = Some s \<Longrightarrow> s \<noteq> Removed \<Longrightarrow> \<exists>r. lc_get lc p = Inr r"
  by (auto simp: lc_get_def state_of_def)

lemma lc_set_exists: "state_of lc p = Some s \<Longrightarrow> s \<noteq> Removed \<Longrightarrow> \<exists>r lc'. lc_set lc p st = Inr (r, lc')"
  using lc_get_exists [of lc p s] by (auto simp: lc_set_def Let_def)

lemma lc_enable_exists: "state_of lc p = Some Verified \<Longrightarrow> \<exists>r lc'. lc_enable lc p = Inr (r, lc')"
  using lc_set_exists [of lc p Verified Enabled]
  by (auto simp: lc_enable_def lc_get_def state_of_def)

lemma lc_set_state:
  "lc_set lc p st = Inr (r, lc') \<Longrightarrow> \<exists>s. state_of lc p = Some s \<and> s \<noteq> Removed
     \<and> state_of lc' q = (if q = p then Some st else state_of lc q)"
  by (auto simp: lc_set_def res_bind_eq_Inr state_of_def Let_def dest!: lc_get_state)

lemma lc_add_state:
  "lc_add lc r = Inr lc' \<Longrightarrow> state_of lc (pr_plugin_id r) \<in> {None, Some Removed}
     \<and> state_of lc' q = (if q = pr_plugin_id r then Some (pr_state r) else state_of lc q)"
  by (auto simp: lc_add_def state_of_def split: option.splits if_splits)

lemma lc_enable_state:
  assumes "lc_enable lc p = Inr (r, lc')"
  shows "state_of lc p = Some Verified \<and> state_of lc' q = (if q = p then Some Enabled else state_of lc q)"
proof -
  obtain r0 where r0: "lc_get lc p = Inr r0" "pr_state r0 = Verified" "lc_set lc p Enabled = Inr (r, lc')"
    using assms by (auto simp: lc_enable_def res_bind_eq_Inr split: if_splits)
  then show ?thesis using lc_set_state [OF r0(3), of q] lc_get_state [OF r0(1)] by (simp add: state_of_def)
qed

lemma rollback_state:
  assumes "rollback vs lc p = Inr (r, lc')"
  shows "\<exists>s. state_of lc p = Some s \<and> s \<noteq> Removed \<and> state_of lc' q = (if q = p then Some Verified else state_of lc q)"
proof -
  obtain v r1 lc1 where v: "lc_set lc p Disabled = Inr (r1, lc1)" "lc' = dict_set p r lc1" "pr_state r = Verified"
    using assms by (auto simp: rollback_def lc_disable_def res_bind_eq_Inr Let_def)
  then show ?thesis using lc_set_state [OF v(1), of q] by (auto simp: state_of_def)
qed

lemmas lc_states = lc_set_state lc_add_state lc_enable_state rollback_state

text \<open>The operations refine the diagram: each of them moves every plugin along one of its arrows.\<close>

lemma lc_step_moves: "moves (state_of lc q) (state_of (lc_step lc e) q)"
proof (cases e)
  case (LcAdd r)
  then show ?thesis
    by (auto intro: moves.intros split: sum.splits dest!: lc_add_state [where q = q])
next
  case (LcVerify p)
  then show ?thesis
    by (auto simp: lc_verify_def intro: moves.intros split: sum.splits dest!: lc_set_state [where q = q])
next
  case (LcEnable p)
  then show ?thesis
    by (auto intro: moves.intros split: sum.splits dest!: lc_enable_state [where q = q])
next
  case (LcDisable p)
  then show ?thesis
    by (auto simp: lc_disable_def intro: moves.intros split: sum.splits dest!: lc_set_state [where q = q])
next
  case (LcRemove p)
  then show ?thesis
    by (auto simp: lc_remove_def intro: moves.intros split: sum.splits dest!: lc_set_state [where q = q])
next
  case (LcRollback vs p)
  then show ?thesis
    by (auto intro: moves.intros split: sum.splits dest!: rollback_state [where q = q])
qed

interpretation plugin: follows_diagram lc_step state_of moves
  by unfold_locales (rule lc_step_moves)

lemma enabling_event:
  assumes "state_of lc p \<noteq> Some Enabled" and "state_of (lc_step lc e) p = Some Enabled"
  shows "e = LcEnable p"
  using assms
  by (cases e) (auto simp: lc_verify_def lc_disable_def lc_remove_def split: sum.splits if_splits
      dest!: lc_states [where q = p])

section \<open>Skills keep their owner\<close>

definition owner_of :: "skill_registry \<Rightarrow> string \<Rightarrow> string option" where
  "owner_of reg s = map_option sk_plugin_id (dict_get reg s)"

lemma register_owner:
  assumes "skill_register reg sk = Inr reg'"
  shows "owner_of reg (sk_skill_id sk) \<in> {None, Some (sk_plugin_id sk)}"
    and "dict_get reg' s = (if s = sk_skill_id sk then Some sk else dict_get reg s)"
  using assms by (auto simp: skill_register_def owner_of_def split: option.splits if_splits)

lemma unregister_get:
  "dict_wf reg \<Longrightarrow> dict_get (skill_unregister reg p) s =
     (case dict_get reg s of None \<Rightarrow> None | Some sk \<Rightarrow> if sk_plugin_id sk = p then None else Some sk)"
proof (induction reg)
  case (Cons x reg)
  obtain k sk where x: "x = (k, sk)" by fastforce
  have "s \<notin> fst ` set reg \<Longrightarrow> dict_get (filter P reg) s = None" for P
    by (auto simp: map_of_eq_None_iff)
  then show ?case using Cons x by (auto simp: skill_unregister_def split: option.splits)
qed (simp add: skill_unregister_def)

lemma unregister_wf: "dict_wf reg \<Longrightarrow> dict_wf (skill_unregister reg p)"
  by (simp add: skill_unregister_def distinct_map_filter)

lemma register_skills_owner:
  assumes "register_skills m ss reg = (res, reg')"
  shows "(owner_of reg s \<notin> {None, Some (pm_id m)} \<longrightarrow> dict_get reg' s = dict_get reg s)
    \<and> (owner_of reg' s \<in> {owner_of reg s, Some (pm_id m)}) \<and> (dict_wf reg \<longrightarrow> dict_wf reg')
    \<and> (res = Inr () \<longrightarrow> s \<in> set ss \<longrightarrow> owner_of reg' s = Some (pm_id m))"
  using assms
proof (induction m ss reg rule: register_skills.induct)
  case (2 m x xs reg)
  let ?sk = "\<lparr>sk_skill_id = x, sk_plugin_id = pm_id m, sk_version = pm_version m, sk_entrypoint = pm_entrypoint m\<rparr>"
  show ?case
  proof (cases "skill_register reg ?sk")
    case (Inl e)
    then show ?thesis using 2 by auto
  next
    case (Inr reg1)
    note r = register_owner [OF Inr]
    have wf: "dict_wf reg \<longrightarrow> dict_wf reg1"
      using Inr by (auto simp: skill_register_def split: option.splits if_splits)
    have IH: "(owner_of reg1 s \<notin> {None, Some (pm_id m)} \<longrightarrow> dict_get reg' s = dict_get reg1 s)
      \<and> (owner_of reg' s \<in> {owner_of reg1 s, Some (pm_id m)}) \<and> (dict_wf reg1 \<longrightarrow> dict_wf reg')
      \<and> (res = Inr () \<longrightarrow> s \<in> set xs \<longrightarrow> owner_of reg' s = Some (pm_id m))"
      using "2.IH" [OF Inr] "2.prems" Inr by simp
    show ?thesis
    proof (cases "s = x")
      case True
      then have "owner_of reg1 s = Some (pm_id m)" using r(2) [of s] by (simp add: owner_of_def)
      then show ?thesis using IH r(1) True wf by auto
    next
      case False
      then have "dict_get reg1 s = dict_get reg s" using r(2) [of s] by simp
      then show ?thesis using IH False wf by (auto simp: owner_of_def)
    qed
  qed
qed auto

section \<open>Installation\<close>

lemma checked_manifest:
  assumes "checked_package sd git pol url pid version commit = Inr (resolved, pk, digest)"
  shows "\<exists>m. load_manifest sd (document_or_empty pk) = Inr m \<and> pm_id m = pid \<and> pm_version m = version
    \<and> gt_checkout git url resolved = Some pk \<and> validate_package pk = Inr () \<and> security_validate_manifest pol m = Inr ()"
  using assms
  by (auto simp: checked_package_def res_bind_eq_Inr Let_def split: if_splits option.splits sum.splits)

lemma load_manifest_valid: "load_manifest sd d = Inr m \<Longrightarrow> manifest_validate m = Inr ()"
  by (auto simp: load_manifest_def res_bind_eq_Inr Let_def)

lemma installed_package:
  assumes "install sd git pol store url pid version commit = Inr (ip, store')"
  shows "\<exists>pk m. dict_get store' (ip_path ip) = Some (without_git pk) \<and> load_manifest sd (document_or_empty pk) = Inr m
    \<and> pm_id m = pid \<and> ip_plugin_id ip = pid \<and> security_validate_manifest pol m = Inr ()"
proof -
  obtain resolved pk digest where c: "checked_package sd git pol url pid version commit = Inr (resolved, pk, digest)"
    "ip_plugin_id ip = pid" "dict_get store' (ip_path ip) = Some (without_git pk)"
    using assms by (auto simp: install_def res_bind_eq_Inr Let_def)
  from checked_manifest [OF c(1)] c(2,3) show ?thesis by blast
qed

lemma document_without_git [simp]: "document_or_empty (without_git pk) = document_or_empty pk"
  by (simp add: document_or_empty_def without_git_def)

text \<open>What the two phases of enabling and their undoing do to a plugin and to the other plugins.\<close>

definition others_kept :: "plugin_manager \<Rightarrow> plugin_manager \<Rightarrow> string \<Rightarrow> bool" where
  "others_kept mg mg' pid = ((\<forall>q. q \<noteq> pid \<longrightarrow> state_of (mg_lifecycle mg') q = state_of (mg_lifecycle mg) q)
     \<and> (\<forall>s. owner_of (mg_registry mg) s \<notin> {None, Some pid} \<longrightarrow>
          dict_get (mg_registry mg') s = dict_get (mg_registry mg) s))"

lemma others_kept_refl [simp]: "others_kept mg mg pid"
  by (simp add: others_kept_def)

lemma others_kept_trans:
  assumes ab: "others_kept a b pid" and bc: "others_kept b c pid"
  shows "others_kept a c pid"
  unfolding others_kept_def
proof (intro conjI allI impI)
  fix q assume "q \<noteq> pid"
  then show "state_of (mg_lifecycle c) q = state_of (mg_lifecycle a) q" using ab bc by (simp add: others_kept_def)
next
  fix s assume o: "owner_of (mg_registry a) s \<notin> {None, Some pid}"
  then have "dict_get (mg_registry b) s = dict_get (mg_registry a) s" using ab by (simp add: others_kept_def)
  moreover from this o have "owner_of (mg_registry b) s \<notin> {None, Some pid}" by (simp add: owner_of_def)
  then have "dict_get (mg_registry c) s = dict_get (mg_registry b) s" using bc by (simp add: others_kept_def)
  ultimately show "dict_get (mg_registry c) s = dict_get (mg_registry a) s" by simp
qed

lemma activate_effect:
  assumes a: "activate sd mg pid m = (res, mg')" and id: "pm_id m = pid"
    and wf: "dict_wf (mg_registry mg)" and st: "state_of (mg_lifecycle mg) pid = Some Installed"
  shows "others_kept mg mg' pid \<and> dict_wf (mg_registry mg') \<and> state_of (mg_lifecycle mg') pid \<in> {Some Verified, Some Enabled}
    \<and> (res = Inr () \<longrightarrow> state_of (mg_lifecycle mg') pid = Some Enabled
         \<and> (\<forall>s \<in> set (pm_skills m). owner_of (mg_registry mg') s = Some pid))"
proof -
  obtain r lc where v: "lc_verify (mg_lifecycle mg) pid = Inr (r, lc)"
    using lc_set_exists [OF st, of Verified] by (auto simp: lc_verify_def)
  have lc: "state_of lc q = (if q = pid then Some Verified else state_of (mg_lifecycle mg) q)" for q
    using lc_set_state [OF v [unfolded lc_verify_def], of q] by blast
  then have st1: "state_of lc pid = Some Verified" by simp
  then have g1: "\<exists>r. lc_get lc pid = Inr r" by (rule lc_get_exists) simp
  obtain res1 mg1 where rv: "register_verified sd (mg\<lparr>mg_lifecycle := lc\<rparr>) m = (res1, mg1)" by fastforce
  have mg1: "mg_lifecycle mg1 = lc" "others_kept (mg\<lparr>mg_lifecycle := lc\<rparr>) mg1 pid" "dict_wf (mg_registry mg1)"
    "res1 = Inr () \<longrightarrow> (\<forall>s \<in> set (pm_skills m). owner_of (mg_registry mg1) s = Some pid)"
    using rv g1 id wf register_skills_owner [of m "pm_skills m" "mg_registry mg"]
    by (auto simp: register_verified_def others_kept_def res_bind_def split: sum.splits prod.splits)
  have k: "others_kept mg (mg\<lparr>mg_lifecycle := lc\<rparr>) pid" using lc by (simp add: others_kept_def)
  show ?thesis
  proof (cases res1)
    case (Inl e)
    then have "mg' = mg1" "res \<noteq> Inr ()" using a v rv by (auto simp: activate_def)
    then show ?thesis using mg1 lc others_kept_trans [OF k mg1(2)] by simp
  next
    case (Inr u)
    obtain r2 lc2 where e: "lc_enable lc pid = Inr (r2, lc2)"
      using lc_enable_exists [OF st1] by blast
    then have "mg' = mg1\<lparr>mg_lifecycle := lc2\<rparr>" using a v rv Inr mg1(1) by (auto simp: activate_def)
    moreover have "state_of lc2 q = (if q = pid then Some Enabled else state_of lc q)" for q
      using lc_enable_state [OF e, of q] by blast
    ultimately show ?thesis using mg1 lc others_kept_trans [OF k mg1(2)] Inr by (auto simp: others_kept_def)
  qed
qed

lemma undo_effect:
  assumes "undo_activation mg pid e = (res, mg')" and wf: "dict_wf (mg_registry mg)"
    and st: "state_of (mg_lifecycle mg) pid \<in> {Some Verified, Some Enabled}"
  shows "res = Inl e \<and> others_kept mg mg' pid \<and> state_of (mg_lifecycle mg') pid = Some Removed
    \<and> (\<forall>s. owner_of (mg_registry mg') s \<noteq> Some pid)"
proof -
  obtain r lc where rm: "lc_set (mg_lifecycle mg) pid Removed = Inr (r, lc)"
    using st lc_set_exists [of "mg_lifecycle mg" pid _ Removed] by auto
  then have mg': "res = Inl e" "mg' = mg\<lparr>mg_registry := skill_unregister (mg_registry mg) pid, mg_lifecycle := lc\<rparr>"
    using assms(1) by (auto simp: undo_activation_def lc_remove_def Let_def)
  have "state_of lc q = (if q = pid then Some Removed else state_of (mg_lifecycle mg) q)" for q
    using lc_set_state [OF rm, of q] by blast
  then show ?thesis using mg' wf
    by (auto simp: others_kept_def owner_of_def unregister_get split: option.splits)
qed

lemma install_effect:
  assumes i: "install_and_enable sd git mg url pid version commit = (res, mg')" and wf: "dict_wf (mg_registry mg)"
  shows "others_kept mg mg' pid
    \<and> (case res of
         Inr ip \<Rightarrow> state_of (mg_lifecycle mg') pid = Some Enabled
       | Inl e \<Rightarrow> (mg_lifecycle mg' = mg_lifecycle mg \<and> mg_registry mg' = mg_registry mg)
           \<or> (state_of (mg_lifecycle mg') pid = Some Removed \<and> (\<forall>s. owner_of (mg_registry mg') s \<noteq> Some pid)))"
proof (cases "install sd git (mg_policy mg) (mg_store mg) url pid version commit")
  case (Inl e)
  then show ?thesis using i by (auto simp: install_and_enable_def)
next
  case (Inr x)
  obtain ip store where x: "x = (ip, store)" by fastforce
  obtain pk m where pk: "dict_get store (ip_path ip) = Some (without_git pk)" "load_manifest sd (document_or_empty pk) = Inr m"
    "pm_id m = pid" "ip_plugin_id ip = pid"
    using installed_package [OF Inr [unfolded x]] by blast
  let ?r = "\<lparr>pr_plugin_id = ip_plugin_id ip, pr_version = ip_version ip, pr_commit = ip_commit ip,
      pr_artifact_sha256 = ip_artifact_sha256 ip, pr_state = Installed\<rparr>"
  show ?thesis
  proof (cases "lc_add (mg_lifecycle mg) ?r")
    case (Inl e)
    then show ?thesis using i Inr x pk by (auto simp: install_and_enable_def others_kept_def)
  next
    case add: (Inr lc)
    have lc: "state_of lc q = (if q = pid then Some Installed else state_of (mg_lifecycle mg) q)" for q
      using lc_add_state [OF add, of q] pk(4) by auto
    define mg1 where "mg1 = mg\<lparr>mg_store := store, mg_lifecycle := lc\<rparr>"
    have k: "others_kept mg mg1 pid" using lc by (simp add: others_kept_def mg1_def)
    obtain ra mg2 where ac: "activate sd mg1 pid m = (ra, mg2)" by fastforce
    have eff: "others_kept mg1 mg2 pid \<and> dict_wf (mg_registry mg2)
      \<and> state_of (mg_lifecycle mg2) pid \<in> {Some Verified, Some Enabled}
      \<and> (ra = Inr () \<longrightarrow> state_of (mg_lifecycle mg2) pid = Some Enabled
           \<and> (\<forall>s \<in> set (pm_skills m). owner_of (mg_registry mg2) s = Some pid))"
      by (rule activate_effect [OF ac pk(3)]) (use wf lc in \<open>simp_all add: mg1_def\<close>)
    show ?thesis
    proof (cases ra)
      case (Inl e)
      obtain ru mg3 where un: "undo_activation mg2 pid e = (ru, mg3)" by fastforce
      note u = undo_effect [OF un] eff
      have "res = map_sum id (\<lambda>_. ip) ru" "mg' = mg3"
        using i Inr x pk add ac Inl un by (auto simp: install_and_enable_def mg1_def)
      moreover have "others_kept mg mg3 pid"
        using u by (blast intro: others_kept_trans [OF k] others_kept_trans)
      ultimately show ?thesis using u by simp
    next
      case (Inr u)
      then have "res = Inr ip" "mg' = mg2"
        using i \<open>install _ _ _ _ _ _ _ _ = Inr x\<close> x pk add ac by (auto simp: install_and_enable_def mg1_def)
      then show ?thesis using eff Inr others_kept_trans [OF k] by auto
    qed
  qed
qed

section \<open>Properties\<close>



definition example_record :: plugin_record where
  "example_record = \<lparr>pr_plugin_id = ''alpha'', pr_version = ''1.0'', pr_commit = ''0123456789'',
     pr_artifact_sha256 = ''d'', pr_state = Installed\<rparr>"



text \<open>A repository whose plugin wants two skills, the second of which another plugin owns.\<close>

definition example_package :: "string \<Rightarrow> plugin_package" where
  "example_package f = \<lparr>pk_is_dir = True, pk_files = [([''plugin.yaml''], 200), ([f, ''HEAD''], 41), ([''src'', ''a.py''], 10)],
     pk_document = PDict [(''plugin'', PDict [(''id'', PStr ''alpha''), (''version'', PStr ''1.0''), (''name'', PStr ''Alpha'')]),
       (''runtime'', PDict [(''entrypoint'', PStr ''src/a.py'')]), (''skills'', PList [PStr ''s1'', PStr ''s2''])]\<rparr>"

definition example_git :: "string \<Rightarrow> git_tools" where
  "example_git f = \<lparr>gt_resolve = (\<lambda>_ _. Some ''0123456789''), gt_checkout = (\<lambda>_ _. Some (example_package f)),
     gt_digest = (\<lambda>_. ''d'')\<rparr>"

definition example_manager :: plugin_manager where
  "example_manager = \<lparr>mg_registry = [(''s2'', \<lparr>sk_skill_id = ''s2'', sk_plugin_id = ''beta'', sk_version = ''1'', sk_entrypoint = ''b''\<rparr>)],
     mg_policy = default_security, mg_lifecycle = [], mg_store = []\<rparr>"

definition example_install :: "string \<Rightarrow> installed_plugin res \<times> plugin_manager" where
  "example_install f = install_and_enable (\<lambda>_. []) (example_git f) example_manager ''https://github.com/o/r'' ''alpha'' ''1.0''
     ''0123456''"


text \<open>
  (C19) No git repository can be installed: a clone keeps its data in the directory \<open>.git\<close> of the
  working tree, and the package check runs on the clone itself and refuses every path with a
  \<open>.git\<close> part, so with a git that behaves so every installation fails and nothing is stored.
\<close>

theorem git_clones_are_refused:
  assumes clone: "\<And>u c pk. gt_checkout git u c = Some pk \<Longrightarrow> list_ex (\<lambda>f. ''.git'' \<in> set (fst f)) (pk_files pk)"
  shows "\<exists>e. install_and_enable sd git mg url pid version commit = (Inl e, mg)"
proof -
  have refused: "check_all check_package_file fs \<noteq> Inr ()" if "list_ex (\<lambda>f. ''.git'' \<in> set (fst f)) fs" for fs
    using that
  proof (induction fs)
    case (Cons f fs)
    have "check_package_file f \<noteq> Inr ()" if "''.git'' \<in> set (fst f)"
      using that by (auto simp: check_package_file_def Let_def list_ex_iff blocked_parts_def split: if_splits)
    then show ?case using Cons by (cases "check_package_file f") auto
  qed simp
  have "\<exists>e. checked_package sd git (mg_policy mg) url pid version commit = Inl e"
  proof (cases "checked_package sd git (mg_policy mg) url pid version commit")
    case (Inr x)
    obtain resolved pk digest where x: "x = (resolved, pk, digest)" by (cases x)
    from checked_manifest [OF Inr [unfolded x]] have pk: "gt_checkout git url resolved = Some pk" "validate_package pk = Inr ()"
      by auto
    from pk(2) have "check_all check_package_file (pk_files pk) = Inr ()"
      by (auto simp: validate_package_def res_bind_eq_Inr split: if_splits)
    then show ?thesis using refused clone [OF pk(1)] by blast
  qed simp
  then show ?thesis by (auto simp: install_and_enable_def install_def)
qed

theorem git_clones_are_refused_witness: "\<exists>e. example_install ''.git'' = (Inl e, example_manager)"
  unfolding example_install_def
proof (rule git_clones_are_refused)
  fix u c pk
  assume "gt_checkout (example_git ''.git'') u c = Some pk"
  then have "pk = example_package ''.git''" by (simp add: example_git_def)
  then show "list_ex (\<lambda>f. ''.git'' \<in> set (fst f)) (pk_files pk)" by (simp add: example_package_def)
qed

end
