(* ===== verification/Plugin_Runtime.thy ===== *)
theory Plugin_Runtime
  imports Plugin_Manager Gateway_Runs Risk
begin

text \<open>
  Running plugins: the mode policy and the sandbox policy, the executor of bound skill handlers, the
  gateway and the application runtime in front of it, plugin orders, the plugin backtest runner, and
  the small stores beside them (secrets, audit events, episodes). \<open>skills.py\<close>, the registry of
  the core's own skills, is here too.

  A handler is a function of its keyword arguments that returns a value or raises; what it does
  besides is outside the model. Executor and runtime may be given different skill registries, as in
  the code; risk guardian and gateway share controller and account.
\<close>

section \<open>Mode policy (policy.py)\<close>

definition safe_modes :: "string list" where
  "safe_modes = [''PAPER_SANDBOX'', ''VIRTUAL_BACKTEST'']"

definition mode_policy_init :: "string list option \<Rightarrow> string list res" where
  "mode_policy_init allowed =
     (let requested = (case allowed of None \<Rightarrow> safe_modes | Some ms \<Rightarrow> ms) in
      if ''REAL_LIVE'' \<in> set requested then Inl (PluginModeDenied ''REAL_LIVE is not a valid plugin execution mode'')
      else Inr (filter (\<lambda>m. m \<in> set safe_modes) requested))"

definition mode_policy_check :: "string list \<Rightarrow> string \<Rightarrow> unit res" where
  "mode_policy_check allowed mode =
     raise_if (mode \<notin> set allowed) (PluginModeDenied (''plugin execution denied in mode: '' @ mode))"

definition mode_policy_can_live :: "string list \<Rightarrow> bool" where
  "mode_policy_can_live allowed = False"

section \<open>Sandbox policy (sandbox.py)\<close>

record sandbox_policy =
  sb_network_hosts :: "string list"
  sb_readable_paths :: "string list"
  sb_writable_paths :: "string list"
  sb_allow_shell :: bool
  sb_max_cpu_seconds :: int
  sb_max_memory_mb :: int
  sb_timeout_seconds :: int

definition default_sandbox :: sandbox_policy where
  "default_sandbox = \<lparr>sb_network_hosts = [], sb_readable_paths = [], sb_writable_paths = [], sb_allow_shell = False,
     sb_max_cpu_seconds = 10, sb_max_memory_mb = 256, sb_timeout_seconds = 30\<rparr>"

definition path_under :: "string \<Rightarrow> string \<Rightarrow> bool" where
  "path_under path p = (path = p \<or> starts_with (rstrip_char CHR ''/'' p @ ''/'') path)"

definition check_network :: "sandbox_policy \<Rightarrow> string \<Rightarrow> unit res" where
  "check_network pol host = raise_if (host \<notin> set (sb_network_hosts pol)) (SandboxViolation (''network access denied: '' @ host))"

definition check_read :: "sandbox_policy \<Rightarrow> string \<Rightarrow> unit res" where
  "check_read pol path = raise_if (\<not> list_ex (path_under path) (sb_readable_paths pol))
     (SandboxViolation (''read access denied: '' @ path))"

definition check_write :: "sandbox_policy \<Rightarrow> string \<Rightarrow> unit res" where
  "check_write pol path = raise_if (\<not> list_ex (path_under path) (sb_writable_paths pol))
     (SandboxViolation (''write access denied: '' @ path))"

definition check_shell :: "sandbox_policy \<Rightarrow> unit res" where
  "check_shell pol = raise_if (\<not> sb_allow_shell pol) (SandboxViolation ''shell execution denied'')"

section \<open>The executor (executor.py)\<close>

type_synonym handler = "row \<Rightarrow> py_value res"

record skill_executor =
  sx_registry :: skill_registry
  sx_sandbox :: sandbox_policy
  sx_handlers :: "(string, handler) dict"

definition executor_bind :: "skill_executor \<Rightarrow> string \<Rightarrow> handler \<Rightarrow> skill_executor res" where
  "executor_bind sx skid h =
     res_bind (skill_resolve (sx_registry sx) skid) (\<lambda>_. Inr (sx\<lparr>sx_handlers := dict_set skid h (sx_handlers sx)\<rparr>))"

definition executor_execute :: "skill_executor \<Rightarrow> string \<Rightarrow> string \<Rightarrow> row \<Rightarrow> py_value res" where
  "executor_execute sx skid mode kwargs =
     res_bind (skill_resolve (sx_registry sx) skid) (\<lambda>sk.
     case dict_get (sx_handlers sx) skid of
       None \<Rightarrow> Inl (SkillExecutionError (''skill has no approved handler: '' @ skid))
     | Some h \<Rightarrow>
         if mode = ''REAL_LIVE''
         then Inl (SkillExecutionError ''plugin skills cannot directly execute REAL_LIVE operations'')
         else (case h kwargs of
             Inl _ \<Rightarrow> Inl (SkillExecutionError (''skill execution failed: '' @ sk_skill_id sk))
           | Inr v \<Rightarrow> Inr v))"

section \<open>The gateway (gateway.py)\<close>

record plugin_call =
  pc_plugin_id :: string
  pc_skill_id :: string
  pc_mode :: string

record plugin_gateway =
  pg_lifecycle :: lifecycle
  pg_executor :: skill_executor
  pg_policy :: "string list"
  pg_environment :: "env_ctl option"

definition plugin_gateway_execute :: "plugin_gateway \<Rightarrow> plugin_call \<Rightarrow> row \<Rightarrow> py_value res" where
  "plugin_gateway_execute gw c kwargs =
     res_bind (lc_get (pg_lifecycle gw) (pc_plugin_id c)) (\<lambda>r.
     if pr_state r \<noteq> Enabled then Inl (PluginLifecycleError (''plugin is not enabled: '' @ pc_plugin_id c))
     else res_bind (skill_resolve (sx_registry (pg_executor gw)) (pc_skill_id c)) (\<lambda>sk.
       if sk_plugin_id sk \<noteq> pc_plugin_id c
       then Inl (SkillExecutionError ''skill does not belong to requested plugin'')
       else res_bind (mode_policy_check (pg_policy gw) (pc_mode c)) (\<lambda>_.
         if (case pg_environment gw of None \<Rightarrow> False | Some ctl \<Rightarrow> mode_value (get_current_mode ctl) \<noteq> pc_mode c)
         then Inl (PermissionError ''plugin requested mode does not match environment'')
         else executor_execute (pg_executor gw) (pc_skill_id c) (pc_mode c) kwargs)))"

section \<open>The application runtime (integration.py)\<close>

record plugin_request =
  rq_plugin_id :: string
  rq_skill_id :: string
  rq_mode :: exec_mode

record plugin_runtime =
  rt_lifecycle :: lifecycle
  rt_registry :: skill_registry
  rt_executor :: skill_executor
  rt_environment :: env_ctl
  rt_risk :: risk_guardian
  rt_engine :: matching_engine
  rt_execution :: gateway_state
  rt_policy :: "string list"

definition runtime_invoke :: "plugin_runtime \<Rightarrow> plugin_request \<Rightarrow> row \<Rightarrow> py_value res" where
  "runtime_invoke rt q kwargs =
     res_bind (lc_get (rt_lifecycle rt) (rq_plugin_id q)) (\<lambda>r.
     if pr_state r \<noteq> Enabled then Inl (PluginLifecycleError (''plugin is not enabled: '' @ rq_plugin_id q))
     else res_bind (skill_resolve (rt_registry rt) (rq_skill_id q)) (\<lambda>sk.
       if sk_plugin_id sk \<noteq> rq_plugin_id q
       then Inl (SkillExecutionError ''skill does not belong to requested plugin'')
       else if mode_value (rq_mode q) \<noteq> mode_value (get_current_mode (rt_environment rt))
       then Inl (PermissionError ''plugin requested mode does not match environment'')
       else res_bind (mode_policy_check (rt_policy rt) (mode_value (rq_mode q))) (\<lambda>_.
         executor_execute (rt_executor rt) (rq_skill_id q) (mode_value (rq_mode q)) kwargs)))"

definition submit_paper_order ::
  "plugin_runtime \<Rightarrow> plugin_request \<Rightarrow> paper_order \<Rightarrow> decimal \<Rightarrow> decimal option \<Rightarrow> fill res \<times> plugin_runtime" where
  "submit_paper_order rt q ord ref_price avail =
     (if rq_mode q = REAL_LIVE then (Inl (PermissionError ''plugin trading cannot execute REAL_LIVE''), rt)
      else if get_current_mode (rt_environment rt) \<noteq> rq_mode q
      then (Inl (PermissionError ''environment mode changed before order execution''), rt)
      else (case res_bind (mode_policy_check (rt_policy rt) (mode_value (rq_mode q))) (\<lambda>_.
             approve (rt_environment rt) (gs_account (rt_execution rt)) (rt_risk rt) ord ref_price None) of
          Inl e \<Rightarrow> (Inl e, rt)
        | Inr _ \<Rightarrow>
            (case gateway_execute (rt_environment rt) (rt_engine rt) (rt_execution rt) ord ref_price avail of
               (res, gs) \<Rightarrow> (res, rt\<lparr>rt_execution := gs\<rparr>))))"

section \<open>Backtests of plugins (backtest.py)\<close>

record backtest_bar =
  bb_timestamp :: string
  bb_symbol :: string
  bb_price :: decimal

record plugin_backtest_result =
  bt_bars :: int
  bt_signals :: int
  bt_orders :: int
  bt_final_cash :: decimal

fun backtest_bars ::
  "skill_executor \<Rightarrow> string \<Rightarrow> (py_value \<Rightarrow> backtest_bar \<Rightarrow> decimal option res) \<Rightarrow> backtest_bar list \<Rightarrow>
     plugin_backtest_result \<Rightarrow> plugin_backtest_result res" where
  "backtest_bars sx skid to_order [] r = Inr r"
| "backtest_bars sx skid to_order (b # bs) r =
     res_bind (executor_execute sx skid ''VIRTUAL_BACKTEST'' [(''symbol'', PStr (bb_symbol b)), (''price'', PDec (bb_price b))])
       (\<lambda>signal. res_bind (to_order signal b) (\<lambda>quantity.
        let r1 = r\<lparr>bt_bars := bt_bars r + 1, bt_signals := bt_signals r + (if truthy signal then 1 else 0)\<rparr> in
        backtest_bars sx skid to_order bs
          (case quantity of
             None \<Rightarrow> r1
           | Some q \<Rightarrow> if 0 < q
               then r1\<lparr>bt_final_cash := dsub (bt_final_cash r1) (dmul q (bb_price b)), bt_orders := bt_orders r1 + 1\<rparr>
               else r1)))"

definition backtest_run ::
  "lifecycle \<Rightarrow> skill_executor \<Rightarrow> string list \<Rightarrow> string \<Rightarrow> string \<Rightarrow> backtest_bar list \<Rightarrow> decimal \<Rightarrow>
     (py_value \<Rightarrow> backtest_bar \<Rightarrow> decimal option res) \<Rightarrow> plugin_backtest_result res" where
  "backtest_run lc sx allowed pid skid bars cash to_order =
     res_bind (lc_get lc pid) (\<lambda>r.
     if pr_state r \<noteq> Enabled then Inl (PermissionError ''plugin must be enabled'')
     else res_bind (mode_policy_check allowed ''VIRTUAL_BACKTEST'') (\<lambda>_.
       backtest_bars sx skid to_order bars \<lparr>bt_bars = 0, bt_signals = 0, bt_orders = 0, bt_final_cash = cash\<rparr>))"

section \<open>Secrets, audit events and episodes of plugins\<close>

definition plugin_secret_resolve :: "(string, string) dict \<Rightarrow> string \<Rightarrow> string list \<Rightarrow> string res" where
  "plugin_secret_resolve secrets name allowed =
     (if name \<notin> set allowed then Inl (SecretAccessDenied (''secret access denied: '' @ name))
      else case dict_get secrets name of None \<Rightarrow> Inl (KeyError name) | Some v \<Rightarrow> Inr v)"

record plugin_audit_event =
  pe_action :: string
  pe_plugin_id :: string
  pe_skill_id :: "string option"
  pe_mode :: "string option"
  pe_success :: bool
  pe_detail :: string
  pe_timestamp :: string

definition plugin_audit_append :: "plugin_audit_event list \<Rightarrow> plugin_audit_event \<Rightarrow> plugin_audit_event list" where
  "plugin_audit_append events e = events @ [e]"

record reflection_record =
  rr_plugin_id :: string
  rr_skill_id :: string
  rr_symbol :: string
  rr_pnl :: decimal
  rr_outcome :: string
  rr_timestamp :: string

definition plugin_memory_record ::
  "reflection_record list \<Rightarrow> string \<Rightarrow> string \<Rightarrow> string \<Rightarrow> decimal \<Rightarrow> string \<Rightarrow> string \<Rightarrow>
     reflection_record \<times> reflection_record list" where
  "plugin_memory_record rs pid skid symb pnl outcome now =
     (let r = \<lparr>rr_plugin_id = pid, rr_skill_id = skid, rr_symbol = symb, rr_pnl = pnl, rr_outcome = outcome,
               rr_timestamp = now\<rparr> in (r, rs @ [r]))"

definition plugin_memory_query :: "reflection_record list \<Rightarrow> string option \<Rightarrow> reflection_record list" where
  "plugin_memory_query rs pid = (case pid of None \<Rightarrow> rs | Some p \<Rightarrow> filter (\<lambda>r. rr_plugin_id r = p) rs)"

section \<open>The core's skills (skills.py)\<close>

type_synonym core_skills = "(string, handler) dict"

definition core_register :: "core_skills \<Rightarrow> string \<Rightarrow> handler \<Rightarrow> core_skills res" where
  "core_register sks name h =
     (if dict_get sks name \<noteq> None then Inl (ValueError (''skill already registered: '' @ name))
      else Inr (dict_set name h sks))"

definition core_invoke :: "env_ctl \<Rightarrow> core_skills \<Rightarrow> string \<Rightarrow> row \<Rightarrow> py_value res" where
  "core_invoke ctl sks name kwargs =
     res_bind (assert_skill_allowed ctl name) (\<lambda>_.
     case dict_get sks name of
       None \<Rightarrow> Inl (EnvironmentTransitionError (''skill is not registered: '' @ name))
     | Some h \<Rightarrow> h kwargs)"

definition core_available :: "core_skills \<Rightarrow> string list" where
  "core_available sks = sort (map fst sks)"

section \<open>Both entry points\<close>

lemma mode_value_inj: "mode_value m = mode_value m' \<longleftrightarrow> m = m'"
  by (cases m; cases m') simp_all

lemma mode_policy_init_safe: "mode_policy_init allowed = Inr ms \<Longrightarrow> set ms \<subseteq> set safe_modes"
  by (auto simp: mode_policy_init_def Let_def split: if_splits)

lemma executor_execute_Inr:
  "executor_execute sx skid mode kw = Inr v \<longleftrightarrow> mode \<noteq> ''REAL_LIVE'' \<and> owner_of (sx_registry sx) skid \<noteq> None
     \<and> (\<exists>h. dict_get (sx_handlers sx) skid = Some h \<and> h kw = Inr v)"
  by (auto simp: executor_execute_def skill_resolve_def owner_of_def res_bind_eq_Inr split: option.splits sum.splits if_splits)

lemma lc_get_enabled: "(\<exists>r. lc_get lc p = Inr r \<and> pr_state r = Enabled) \<longleftrightarrow> state_of lc p = Some Enabled"
  by (auto simp: lc_get_def state_of_def split: option.splits)

lemma plugin_gateway_Inr:
  "plugin_gateway_execute gw c kw = Inr v \<longleftrightarrow>
     state_of (pg_lifecycle gw) (pc_plugin_id c) = Some Enabled
     \<and> owner_of (sx_registry (pg_executor gw)) (pc_skill_id c) = Some (pc_plugin_id c)
     \<and> pc_mode c \<in> set (pg_policy gw)
     \<and> (case pg_environment gw of None \<Rightarrow> True | Some ctl \<Rightarrow> mode_value (get_current_mode ctl) = pc_mode c)
     \<and> executor_execute (pg_executor gw) (pc_skill_id c) (pc_mode c) kw = Inr v"
  unfolding lc_get_enabled [symmetric]
  by (auto simp: plugin_gateway_execute_def mode_policy_check_def skill_resolve_def owner_of_def res_bind_eq_Inr
      raise_if_eq split: if_splits option.splits)

lemma runtime_invoke_Inr:
  "runtime_invoke rt q kw = Inr v \<longleftrightarrow>
     state_of (rt_lifecycle rt) (rq_plugin_id q) = Some Enabled
     \<and> owner_of (rt_registry rt) (rq_skill_id q) = Some (rq_plugin_id q)
     \<and> get_current_mode (rt_environment rt) = rq_mode q \<and> mode_value (rq_mode q) \<in> set (rt_policy rt)
     \<and> executor_execute (rt_executor rt) (rq_skill_id q) (mode_value (rq_mode q)) kw = Inr v"
  unfolding lc_get_enabled [symmetric]
  by (auto simp: runtime_invoke_def mode_policy_check_def skill_resolve_def owner_of_def res_bind_eq_Inr
      raise_if_eq mode_value_inj split: if_splits option.splits)

section \<open>Normal forms of paths\<close>

text \<open>The components a path stands for after \<open>..\<close> was resolved, as the operating system does.\<close>

definition normal_from :: "string list \<Rightarrow> string list \<Rightarrow> string list" where
  "normal_from acc ps = foldl (\<lambda>acc p. if p = ''..'' then butlast acc else acc @ [p]) acc ps"

definition normal_path :: "string \<Rightarrow> string list" where
  "normal_path s = normal_from [] (path_parts s)"

lemma normal_from_append: "normal_from acc (ps @ qs) = normal_from (normal_from acc ps) qs"
  by (simp add: normal_from_def)

lemma normal_from_up: "normal_from acc (replicate n ''..'') = take (length acc - n) acc"
  by (induction n arbitrary: acc) (auto simp: normal_from_def butlast_conv_take min_def)

lemma path_parts_sep: "path_parts (a @ ''/'' @ b) = path_parts a @ path_parts b"
  by (simp add: path_parts_def split_on_sep)

lemma path_parts_slash: "path_parts (CHR ''/'' # s) = path_parts s"
  using path_parts_sep [of "[]" s] by (simp add: path_parts_def)

lemma path_parts_up: "path_parts (concat (replicate n ''/..'') @ CHR ''/'' # t) = replicate n ''..'' @ path_parts t"
proof (induction n)
  case 0
  show ?case by (simp add: path_parts_slash)
next
  case (Suc n)
  obtain u where u: "concat (replicate n ''/..'') @ CHR ''/'' # t = CHR ''/'' # u" by (cases n) auto
  have "path_parts (CHR ''/'' # (''..'' @ ''/'' @ u)) = path_parts ''..'' @ path_parts u"
    unfolding path_parts_slash by (rule path_parts_sep)
  moreover have "path_parts ''..'' = [''..'']" by code_simp
  moreover have "path_parts u = replicate n ''..'' @ path_parts t" using Suc u path_parts_slash [of u] by simp
  ultimately show ?case using u by simp
qed

lemma traversal:
  assumes p: "starts_with ''/'' p" and t: "starts_with ''/'' t"
  shows "\<exists>q. path_under q p \<and> starts_with ''/'' q \<and> normal_path q = normal_path t"
proof -
  obtain t' where t': "t = CHR ''/'' # t'" using t by (auto simp: starts_with_iff)
  define a where "a = rstrip_char CHR ''/'' p"
  define n where "n = length (normal_from [] (path_parts a))"
  define q where "q = a @ concat (replicate n ''/..'') @ CHR ''/'' # t'"
  obtain u where u: "concat (replicate n ''/..'') @ CHR ''/'' # t' = CHR ''/'' # u" by (cases n) auto
  have "path_parts q = path_parts a @ replicate n ''..'' @ path_parts t'"
    using path_parts_up [of n t'] path_parts_sep [of a u] path_parts_slash [of u] by (simp add: q_def u)
  then have "normal_path q = normal_path t"
    by (simp add: normal_path_def t' path_parts_slash normal_from_append normal_from_up n_def)
  moreover have "path_under q p" by (simp add: path_under_def q_def u a_def starts_with_iff)
  moreover have "starts_with ''/'' q"
  proof (cases a)
    case Nil
    then show ?thesis by (simp add: q_def u starts_with_def)
  next
    case (Cons c cs)
    moreover obtain r where "p = a @ r" using rstrip_char_prefix [of p "CHR ''/''"] by (auto simp: a_def)
    ultimately show ?thesis using p by (simp add: q_def starts_with_def)
  qed
  ultimately show ?thesis by blast
qed

section \<open>Properties\<close>


definition example_executor :: skill_executor where
  "example_executor = \<lparr>sx_registry = [(''s1'', \<lparr>sk_skill_id = ''s1'', sk_plugin_id = ''alpha'', sk_version = ''1.0'',
     sk_entrypoint = ''a''\<rparr>)], sx_sandbox = default_sandbox, sx_handlers = [(''s1'', \<lambda>kw. Inr (PInt 7))]\<rparr>"

definition example_gateway :: plugin_gateway where
  "example_gateway = \<lparr>pg_lifecycle = foldl lc_step [] [LcAdd example_record, LcVerify ''alpha'', LcEnable ''alpha''],
     pg_executor = example_executor, pg_policy = safe_modes, pg_environment = Some (example_ctl PAPER_SANDBOX)\<rparr>"


text \<open>
  The two entry points admit the same calls: for a runtime and a gateway over the same
  lifecycle, executor, policy and environment, with one skill registry, a call returns a value
  through the one exactly when it returns this value through the other, although they check
  mode, environment and policy in a different order.
\<close>

theorem plugin_entry_points_agree:
  assumes "rt_registry rt = sx_registry (rt_executor rt)"
  shows "runtime_invoke rt q kw = Inr v \<longleftrightarrow>
    plugin_gateway_execute \<lparr>pg_lifecycle = rt_lifecycle rt, pg_executor = rt_executor rt, pg_policy = rt_policy rt,
        pg_environment = Some (rt_environment rt)\<rparr>
      \<lparr>pc_plugin_id = rq_plugin_id q, pc_skill_id = rq_skill_id q, pc_mode = mode_value (rq_mode q)\<rparr> kw = Inr v"
  using assms by (auto simp: runtime_invoke_Inr plugin_gateway_Inr mode_value_inj)

definition example_runtime :: plugin_runtime where
  "example_runtime = \<lparr>rt_lifecycle = pg_lifecycle example_gateway, rt_registry = sx_registry example_executor,
     rt_executor = example_executor, rt_environment = example_ctl PAPER_SANDBOX, rt_risk = guardian_init None,
     rt_engine = default_engine, rt_execution = example_state, rt_policy = safe_modes\<rparr>"

definition example_request :: plugin_request where
  "example_request = \<lparr>rq_plugin_id = ''alpha'', rq_skill_id = ''s1'', rq_mode = PAPER_SANDBOX\<rparr>"

theorem plugin_entry_points_agree_witness:
  "plugin_gateway_execute \<lparr>pg_lifecycle = rt_lifecycle example_runtime, pg_executor = rt_executor example_runtime,
      pg_policy = rt_policy example_runtime, pg_environment = Some (rt_environment example_runtime)\<rparr>
    \<lparr>pc_plugin_id = rq_plugin_id example_request, pc_skill_id = rq_skill_id example_request,
     pc_mode = mode_value (rq_mode example_request)\<rparr> [] = Inr (PInt 7)"
proof -
  have "rt_registry example_runtime = sx_registry (rt_executor example_runtime)" by (simp add: example_runtime_def)
  moreover have "runtime_invoke example_runtime example_request [] = Inr (PInt 7)" by code_simp
  ultimately show ?thesis by (rule plugin_entry_points_agree [THEN iffD1])
qed

text \<open>
  A plugin's order goes through the core: an order that returns a fill was approved by the risk
  guardian on the account of that moment, in a paper mode the policy allows, and its fill and the
  new state are those of the execution gateway; an order that raises in one of the checks changes
  nothing.
\<close>

theorem plugin_orders_pass_the_core:
  assumes "submit_paper_order rt q ord price avail = (res, rt')"
  shows "rt' = rt \<or>
    (rq_mode q \<noteq> REAL_LIVE \<and> get_current_mode (rt_environment rt) = rq_mode q
     \<and> mode_value (rq_mode q) \<in> set (rt_policy rt)
     \<and> approve (rt_environment rt) (gs_account (rt_execution rt)) (rt_risk rt) ord price None = Inr ()
     \<and> gateway_execute (rt_environment rt) (rt_engine rt) (rt_execution rt) ord price avail = (res, rt_execution rt')
     \<and> rt' = rt\<lparr>rt_execution := rt_execution rt'\<rparr>)"
  using assms
  by (auto simp: submit_paper_order_def res_bind_eq_Inr raise_if_eq mode_policy_check_def split: if_splits sum.splits prod.splits)

theorem plugin_orders_pass_the_core_witness:
  "approve (rt_environment example_runtime) (gs_account (rt_execution example_runtime)) (rt_risk example_runtime)
     (example_order BUY MARKET) 70000 None = Inr ()"
proof -
  let ?s = "submit_paper_order example_runtime example_request (example_order BUY MARKET) 70000 None"
  have "gs_orders (rt_execution (snd ?s)) \<noteq> gs_orders (rt_execution example_runtime)" by code_simp
  then have "snd ?s \<noteq> example_runtime" by metis
  with plugin_orders_pass_the_core [OF prod.collapse [symmetric], of example_runtime example_request] show ?thesis by blast
qed

text \<open>
  (C21) The sandbox's path check does not confine: whatever absolute directory a plugin may read, for
  every absolute target there is an absolute path that passes the read check and names the
  target once the operating system resolves its \<open>..\<close> components.
\<close>

theorem sandbox_reads_escape:
  assumes "p \<in> set (sb_readable_paths pol)" and "starts_with ''/'' p" and "starts_with ''/'' target"
  shows "\<exists>path. check_read pol path = Inr () \<and> starts_with ''/'' path \<and> normal_path path = normal_path target"
  using traversal [OF assms(2,3)] assms(1) by (auto simp: check_read_def raise_if_eq list_ex_iff)

theorem sandbox_reads_escape_witness:
  "\<exists>path. check_read (default_sandbox\<lparr>sb_readable_paths := [''/data/alpha/'']\<rparr>) path = Inr ()
     \<and> starts_with ''/'' path \<and> normal_path path = normal_path ''/etc/passwd''"
  by (rule sandbox_reads_escape [where p = "''/data/alpha/''"]) code_simp+

end
