(* ===== verification/Trading_Cycle.thy ===== *)
theory Trading_Cycle
  imports Execution_Audit Gateway_Runs Risk
begin

text \<open>
  The trading cycle: agents that turn market data into a decision (\<open>agents.py\<close>), three ways of
  running them (\<open>orchestrator.py\<close>, \<open>orchestrator_v2.py\<close>, \<open>e2e.py\<close>), the state machine of a cycle
  (\<open>state_machine.py\<close>), the reflection worker (\<open>reflection.py\<close>) and the pipeline from decision to
  profit (\<open>pipeline.py\<close>).

  LangGraph, which runs the nodes of \<open>orchestrator_v2.py\<close>, is a parameter: a function from nodes and
  edges to a run. Handlers given to agents are functions that return or raise. Python's \<open>float\<close> is
  read for its sign only. A memory file is the list of the episodes in it.
\<close>

section \<open>Agents (agents.py)\<close>

text \<open>An event is a dictionary with a \<open>type\<close>; there is one constructor per type.\<close>

datatype agent_event =
    AgentStarted string
  | AgentCompleted string
  | OrderSkipped string
  | OrderExecuted py_value
  | OrderFilled fill
  | OrderRejected

record agent_state =
  ag_symbol :: string
  ag_market :: row
  ag_signals :: row
  ag_decision :: row
  ag_risk :: row
  ag_events :: "agent_event list"

definition agent_state_init :: "string \<Rightarrow> row \<Rightarrow> agent_state" where
  "agent_state_init symb market = \<lparr>ag_symbol = symb, ag_market = market, ag_signals = [], ag_decision = [],
     ag_risk = [], ag_events = []\<rparr>"

datatype agent =
    MacroRegimeAgent
  | FundamentalAnalystAgent
  | TechnicalVisionAgent
  | SentimentQuantAgent
  | DebateOrchestratorAgent
  | RiskGuardianAgent "row \<Rightarrow> unit res"
  | ExecutionTraderAgent "row \<Rightarrow> py_value res"

fun agent_name :: "agent \<Rightarrow> string" where
  "agent_name MacroRegimeAgent = ''macro-regime''"
| "agent_name FundamentalAnalystAgent = ''fundamental''"
| "agent_name TechnicalVisionAgent = ''technical-vision''"
| "agent_name SentimentQuantAgent = ''sentiment''"
| "agent_name DebateOrchestratorAgent = ''debate-orchestrator''"
| "agent_name (RiskGuardianAgent _) = ''risk-guardian''"
| "agent_name (ExecutionTraderAgent _) = ''execution-trader''"

definition set_signal :: "agent_state \<Rightarrow> string \<Rightarrow> string \<Rightarrow> string \<Rightarrow> agent_state" where
  "set_signal st name key dflt =
     st\<lparr>ag_signals := dict_set name (row_get (ag_market st) key (PStr dflt)) (ag_signals st)\<rparr>"

definition signal_keys :: "string list" where
  "signal_keys = [''macro_regime'', ''fundamental_signal'', ''technical_signal'', ''sentiment_signal'']"

text \<open>\<open>v in {\<dots>}\<close> for a set of texts: a list or a dictionary is not hashable.\<close>

fun member_of :: "string list \<Rightarrow> py_value \<Rightarrow> bool res" where
  "member_of ss (PStr s) = Inr (s \<in> set ss)"
| "member_of ss (PList _) = Inl (TypeError ''unhashable type: list'')"
| "member_of ss (PDict _) = Inl (TypeError ''unhashable type: dict'')"
| "member_of ss _ = Inr False"

text \<open>\<open>sum(v in {\<dots>} for v in values)\<close>.\<close>

fun count_votes :: "string list \<Rightarrow> py_value list \<Rightarrow> int res" where
  "count_votes ss [] = Inr 0"
| "count_votes ss (v # vs) =
     res_bind (member_of ss v) (\<lambda>b. res_bind (count_votes ss vs) (\<lambda>n. Inr (n + (if b then 1 else 0))))"

definition debate :: "agent_state \<Rightarrow> agent_state res" where
  "debate st =
     (let vs = map snd (ag_signals st);
          values = (if vs \<noteq> [] then vs else map (\<lambda>k. row_get (ag_market st) k (PStr ''NEUTRAL'')) signal_keys) in
      res_bind (count_votes [''BUY'', ''BULLISH'', ''POSITIVE''] values) (\<lambda>bullish.
      res_bind (count_votes [''SELL'', ''BEARISH'', ''NEGATIVE''] values) (\<lambda>bearish.
      let action = (if bearish < bullish then ''BUY'' else if bullish < bearish then ''SELL'' else ''HOLD'') in
      Inr (st\<lparr>ag_decision := [(''action'', PStr action), (''bullish'', PInt bullish), (''bearish'', PInt bearish)]\<rparr>))))"

fun agent_run :: "agent \<Rightarrow> agent_state \<Rightarrow> agent_state res" where
  "agent_run MacroRegimeAgent st = Inr (set_signal st ''macro'' ''macro_regime'' ''UNKNOWN'')"
| "agent_run FundamentalAnalystAgent st = Inr (set_signal st ''fundamental'' ''fundamental_signal'' ''NEUTRAL'')"
| "agent_run TechnicalVisionAgent st = Inr (set_signal st ''technical'' ''technical_signal'' ''NEUTRAL'')"
| "agent_run SentimentQuantAgent st = Inr (set_signal st ''sentiment'' ''sentiment_signal'' ''NEUTRAL'')"
| "agent_run DebateOrchestratorAgent st = debate st"
| "agent_run (RiskGuardianAgent check) st =
     res_bind (check (ag_decision st)) (\<lambda>_. Inr (st\<lparr>ag_risk := dict_set ''approved'' (PBool True) (ag_risk st)\<rparr>))"
| "agent_run (ExecutionTraderAgent exec) st =
     (if row_get (ag_decision st) ''action'' PNone = PStr ''HOLD''
      then Inr (st\<lparr>ag_events := ag_events st @ [OrderSkipped ''HOLD'']\<rparr>)
      else res_bind (exec (ag_decision st)) (\<lambda>v. Inr (st\<lparr>ag_events := ag_events st @ [OrderExecuted v]\<rparr>)))"

section \<open>Running agents in a row (orchestrator.py)\<close>

definition add_node :: "agent list \<Rightarrow> agent \<Rightarrow> agent list" where
  "add_node nodes a = nodes @ [a]"

text \<open>The state keeps what happened before an agent raised.\<close>

fun graph_run :: "agent list \<Rightarrow> agent_state \<Rightarrow> unit res \<times> agent_state" where
  "graph_run [] st = (Inr (), st)"
| "graph_run (a # as) st =
     (let st1 = st\<lparr>ag_events := ag_events st @ [AgentStarted (agent_name a)]\<rparr> in
      case agent_run a st1 of
        Inl e \<Rightarrow> (Inl e, st1)
      | Inr st2 \<Rightarrow> graph_run as (st2\<lparr>ag_events := ag_events st2 @ [AgentCompleted (agent_name a)]\<rparr>))"

definition build_analysis_graph :: "agent list" where
  "build_analysis_graph = [MacroRegimeAgent, FundamentalAnalystAgent, TechnicalVisionAgent, SentimentQuantAgent,
     DebateOrchestratorAgent]"

section \<open>The cycle's state machine (state_machine.py)\<close>

datatype cycle_state = INGESTED | ANALYZED | DEBATED | RISK_APPROVED | EXECUTED | REJECTED | REFLECTED

fun cycle_value :: "cycle_state \<Rightarrow> string" where
  "cycle_value INGESTED = ''INGESTED''"
| "cycle_value ANALYZED = ''ANALYZED''"
| "cycle_value DEBATED = ''DEBATED''"
| "cycle_value RISK_APPROVED = ''RISK_APPROVED''"
| "cycle_value EXECUTED = ''EXECUTED''"
| "cycle_value REJECTED = ''REJECTED''"
| "cycle_value REFLECTED = ''REFLECTED''"

text \<open>An f-string shows a member of an enumeration with its class.\<close>

definition cycle_text :: "cycle_state \<Rightarrow> string" where
  "cycle_text s = ''CycleState.'' @ cycle_value s"

fun cycle_allowed :: "cycle_state \<Rightarrow> cycle_state list" where
  "cycle_allowed INGESTED = [ANALYZED, REJECTED]"
| "cycle_allowed ANALYZED = [DEBATED, REJECTED]"
| "cycle_allowed DEBATED = [RISK_APPROVED, REJECTED]"
| "cycle_allowed RISK_APPROVED = [EXECUTED, REJECTED]"
| "cycle_allowed EXECUTED = [REFLECTED]"
| "cycle_allowed REJECTED = [REFLECTED]"
| "cycle_allowed REFLECTED = []"

definition cycle_advance :: "cycle_state \<Rightarrow> cycle_state \<Rightarrow> cycle_state res" where
  "cycle_advance s target =
     (if target \<notin> set (cycle_allowed s)
      then Inl (ValueError (''invalid state transition: '' @ cycle_text s @ '' -> '' @ cycle_text target))
      else Inr target)"

section \<open>Running agents as a graph (orchestrator_v2.py)\<close>

text \<open>The parameter: named nodes, edges between names, and the initial state give the final state.\<close>

type_synonym graph_engine =
  "(string \<times> (agent_state \<Rightarrow> agent_state res)) list \<Rightarrow> (string \<times> string) list \<Rightarrow> agent_state \<Rightarrow> agent_state res"

definition graph_nodes :: "(string \<times> agent) list" where
  "graph_nodes = [(''macro'', MacroRegimeAgent), (''fundamental'', FundamentalAnalystAgent),
     (''technical'', TechnicalVisionAgent), (''sentiment'', SentimentQuantAgent), (''debate'', DebateOrchestratorAgent)]"

definition graph_edges :: "(string \<times> string) list" where
  "graph_edges = [(''__start__'', ''macro''), (''macro'', ''fundamental''), (''fundamental'', ''technical''),
     (''technical'', ''sentiment''), (''sentiment'', ''debate''), (''debate'', ''__end__'')]"

definition analyze :: "graph_engine \<Rightarrow> string \<Rightarrow> row \<Rightarrow> (agent_state \<times> cycle_state) res" where
  "analyze lg symb market =
     res_bind (lg (map (\<lambda>(n, a). (n, agent_run a)) graph_nodes) graph_edges (agent_state_init symb market)) (\<lambda>st.
     res_bind (cycle_advance INGESTED ANALYZED) (\<lambda>c1.
     res_bind (cycle_advance c1 DEBATED) (\<lambda>c2. Inr (st, c2))))"

section \<open>Reflection (reflection.py)\<close>

text \<open>The verdict and the lesson of an episode; the episode is appended to the memory.\<close>

definition reflect ::
  "trade_episode list \<Rightarrow> trade_episode \<Rightarrow> (string \<times> string) res \<times> trade_episode list" where
  "reflect memory e =
     (case parse_decimal (te_pnl e) of
        None \<Rightarrow> (Inl (ValueError ''could not convert string to float''), memory)
      | Some pnl \<Rightarrow>
          (Inr (if 0 < pnl then (''POSITIVE'', ''preserve decision context'')
                else if pnl < 0 then (''NEGATIVE'', ''review signal and risk gate'')
                else (''NEUTRAL'', ''insufficient outcome signal'')), memory @ [e]))"

section \<open>The single cycle (e2e.py)\<close>

record cycle_result =
  cr_symbol :: string
  cr_action :: py_value
  cr_approved :: bool
  cr_event_count :: int

definition signal_agents :: "agent list" where
  "signal_agents = [MacroRegimeAgent, FundamentalAnalystAgent, TechnicalVisionAgent, SentimentQuantAgent]"

fun run_agents :: "agent list \<Rightarrow> agent_state \<Rightarrow> agent_state res" where
  "run_agents [] st = Inr st"
| "run_agents (a # as) st = res_bind (agent_run a st) (run_agents as)"

definition side_of_action :: "py_value \<Rightarrow> order_side" where
  "side_of_action action = (if action = PStr ''BUY'' then BUY else SELL)"

text \<open>The controller, guardian, engine and gateway of the cycle; the gateway's state changes.\<close>

record trading_core =
  tc_ctl :: env_ctl
  tc_risk :: risk_guardian
  tc_engine :: matching_engine
  tc_gateway :: gateway_state

text \<open>\<open>risk.approve\<close> and \<open>gateway.execute\<close>, as both cycles call them.\<close>

definition approve_and_execute :: "trading_core \<Rightarrow> paper_order \<Rightarrow> decimal \<Rightarrow> fill res \<times> trading_core" where
  "approve_and_execute tc ord price =
     (case approve (tc_ctl tc) (gs_account (tc_gateway tc)) (tc_risk tc) ord price None of
        Inl e \<Rightarrow> (Inl e, tc)
      | Inr _ \<Rightarrow> (case gateway_execute (tc_ctl tc) (tc_engine tc) (tc_gateway tc) ord price None of
          (res, gs) \<Rightarrow> (res, tc\<lparr>tc_gateway := gs\<rparr>)))"

definition cycle_order :: "string \<Rightarrow> string \<Rightarrow> py_value \<Rightarrow> decimal \<Rightarrow> paper_order" where
  "cycle_order cid symb action quantity = \<lparr>po_symbol = symb, po_side = side_of_action action, po_quantity = quantity,
     po_order_type = MARKET, po_limit_price = None, po_client_order_id = cid\<rparr>"

definition cycle_run ::
  "trading_core \<Rightarrow> string \<Rightarrow> row \<Rightarrow> decimal \<Rightarrow> decimal \<Rightarrow> cycle_result res \<times> trading_core" where
  "cycle_run tc symb market quantity price =
     (case run_agents (signal_agents @ [DebateOrchestratorAgent]) (agent_state_init symb market) of
        Inl e \<Rightarrow> (Inl e, tc)
      | Inr st \<Rightarrow>
          (let action = row_get (ag_decision st) ''action'' (PStr ''HOLD'');
               result = (\<lambda>ok ev. \<lparr>cr_symbol = symb, cr_action = action, cr_approved = ok,
                          cr_event_count = int (length (ag_events st @ [ev]))\<rparr>) in
           if action = PStr ''HOLD'' then (Inr (result True (OrderSkipped ''HOLD'')), tc)
           else (case approve_and_execute tc (cycle_order (''paper-'' @ symb) symb action quantity) price of
               (Inr f, tc') \<Rightarrow> (Inr (result True (OrderFilled f)), tc')
             | (Inl e, tc') \<Rightarrow>
                 if is_permission_error e \<or> is_value_error e then (Inr (result False OrderRejected), tc')
                 else (Inl e, tc'))))"

section \<open>The pipeline (pipeline.py)\<close>

record pipeline_result =
  pl_symbol :: string
  pl_action :: py_value
  pl_lifecycle :: cycle_state
  pl_executed :: bool
  pl_pnl :: decimal

record trading_pipeline = trading_core +
  tp_ledger :: ledger
  tp_memory :: "trade_episode list"

text \<open>Fresh identifiers, the clock and the rendering of decimals of one run.\<close>

record pipeline_env =
  pv_uuid :: string
  pv_episode_id :: string
  pv_now :: string
  pv_show_dec :: "decimal \<Rightarrow> string"

definition pipeline_reflect ::
  "pipeline_env \<Rightarrow> trading_pipeline \<Rightarrow> string \<Rightarrow> py_value \<Rightarrow> decimal \<Rightarrow> decimal \<Rightarrow> decimal \<Rightarrow> row \<Rightarrow> string \<Rightarrow>
     unit res \<times> trading_pipeline" where
  "pipeline_reflect pv tp symb action entry_price exit_price pnl market outcome =
     (case reflect (tp_memory tp)
        \<lparr>te_episode_id = pv_episode_id pv, te_symbol = symb, te_action = py_str (pv_show_dec pv) action,
         te_entry_price = pv_show_dec pv entry_price, te_exit_price = pv_show_dec pv exit_price,
         te_pnl = pv_show_dec pv pnl, te_decision_context = market, te_outcome = outcome, te_created_at = pv_now pv\<rparr> of
        (res, mem) \<Rightarrow> (map_sum id (\<lambda>_. ()) res, tp\<lparr>tp_memory := mem\<rparr>))"

definition with_core :: "trading_pipeline \<Rightarrow> trading_core \<Rightarrow> trading_pipeline" where
  "with_core tp tc = trading_core.extend tc (trading_pipeline.fields (tp_ledger tp) (tp_memory tp))"

text \<open>A reflection and then the result.\<close>

definition reflected ::
  "pipeline_env \<Rightarrow> trading_pipeline \<Rightarrow> string \<Rightarrow> py_value \<Rightarrow> decimal \<Rightarrow> decimal \<Rightarrow> row \<Rightarrow> string \<Rightarrow> bool \<Rightarrow>
     pipeline_result res \<times> trading_pipeline" where
  "reflected pv tp symb action price pnl market outcome executed =
     (case pipeline_reflect pv tp symb action price price pnl market outcome of
        (res, tp') \<Rightarrow> (map_sum id (\<lambda>_. \<lparr>pl_symbol = symb, pl_action = action, pl_lifecycle = REFLECTED,
            pl_executed = executed, pl_pnl = pnl\<rparr>) res, tp'))"

text \<open>The body of the \<open>try\<close> block.\<close>

definition pipeline_trade ::
  "pipeline_env \<Rightarrow> trading_pipeline \<Rightarrow> string \<Rightarrow> py_value \<Rightarrow> row \<Rightarrow> decimal \<Rightarrow> decimal \<Rightarrow>
     pipeline_result res \<times> trading_pipeline" where
  "pipeline_trade pv tp symb action market quantity price =
     (case approve_and_execute (trading_core.truncate tp)
         (cycle_order (''pipeline-'' @ symb @ ''-'' @ pv_uuid pv) symb action quantity) price of
        (Inl e, tc) \<Rightarrow> (Inl e, with_core tp tc)
      | (Inr f, tc) \<Rightarrow>
          (let tp1 = with_core tp tc in
           if fl_quantity f \<le> 0 \<or> fl_status f = ''REJECTED''
           then reflected pv tp1 symb action price 0 market ''REJECTED'' False
           else (case apply_fill (tp_ledger tp1) symb (fl_side f) (fl_quantity f) (fl_price f) of
               Inl e \<Rightarrow> (Inl e, tp1)
             | Inr (_, l) \<Rightarrow>
                 (let tp2 = tp1\<lparr>tp_ledger := l\<rparr> in
                  case total_pnl l symb (fl_price f) of
                    Inl e \<Rightarrow> (Inl e, tp2)
                  | Inr pnl \<Rightarrow> reflected pv tp2 symb action (fl_price f) pnl market (fl_status f) True))))"

definition pipeline_run ::
  "graph_engine \<Rightarrow> pipeline_env \<Rightarrow> trading_pipeline \<Rightarrow> string \<Rightarrow> row \<Rightarrow> decimal \<Rightarrow> decimal \<Rightarrow>
     pipeline_result res \<times> trading_pipeline" where
  "pipeline_run lg pv tp symb market quantity price =
     (case analyze lg symb market of
        Inl e \<Rightarrow> (Inl e, tp)
      | Inr (st, _) \<Rightarrow>
          (let action = row_get (ag_decision st) ''action'' (PStr ''HOLD'') in
           if action = PStr ''HOLD'' then reflected pv tp symb action price 0 market ''HOLD'' False
           else (case pipeline_trade pv tp symb action market quantity price of
               (Inr r, tp') \<Rightarrow> (Inr r, tp')
             | (Inl e, tp') \<Rightarrow>
                 if is_permission_error e \<or> is_value_error e
                 then reflected pv tp' symb action price 0 market ''REJECTED'' False
                 else (Inl e, tp'))))"

section \<open>The three ways of running the agents\<close>

text \<open>An agent that neither reads nor writes events.\<close>

fun quiet :: "agent \<Rightarrow> bool" where
  "quiet (ExecutionTraderAgent _) = False"
| "quiet _ = True"

definition with_events :: "agent_event list \<Rightarrow> agent_state \<Rightarrow> agent_state" where
  "with_events ev st = st\<lparr>ag_events := ev\<rparr>"

lemma with_events_simps [simp]:
  "ag_events (with_events ev st) = ev" "with_events ev (with_events ev' st) = with_events ev st"
  "with_events (ag_events st) st = st"
  by (simp_all add: with_events_def)

lemma fold_events: "st\<lparr>ag_events := ev\<rparr> = with_events ev st"
  by (simp add: with_events_def)

lemma quiet_events: "quiet a \<Longrightarrow> agent_run a (with_events ev st) = map_sum id (with_events ev) (agent_run a st)"
  by (cases a) (auto simp: set_signal_def debate_def Let_def with_events_def res_bind_def split: sum.splits)

lemma quiet_keeps_events: "quiet a \<Longrightarrow> agent_run a st = Inr st' \<Longrightarrow> ag_events st' = ag_events st"
  by (cases a) (auto simp: set_signal_def debate_def Let_def res_bind_eq_Inr)

lemma graph_run_agents:
  "list_all quiet as \<Longrightarrow> (case run_agents as st of
      Inl e \<Rightarrow> fst (graph_run as (with_events ev st)) = Inl e
    | Inr st' \<Rightarrow> \<exists>ev'. graph_run as (with_events ev st) = (Inr (), with_events ev' st'))"
proof (induction as arbitrary: st ev)
  case (Cons a as)
  then have q: "quiet a" "list_all quiet as" by simp_all
  show ?case
  proof (cases "agent_run a st")
    case (Inl e)
    then show ?thesis using quiet_events [OF q(1)] by (simp add: fold_events Let_def)
  next
    case (Inr st1)
    show ?thesis using Cons.IH [OF q(2), where st = st1 and ev = "ev @ [AgentStarted (agent_name a), AgentCompleted (agent_name a)]"]
      by (simp add: Inr quiet_events [OF q(1)] fold_events Let_def split: sum.splits)
  qed
qed auto

text \<open>
  What LangGraph documents of a compiled graph whose edges lead from the start through the nodes to
  the end: it runs the nodes in this order, each on the state the one before returned.
\<close>

fun run_nodes :: "(agent_state \<Rightarrow> agent_state res) list \<Rightarrow> agent_state \<Rightarrow> agent_state res" where
  "run_nodes [] st = Inr st"
| "run_nodes (f # fs) st = res_bind (f st) (run_nodes fs)"

definition chain_edges :: "string list \<Rightarrow> (string \<times> string) list" where
  "chain_edges ns = zip (''__start__'' # ns) (ns @ [''__end__''])"

definition runs_chains :: "graph_engine \<Rightarrow> bool" where
  "runs_chains lg = (\<forall>nodes st. distinct (map fst nodes) \<longrightarrow>
     lg nodes (chain_edges (map fst nodes)) st = run_nodes (map snd nodes) st)"

lemma run_nodes_agents: "run_nodes (map agent_run as) st = run_agents as st"
  by (induction as arbitrary: st) (auto simp: res_bind_def split: sum.splits)

lemma analyze_agents:
  assumes "runs_chains lg"
  shows "analyze lg symb market = map_sum id (\<lambda>st. (st, DEBATED))
    (run_agents (signal_agents @ [DebateOrchestratorAgent]) (agent_state_init symb market))"
proof -
  let ?nodes = "map (\<lambda>(n, a). (n, agent_run a)) graph_nodes"
  have e: "graph_edges = chain_edges (map fst ?nodes)" "distinct (map fst ?nodes)"
    by (simp_all add: graph_edges_def graph_nodes_def chain_edges_def)
  have "map snd ?nodes = map agent_run (signal_agents @ [DebateOrchestratorAgent])"
    by (simp add: graph_nodes_def signal_agents_def)
  then have "lg ?nodes graph_edges (agent_state_init symb market)
    = run_agents (signal_agents @ [DebateOrchestratorAgent]) (agent_state_init symb market)"
    using assms e unfolding runs_chains_def by (metis run_nodes_agents)
  then show ?thesis by (simp add: analyze_def cycle_advance_def res_bind_def split: sum.splits)
qed

section \<open>Transitions of a cycle\<close>

text \<open>Transitions one after the other; the first that is not allowed raises.\<close>

fun cycle_path :: "cycle_state \<Rightarrow> cycle_state list \<Rightarrow> cycle_state res" where
  "cycle_path s [] = Inr s"
| "cycle_path s (t # ts) = res_bind (cycle_advance s t) (\<lambda>s'. cycle_path s' ts)"

fun steps_left :: "cycle_state \<Rightarrow> nat" where
  "steps_left INGESTED = 5"
| "steps_left ANALYZED = 4"
| "steps_left DEBATED = 3"
| "steps_left RISK_APPROVED = 2"
| "steps_left EXECUTED = 1"
| "steps_left REJECTED = 1"
| "steps_left REFLECTED = 0"

lemma advance_steps: "cycle_advance s t = Inr s' \<Longrightarrow> s' = t \<and> steps_left s' < steps_left s"
  by (cases s; cases t) (auto simp: cycle_advance_def)

lemma path_steps: "cycle_path s ts = Inr s' \<Longrightarrow> length ts + steps_left s' \<le> steps_left s"
proof (induction s ts rule: cycle_path.induct)
  case (2 s t ts)
  then obtain u where u: "cycle_advance s t = Inr u" "cycle_path u ts = Inr s'" by (auto simp: res_bind_eq_Inr)
  then show ?case using "2.IH" [OF u(2)] advance_steps [OF u(1)] by auto
qed simp

lemma path_through:
  "cycle_path s ts = Inr EXECUTED \<Longrightarrow> s \<noteq> EXECUTED \<Longrightarrow> s \<noteq> RISK_APPROVED \<Longrightarrow> RISK_APPROVED \<in> set ts"
  "cycle_path s ts = Inr REFLECTED \<Longrightarrow> s \<noteq> REFLECTED \<Longrightarrow> s \<notin> {EXECUTED, REJECTED} \<Longrightarrow>
     EXECUTED \<in> set ts \<or> REJECTED \<in> set ts"
proof -
  have a: "cycle_advance s t = Inr EXECUTED \<Longrightarrow> s = RISK_APPROVED"
    "cycle_advance s t = Inr REFLECTED \<Longrightarrow> s = EXECUTED \<or> s = REJECTED" for s t
    by (cases s; cases t; simp add: cycle_advance_def)+
  show "cycle_path s ts = Inr EXECUTED \<Longrightarrow> s \<noteq> EXECUTED \<Longrightarrow> s \<noteq> RISK_APPROVED \<Longrightarrow> RISK_APPROVED \<in> set ts"
    by (induction s ts rule: cycle_path.induct) (auto simp: res_bind_eq_Inr dest: a advance_steps)
  show "cycle_path s ts = Inr REFLECTED \<Longrightarrow> s \<noteq> REFLECTED \<Longrightarrow> s \<notin> {EXECUTED, REJECTED} \<Longrightarrow>
     EXECUTED \<in> set ts \<or> REJECTED \<in> set ts"
    by (induction s ts rule: cycle_path.induct) (auto simp: res_bind_eq_Inr dest: a advance_steps)
qed

section \<open>What the cycles do to the core\<close>

lemma closed_order_blocks:
  assumes "dict_get (gs_orders (tc_gateway tc)) (po_client_order_id ord) = Some r" and "terminal (or_status r)"
  shows "snd (approve_and_execute tc ord price) = tc"
  using assms
  by (auto simp: approve_and_execute_def gateway_execute_def gateway_resolve_def lifecycle_get_def res_bind_def
      split: sum.splits prod.splits)

lemma reflected_memory:
  assumes "reflected pv tp symb action price pnl market outcome executed = (Inr r, tp')"
  shows "pl_executed r = executed \<and> trading_core.truncate tp' = trading_core.truncate tp \<and> tp_ledger tp' = tp_ledger tp
    \<and> (\<exists>e. tp_memory tp' = tp_memory tp @ [e] \<and> te_symbol e = symb \<and> te_outcome e = outcome)"
  using assms
  by (auto simp: reflected_def pipeline_reflect_def reflect_def map_sum_id_eq trading_core.defs
      split: prod.splits option.splits)

lemma with_core_simps [simp]:
  "tp_memory (with_core tp tc) = tp_memory tp" "tp_ledger (with_core tp tc) = tp_ledger tp"
  "trading_core.truncate (with_core tp (tc :: trading_core)) = tc"
  by (simp_all add: with_core_def trading_core.defs trading_pipeline.defs)

lemma reflected_ok:
  assumes "parse_decimal (pv_show_dec pv pnl) = Some d"
  shows "is_ok (fst (reflected pv tp symb action price pnl market outcome executed))"
  using assms by (simp add: reflected_def pipeline_reflect_def reflect_def Let_def)

lemma trade_error_memory: "pipeline_trade pv tp symb action market quantity price = (Inl e, tp') \<Longrightarrow> tp_memory tp' = tp_memory tp"
  by (auto simp: pipeline_trade_def Let_def reflected_def pipeline_reflect_def reflect_def map_sum_id_eq
      split: sum.splits prod.splits option.splits if_splits)

lemma trade_memory:
  assumes "pipeline_trade pv tp symb action market quantity price = (Inr r, tp')"
  shows "\<exists>e. tp_memory tp' = tp_memory tp @ [e] \<and> te_symbol e = symb \<and> (pl_executed r \<longleftrightarrow> te_outcome e \<noteq> ''REJECTED'')"
  using assms
  by (auto simp: pipeline_trade_def Let_def split: sum.splits prod.splits if_splits dest!: reflected_memory)

section \<open>Properties\<close>

text \<open>
  (C31) The agents decide the same however they are run: on a LangGraph that runs chains in order, the
  compiled graph of \<open>orchestrator_v2.py\<close> returns the state that the plain loop of \<open>e2e.py\<close>
  computes, or raises what it raises, and the \<open>StateGraph\<close> of \<open>orchestrator.py\<close> ends in the same
  state up to its events.
\<close>

theorem orchestrators_agree:
  assumes "runs_chains lg"
  shows "analyze lg symb market = map_sum id (\<lambda>st. (st, DEBATED))
      (run_agents (signal_agents @ [DebateOrchestratorAgent]) (agent_state_init symb market))
    \<and> (case analyze lg symb market of
         Inl e \<Rightarrow> fst (graph_run build_analysis_graph (agent_state_init symb market)) = Inl e
       | Inr (st, _) \<Rightarrow> \<exists>ev. graph_run build_analysis_graph (agent_state_init symb market) = (Inr (), st\<lparr>ag_events := ev\<rparr>))"
proof -
  have "build_analysis_graph = signal_agents @ [DebateOrchestratorAgent]"
    by (simp add: build_analysis_graph_def signal_agents_def)
  moreover have "list_all quiet (signal_agents @ [DebateOrchestratorAgent])" by (simp add: signal_agents_def)
  moreover have "with_events [] (agent_state_init symb market) = agent_state_init symb market"
    by (simp add: with_events_def agent_state_init_def)
  moreover note graph_run_agents [OF \<open>list_all quiet _\<close>, where st = "agent_state_init symb market" and ev = "[]"]
  ultimately show ?thesis by (simp add: analyze_agents [OF assms] fold_events split: sum.splits)
qed

definition example_lg :: graph_engine where
  "example_lg nodes edges st = run_nodes (map snd nodes) st"

definition example_market :: row where
  "example_market = [(''macro_regime'', PStr ''BULLISH''), (''technical_signal'', PStr ''SELL''),
     (''fundamental_signal'', PStr ''NEGATIVE''), (''sentiment_signal'', PStr ''BEARISH'')]"

theorem orchestrators_agree_witness:
  "map_sum id (\<lambda>(st, c). (ag_decision st, c)) (analyze example_lg ''005930'' example_market)
   = map_sum id (\<lambda>st. (ag_decision st, DEBATED))
       (run_agents (signal_agents @ [DebateOrchestratorAgent]) (agent_state_init ''005930'' example_market))"
proof -
  have "runs_chains example_lg" by (simp add: runs_chains_def example_lg_def)
  from orchestrators_agree [OF this, THEN conjunct1, of "''005930''" example_market] show ?thesis
    by (simp add: sum.map_comp comp_def id_def)
qed

text \<open>
  (C33) Every cycle ends: a cycle that only makes allowed transitions makes at most five, it is executed
  only after its risk approval, and it is reflected only after it was executed or rejected.
\<close>

theorem cycles_terminate:
  assumes "cycle_path INGESTED ts = Inr s"
  shows "length ts \<le> 5 \<and> (s = EXECUTED \<longrightarrow> RISK_APPROVED \<in> set ts)
    \<and> (s = REFLECTED \<longrightarrow> EXECUTED \<in> set ts \<or> REJECTED \<in> set ts)"
  using path_steps [OF assms] path_through [of INGESTED ts] assms by auto

theorem cycles_terminate_witness:
  "length [ANALYZED, DEBATED, RISK_APPROVED, EXECUTED, REFLECTED] \<le> 5"
proof -
  have "cycle_path INGESTED [ANALYZED, DEBATED, RISK_APPROVED, EXECUTED, REFLECTED] = Inr REFLECTED" by code_simp
  then show ?thesis by (rule cycles_terminate [THEN conjunct1])
qed

text \<open>
  (C35) The paper cycle trades a symbol once: the client order id it uses is fixed by the symbol, so once
  the order of an earlier cycle is closed, every further cycle for the symbol leaves account,
  orders and everything else as they are, whatever the market data, the quantity and the price.
\<close>

theorem paper_cycle_trades_once:
  assumes "dict_get (gs_orders (tc_gateway tc)) (''paper-'' @ symb) = Some r" and "terminal (or_status r)"
  shows "snd (cycle_run tc symb market quantity price) = tc"
proof -
  have same: "snd (approve_and_execute tc (cycle_order (''paper-'' @ symb) symb action quantity) price) = tc" for action
    by (rule closed_order_blocks [OF _ assms(2)]) (use assms(1) in \<open>simp add: cycle_order_def\<close>)
  show ?thesis
  proof (cases "run_agents (signal_agents @ [DebateOrchestratorAgent]) (agent_state_init symb market)")
    case (Inr st)
    define action where "action = row_get (ag_decision st) ''action'' (PStr ''HOLD'')"
    show ?thesis using same [of action] by (auto simp: cycle_run_def Inr action_def [symmetric] Let_def split: sum.splits prod.splits)
  qed (simp add: cycle_run_def)
qed

definition example_core :: trading_core where
  "example_core = \<lparr>tc_ctl = example_ctl PAPER_SANDBOX, tc_risk = guardian_init None, tc_engine = default_engine,
     tc_gateway = example_state\<rparr>"

theorem paper_cycle_trades_once_witness:
  "snd (cycle_run (snd (cycle_run example_core ''005930'' example_market 2 70000)) ''005930'' [] 9 80000)
    = snd (cycle_run example_core ''005930'' example_market 2 70000)"
proof (rule paper_cycle_trades_once)
  show "dict_get (gs_orders (tc_gateway (snd (cycle_run example_core ''005930'' example_market 2 70000)))) (''paper-'' @ ''005930'')
    = Some \<lparr>or_client_order_id = ''paper-005930'', or_symbol = ''005930'', or_side = ''SELL'', or_quantity = 2,
        or_filled_quantity = 2, or_status = FILLED\<rparr>" by code_simp
qed simp

text \<open>
  (C36) The pipeline reports an executed sale as rejected when the position was not bought through it:
  whenever the order was approved and filled but the pipeline's ledger holds less than the filled
  quantity, the run returns a result that says nothing was executed, although the core is in the
  state after the execution.
\<close>

theorem pipeline_hides_executed_sale:
  assumes "analyze lg symb market = Inr (st, c)" and "row_get (ag_decision st) ''action'' (PStr ''HOLD'') = PStr ''SELL''"
    and "approve_and_execute (trading_core.truncate tp)
          (cycle_order (''pipeline-'' @ symb @ ''-'' @ pv_uuid pv) symb (PStr ''SELL'') quantity) price = (Inr f, tc)"
    and "0 < fl_quantity f" "fl_status f \<noteq> ''REJECTED''" "0 < fl_price f" "fl_side f = SELL"
    and "lp_quantity (ledger_position_of (tp_ledger tp) symb) < fl_quantity f"
    and "parse_decimal (pv_show_dec pv 0) = Some d"
  shows "\<exists>r tp'. pipeline_run lg pv tp symb market quantity price = (Inr r, tp') \<and> \<not> pl_executed r
    \<and> trading_core.truncate tp' = tc \<and> tp_ledger tp' = tp_ledger tp"
proof -
  have l: "apply_fill (tp_ledger tp) symb SELL (fl_quantity f) (fl_price f) = Inl (ValueError ''sell quantity exceeds position'')"
    using assms(4,6,8) by (simp add: apply_fill_def position_sell_def ledger_position_of_def)
  have t: "pipeline_trade pv tp symb (PStr ''SELL'') market quantity price
      = (Inl (ValueError ''sell quantity exceeds position''), with_core tp tc)"
    using assms(3-7) l by (simp add: pipeline_trade_def Let_def)
  obtain r tp' where r: "reflected pv (with_core tp tc) symb (PStr ''SELL'') price 0 market ''REJECTED'' False = (Inr r, tp')"
    using reflected_ok [OF assms(9)] by (metis is_ok_iff prod.collapse)
  have "pipeline_run lg pv tp symb market quantity price = (Inr r, tp')"
    using assms(1,2) t r by (simp add: pipeline_run_def)
  then show ?thesis using reflected_memory [OF r] by auto
qed

definition example_pipeline :: trading_pipeline where
  "example_pipeline = trading_core.extend example_core (trading_pipeline.fields [] [])"

definition example_pv :: pipeline_env where
  "example_pv = \<lparr>pv_uuid = ''u1'', pv_episode_id = ''e1'', pv_now = ''now'', pv_show_dec = (\<lambda>d. show_int (trunc d))\<rparr>"

theorem pipeline_hides_executed_sale_witness:
  "\<exists>r tp'. pipeline_run example_lg example_pv example_pipeline ''005930'' example_market 2 70000 = (Inr r, tp')
    \<and> \<not> pl_executed r \<and> position_of (gs_account (tc_gateway tp')) ''005930'' = 2"
proof -
  let ?o = "cycle_order ''pipeline-005930-u1'' ''005930'' (PStr ''SELL'') 2"
  let ?x = "approve_and_execute example_core ?o 70000"
  obtain f where f: "fst ?x = Inr f" "0 < fl_quantity f" "fl_status f \<noteq> ''REJECTED''" "0 < fl_price f" "fl_side f = SELL"
    "lp_quantity (ledger_position_of [] ''005930'') < fl_quantity f"
  proof -
    have "case fst ?x of Inl _ \<Rightarrow> False | Inr f \<Rightarrow> 0 < fl_quantity f \<and> fl_status f \<noteq> ''REJECTED'' \<and> 0 < fl_price f
      \<and> fl_side f = SELL \<and> lp_quantity (ledger_position_of [] ''005930'') < fl_quantity f" by code_simp
    then show thesis by (cases "fst ?x") (auto intro: that)
  qed
  have p: "trading_core.truncate example_pipeline = example_core" "tp_ledger example_pipeline = []"
    by (simp_all add: example_pipeline_def trading_core.defs trading_pipeline.defs)
  have "\<exists>r tp'. pipeline_run example_lg example_pv example_pipeline ''005930'' example_market 2 70000 = (Inr r, tp')
      \<and> \<not> pl_executed r \<and> trading_core.truncate tp' = snd ?x \<and> tp_ledger tp' = tp_ledger example_pipeline"
  proof (rule pipeline_hides_executed_sale)
    have "fst ?x = Inr f" by (rule f(1))
    then show "approve_and_execute (trading_core.truncate example_pipeline)
        (cycle_order (''pipeline-'' @ ''005930'' @ ''-'' @ pv_uuid example_pv) ''005930'' (PStr ''SELL'') 2) 70000 = (Inr f, snd ?x)"
      by (simp add: p example_pv_def prod_eq_iff)
    show "analyze example_lg ''005930'' example_market = Inr (fst (projr (analyze example_lg ''005930'' example_market)), DEBATED)"
      by code_simp
    show "row_get (ag_decision (fst (projr (analyze example_lg ''005930'' example_market)))) ''action'' (PStr ''HOLD'') = PStr ''SELL''"
      by code_simp
    show "lp_quantity (ledger_position_of (tp_ledger example_pipeline) ''005930'') < fl_quantity f" using f(6) by (simp only: p)
    show "parse_decimal (pv_show_dec example_pv 0) = Some 0" by code_simp
  qed (rule f)+
  moreover have "position_of (gs_account (tc_gateway (snd ?x))) ''005930'' = 2" by code_simp
  moreover have "tc_gateway (trading_core.truncate tp) = tc_gateway tp" for tp :: trading_pipeline
    by (simp add: trading_core.defs)
  ultimately show ?thesis by metis
qed

text \<open>
  (C38) Every run is remembered: a pipeline run that returns has appended exactly one episode of its symbol
  to the memory, and a run that reports an execution is remembered with an outcome other than a
  rejection.
\<close>

theorem every_run_is_remembered:
  assumes "pipeline_run lg pv tp symb market quantity price = (Inr r, tp')"
  shows "\<exists>e. tp_memory tp' = tp_memory tp @ [e] \<and> te_symbol e = symb \<and> (pl_executed r \<longrightarrow> te_outcome e \<noteq> ''REJECTED'')"
proof -
  obtain st c where a: "analyze lg symb market = Inr (st, c)"
    using assms by (auto simp: pipeline_run_def split: sum.splits)
  define action where "action = row_get (ag_decision st) ''action'' (PStr ''HOLD'')"
  show ?thesis
  proof (cases "action = PStr ''HOLD''")
    case True
    then show ?thesis using assms a by (auto simp: pipeline_run_def action_def dest!: reflected_memory)
  next
    case False
    obtain res tp1 where t: "pipeline_trade pv tp symb action market quantity price = (res, tp1)" by fastforce
    show ?thesis
    proof (cases res)
      case (Inl e)
      then have "reflected pv tp1 symb action price 0 market ''REJECTED'' False = (Inr r, tp')"
        using assms a t False by (auto simp: pipeline_run_def action_def [symmetric] Let_def split: if_splits)
      from reflected_memory [OF this] show ?thesis using trade_error_memory [OF t [unfolded Inl]] by auto
    next
      case (Inr r1)
      then have "r1 = r" "tp1 = tp'" using assms a t False by (auto simp: pipeline_run_def action_def [symmetric] Let_def)
      then show ?thesis using trade_memory [OF t [unfolded Inr]] by auto
    qed
  qed
qed

theorem every_run_is_remembered_witness:
  "length (tp_memory (snd (pipeline_run example_lg example_pv example_pipeline ''005930'' example_market 2 70000))) = 1"
proof -
  let ?r = "pipeline_run example_lg example_pv example_pipeline ''005930'' example_market 2 70000"
  have "is_ok (fst ?r)" by code_simp
  then obtain r where "?r = (Inr r, snd ?r)" by (metis is_ok_iff prod.collapse)
  from every_run_is_remembered [OF this] show ?thesis
    by (auto simp: example_pipeline_def trading_core.defs trading_pipeline.defs)
qed

end
