(* ===== verification/Json.thy ===== *)
theory Json
  imports Values
begin

text \<open>
  The part of Python's \<open>json\<close> module and of \<open>str.splitlines\<close> the data lake stores its rows with:
  \<open>json.dumps\<close> with \<open>ensure_ascii=False\<close> and \<open>sort_keys=True\<close>, compact or indented, and
  \<open>json.loads\<close>. A character is one of the code points below 256. Numbers with a fraction or an
  exponent are not modelled: no value here is a float, and reading such a number fails.
\<close>

section \<open>Writing\<close>

definition escape_digit :: "int \<Rightarrow> char" where
  "escape_digit n = (if n < 10 then char_of (n + 48) else char_of (n + 87))"

definition escape_char :: "char \<Rightarrow> string" where
  "escape_char c = (let n = of_char c :: int in
     if n = 34 then [CHR 0x5C, CHR 0x22] else if n = 92 then [CHR 0x5C, CHR 0x5C]
     else if n = 10 then [CHR 0x5C, CHR ''n''] else if n = 13 then [CHR 0x5C, CHR ''r'']
     else if n = 9 then [CHR 0x5C, CHR ''t''] else if n = 8 then [CHR 0x5C, CHR ''b'']
     else if n = 12 then [CHR 0x5C, CHR ''f'']
     else if n < 32 then [CHR 0x5C, CHR ''u'', CHR ''0'', CHR ''0'', escape_digit (n div 16), escape_digit (n mod 16)]
     else [c])"

definition json_string :: "string \<Rightarrow> string" where
  "json_string s = CHR 0x22 # concat (map escape_char s) @ [CHR 0x22]"

text \<open>\<open>separators=(",", ":")\<close>; a decimal is not serializable.\<close>

primrec json_text :: "py_value \<Rightarrow> string" where
  "json_text PNone = ''null''"
| "json_text (PBool b) = (if b then ''true'' else ''false'')"
| "json_text (PInt n) = show_int n"
| "json_text (PDec d) = []"
| "json_text (PStr s) = json_string s"
| "json_text (PList xs) = ''['' @ join_with '','' (map json_text xs) @ '']''"
| "json_text (PDict d) =
     ''{'' @ join_with '','' (map (\<lambda>(k, t). json_string k @ '':'' @ t) (map (map_prod id json_text) d)) @ ''}''"

text \<open>\<open>sort_keys=True\<close>: every dictionary is written in the order of its keys.\<close>

primrec canon :: "py_value \<Rightarrow> py_value" where
  "canon PNone = PNone"
| "canon (PBool b) = PBool b"
| "canon (PInt n) = PInt n"
| "canon (PDec d) = PDec d"
| "canon (PStr s) = PStr s"
| "canon (PList xs) = PList (map canon xs)"
| "canon (PDict d) = PDict (sort_key fst (map (map_prod id canon) d))"

primrec serializable :: "py_value \<Rightarrow> bool" where
  "serializable PNone = True"
| "serializable (PBool b) = True"
| "serializable (PInt n) = True"
| "serializable (PDec d) = False"
| "serializable (PStr s) = True"
| "serializable (PList xs) = list_all id (map serializable xs)"
| "serializable (PDict d) = list_all snd (map (map_prod id serializable) d)"

definition json_dumps :: "py_value \<Rightarrow> string res" where
  "json_dumps v = (if serializable v then Inr (json_text (canon v))
     else Inl (TypeError ''Object of type Decimal is not JSON serializable''))"

text \<open>\<open>indent=2\<close>, from a level of indentation.\<close>

definition indentation :: "nat \<Rightarrow> string" where
  "indentation n = CHR 0x0A # replicate (2 * n) CHR '' ''"

primrec json_pretty :: "py_value \<Rightarrow> nat \<Rightarrow> string" where
  "json_pretty PNone n = ''null''"
| "json_pretty (PBool b) n = (if b then ''true'' else ''false'')"
| "json_pretty (PInt i) n = show_int i"
| "json_pretty (PDec d) n = []"
| "json_pretty (PStr s) n = json_string s"
| "json_pretty (PList xs) n = (if xs = [] then ''[]''
     else ''['' @ indentation (Suc n) @ join_with ('','' @ indentation (Suc n)) (map (\<lambda>f. f (Suc n)) (map json_pretty xs))
       @ indentation n @ '']'')"
| "json_pretty (PDict d) n = (if d = [] then ''{}''
     else ''{'' @ indentation (Suc n)
       @ join_with ('','' @ indentation (Suc n))
           (map (\<lambda>(k, f). json_string k @ '': '' @ f (Suc n)) (map (map_prod id json_pretty) d))
       @ indentation n @ ''}'')"

definition json_dumps_pretty :: "py_value \<Rightarrow> string res" where
  "json_dumps_pretty v = (if serializable v then Inr (json_pretty (canon v) 0)
     else Inl (TypeError ''Object of type Decimal is not JSON serializable''))"

section \<open>Reading\<close>

definition json_space :: "char \<Rightarrow> bool" where
  "json_space c = (c \<in> {CHR '' '', CHR 0x09, CHR 0x0A, CHR 0x0D})"

definition skip_space :: "string \<Rightarrow> string" where
  "skip_space s = dropWhile json_space s"

definition digit_code :: "char \<Rightarrow> int option" where
  "digit_code c = (let n = of_char c :: int in
     if 48 \<le> n \<and> n \<le> 57 then Some (n - 48) else if 97 \<le> n \<and> n \<le> 102 then Some (n - 87)
     else if 65 \<le> n \<and> n \<le> 70 then Some (n - 55) else None)"

text \<open>The code point of four hexadecimal digits; one above 255 is not a character of the model.\<close>

definition escaped_char :: "char \<Rightarrow> char \<Rightarrow> char \<Rightarrow> char \<Rightarrow> char option" where
  "escaped_char a b c d = (case (digit_code a, digit_code b, digit_code c, digit_code d) of
     (Some w, Some x, Some y, Some z) \<Rightarrow> if w = 0 \<and> x = 0 then Some (char_of (y * 16 + z)) else None
   | _ \<Rightarrow> None)"

definition plain_escape :: "char \<Rightarrow> char option" where
  "plain_escape c = (if c \<in> {CHR 0x22, CHR 0x5C, CHR ''/''} then Some c
     else if c = CHR ''b'' then Some CHR 0x08 else if c = CHR ''f'' then Some CHR 0x0C
     else if c = CHR ''n'' then Some CHR 0x0A else if c = CHR ''r'' then Some CHR 0x0D
     else if c = CHR ''t'' then Some CHR 0x09 else None)"

text \<open>The characters up to the closing quote, and the rest of the text.\<close>

fun read_string :: "string \<Rightarrow> (string \<times> string) option" where
  "read_string [] = None"
| "read_string (c # cs) =
     (if c = CHR 0x22 then Some ([], cs)
      else if c = CHR 0x5C then
        (case cs of
           [] \<Rightarrow> None
         | e # cs' \<Rightarrow>
             if e = CHR ''u'' then
               (case cs' of
                  w # x # y # z # cs'' \<Rightarrow>
                    (case escaped_char w x y z of
                       None \<Rightarrow> None
                     | Some ch \<Rightarrow> map_option (\<lambda>(s, r). (ch # s, r)) (read_string cs''))
                | _ \<Rightarrow> None)
             else (case plain_escape e of
                 None \<Rightarrow> None
               | Some ch \<Rightarrow> map_option (\<lambda>(s, r). (ch # s, r)) (read_string cs')))
      else if (of_char c :: int) < 32 then None
      else map_option (\<lambda>(s, r). (c # s, r)) (read_string cs))"

text \<open>An integer: an optional minus sign and digits without a leading zero; no fraction, no exponent.\<close>

definition read_number :: "string \<Rightarrow> (py_value \<times> string) option" where
  "read_number s =
     (let (sg, r) = (case s of c # cs \<Rightarrow> if c = CHR ''-'' then (-1, cs) else (1, s) | [] \<Rightarrow> (1, []));
          (n, k, rest) = scan_digits 0 0 r in
      if k = 0 \<or> (hd r = CHR ''0'' \<and> 1 < k) \<or> (rest \<noteq> [] \<and> hd rest \<in> {CHR ''.'', CHR ''e'', CHR ''E''}) then None
      else Some (PInt (sg * n), rest))"

fun read_value :: "nat \<Rightarrow> string \<Rightarrow> (py_value \<times> string) option"
  and read_items :: "nat \<Rightarrow> string \<Rightarrow> (py_value list \<times> string) option"
  and read_fields :: "nat \<Rightarrow> string \<Rightarrow> (row \<times> string) option" where
  "read_value 0 s = None"
| "read_value (Suc n) s =
     (case s of
        [] \<Rightarrow> None
      | c # cs \<Rightarrow>
          if c = CHR 0x22 then map_option (\<lambda>(t, r). (PStr t, r)) (read_string cs)
          else if c = CHR ''['' then
            (case skip_space cs of
               [] \<Rightarrow> None
             | d # r \<Rightarrow> if d = CHR '']'' then Some (PList [], r)
                 else map_option (\<lambda>(xs, r'). (PList xs, r')) (read_items n (d # r)))
          else if c = CHR ''{'' then
            (case skip_space cs of
               [] \<Rightarrow> None
             | d # r \<Rightarrow> if d = CHR ''}'' then Some (PDict [], r)
                 else map_option (\<lambda>(fs, r'). (PDict (foldl (\<lambda>m (k, v). dict_set k v m) [] fs), r')) (read_fields n (d # r)))
          else if starts_with ''null'' s then Some (PNone, drop 4 s)
          else if starts_with ''true'' s then Some (PBool True, drop 4 s)
          else if starts_with ''false'' s then Some (PBool False, drop 5 s)
          else read_number s)"
| "read_items 0 s = None"
| "read_items (Suc n) s =
     (case read_value n s of
        None \<Rightarrow> None
      | Some (v, r) \<Rightarrow>
          (case skip_space r of
             [] \<Rightarrow> None
           | c # r' \<Rightarrow> if c = CHR '']'' then Some ([v], r')
               else if c = CHR '','' then map_option (\<lambda>(vs, r''). (v # vs, r'')) (read_items n (skip_space r'))
               else None))"
| "read_fields 0 s = None"
| "read_fields (Suc n) s =
     (case s of
        [] \<Rightarrow> None
      | q # cs \<Rightarrow>
          if q \<noteq> CHR 0x22 then None
          else (case read_string cs of
              None \<Rightarrow> None
            | Some (k, r) \<Rightarrow>
                (case skip_space r of
                   [] \<Rightarrow> None
                 | c # r1 \<Rightarrow>
                     if c \<noteq> CHR '':'' then None
                     else (case read_value n (skip_space r1) of
                         None \<Rightarrow> None
                       | Some (v, r2) \<Rightarrow>
                           (case skip_space r2 of
                              [] \<Rightarrow> None
                            | d # r3 \<Rightarrow> if d = CHR ''}'' then Some ([(k, v)], r3)
                                else if d = CHR '','' then
                                  map_option (\<lambda>(fs, r4). ((k, v) # fs, r4)) (read_fields n (skip_space r3))
                                else None)))))"

text \<open>The length of the text bounds the number of nested calls.\<close>

definition json_loads :: "string \<Rightarrow> py_value res" where
  "json_loads s =
     (case read_value (Suc (length s)) (skip_space s) of
        Some (v, r) \<Rightarrow> if skip_space r = [] then Inr v else Inl (ValueError ''Extra data'')
      | None \<Rightarrow> Inl (ValueError ''Expecting value''))"

section \<open>Lines\<close>

text \<open>\<open>text.splitlines()\<close>.\<close>

definition line_break :: "char \<Rightarrow> bool" where
  "line_break c = (let n = of_char c :: int in (10 \<le> n \<and> n \<le> 13) \<or> (28 \<le> n \<and> n \<le> 30) \<or> n = 133)"

fun split_lines_from :: "string \<Rightarrow> string \<Rightarrow> string list" where
  "split_lines_from acc [] = (if acc = [] then [] else [rev acc])"
| "split_lines_from acc (c # cs) =
     (if c = CHR 0x0D \<and> cs \<noteq> [] \<and> hd cs = CHR 0x0A then rev acc # split_lines_from [] (tl cs)
      else if line_break c then rev acc # split_lines_from [] cs
      else split_lines_from (c # acc) cs)"

definition split_lines :: "string \<Rightarrow> string list" where
  "split_lines s = split_lines_from [] s"

text \<open>One value per line, as every JSONL file of the data lake is written.\<close>

fun json_lines :: "py_value list \<Rightarrow> string res" where
  "json_lines [] = Inr []"
| "json_lines (v # vs) = res_bind (json_dumps v) (\<lambda>t. res_bind (json_lines vs) (\<lambda>ts. Inr (t @ CHR 0x0A # ts)))"

section \<open>A string is read as it was written\<close>

lemma digit_code_escape: "0 \<le> n \<Longrightarrow> n < 16 \<Longrightarrow> digit_code (escape_digit n) = Some n"
  by (simp add: digit_code_def escape_digit_def of_char_of flip: take_bit_eq_mod) 

lemma escaped_digits:
  assumes "(of_char c :: int) = n"
  shows "escaped_char CHR ''0'' CHR ''0'' (escape_digit (n div 16)) (escape_digit (n mod 16)) = Some c"
proof -
  have b: "0 \<le> n" "n < 256" using assms of_char_range [of c] by auto
  have "digit_code CHR ''0'' = Some 0" by code_simp
  moreover have "char_of (n div 16 * 16 + n mod 16) = c" using assms by (simp flip: assms)
  ultimately show ?thesis using b by (simp add: escaped_char_def digit_code_escape)
qed

lemma read_string_escape: "read_string (escape_char c @ s) = map_option (\<lambda>(t, r). (c # t, r)) (read_string s)"
proof -
  define n where "n = (of_char c :: int)"
  have c: "c = char_of n" by (simp add: n_def)
  have quoted: "CHR 0x22 = (char_of (34 :: int) :: char)" "CHR 0x5C = (char_of (92 :: int) :: char)"
    "CHR 0x0A = (char_of (10 :: int) :: char)" "CHR 0x0D = (char_of (13 :: int) :: char)"
    "CHR 0x09 = (char_of (9 :: int) :: char)" "CHR 0x08 = (char_of (8 :: int) :: char)"
    "CHR 0x0C = (char_of (12 :: int) :: char)" by code_simp+
  consider "n \<in> {34, 92, 10, 13, 9, 8, 12}" | "n \<notin> {34, 92, 10, 13, 9, 8, 12}" "n < 32" | "n \<notin> {34, 92}" "32 \<le> n"
    by force
  then show ?thesis
  proof cases
    case 1
    then show ?thesis unfolding n_def [symmetric] c
      by (auto simp: escape_char_def of_char_of plain_escape_def quoted [symmetric] n_def [symmetric])
  next
    case 2
    then have e: "escape_char c = [CHR 0x5C, CHR ''u'', CHR ''0'', CHR ''0'', escape_digit (n div 16), escape_digit (n mod 16)]"
      by (simp add: escape_char_def n_def Let_def)
    show ?thesis by (simp add: e escaped_digits n_def)
  next
    case 3
    then have e: "escape_char c = [c]" "c \<noteq> CHR 0x22" "c \<noteq> CHR 0x5C"
      by (auto simp: escape_char_def n_def Let_def)
    then show ?thesis using 3 by (simp add: n_def)
  qed
qed

lemma read_json_string: "read_string (concat (map escape_char s) @ CHR 0x22 # r) = Some (s, r)"
  by (induction s) (simp_all add: read_string_escape)

section \<open>A number is read as it was written\<close>

text \<open>What follows a value inside a text: nothing, or the end of the item.\<close>

definition ends_item :: "string \<Rightarrow> bool" where
  "ends_item r = (r = [] \<or> hd r \<in> {CHR '','', CHR '']'', CHR ''}''})"

lemma ends_item_simps [simp]: "ends_item []" "ends_item (CHR '','' # r)" "ends_item (CHR '']'' # r)" "ends_item (CHR ''}'' # r)"
  by (simp_all add: ends_item_def)

lemma scan_digits_stops: "ends_item r \<Longrightarrow> scan_digits acc k r = (acc, k, r)"
  by (cases r) (auto simp: ends_item_def digit_value_def)

lemma scan_digits_rest:
  "scan_digits acc k xs = (n, j, []) \<Longrightarrow> ends_item r \<Longrightarrow> scan_digits acc k (xs @ r) = (n, j, r) \<and> j = k + length xs"
  by (induction acc k xs rule: scan_digits.induct) (auto simp: scan_digits_stops split: option.splits)

lemma show_nat_leading: "0 \<le> n \<Longrightarrow> n < 10 \<longrightarrow> length (show_nat n) = 1" "10 \<le> n \<Longrightarrow> hd (show_nat n) \<noteq> CHR ''0''"
proof -
  show "0 \<le> n \<Longrightarrow> n < 10 \<longrightarrow> length (show_nat n) = 1" by (simp add: show_nat.simps [of n])
  have zero: "digit_char d \<noteq> CHR ''0''" if "0 < d" "d \<le> 9" for d
  proof -
    have "(of_char (digit_char d) :: int) \<noteq> of_char CHR ''0''" using that by (simp add: of_char_digit)
    then show ?thesis by metis
  qed
  have "0 < n \<Longrightarrow> hd (show_nat n) \<noteq> CHR ''0''" for n
  proof (induction n rule: show_nat.induct)
    case (1 n)
    then show ?case using show_nat_chars [of "n div 10"]
      by (cases "n < 10") (auto simp: show_nat.simps [of n] zero pos_imp_zdiv_pos_iff hd_append)
  qed
  then show "10 \<le> n \<Longrightarrow> hd (show_nat n) \<noteq> CHR ''0''" by simp
qed

lemma read_number_show:
  assumes "ends_item r"
  shows "read_number (show_int n @ r) = Some (PInt n, r)"
proof -
  have nat: "\<exists>k. scan_digits 0 0 (show_nat m @ r) = (m, k, r) \<and> k \<noteq> 0 \<and> \<not> (hd (show_nat m @ r) = CHR ''0'' \<and> 1 < k)
      \<and> show_nat m \<noteq> [] \<and> hd (show_nat m) \<noteq> CHR ''-''" if m: "0 \<le> m" for m
  proof -
    obtain k where "scan_digits 0 0 (show_nat m) = (m, Suc k, [])" using scan_digits_show_nat [OF m] by blast
    note s = scan_digits_rest [OF this assms]
    have c: "show_nat m \<noteq> []" "hd (show_nat m) \<in> digit_char ` {0..9}"
      using show_nat_chars [OF m] hd_in_set by blast+
    then have "hd (show_nat m) \<noteq> CHR ''-''" using digit_char_props(2) by fastforce
    then show ?thesis using s c(1) show_nat_leading [of m] m by (cases "m < 10") auto
  qed
  have r: "\<not> (r \<noteq> [] \<and> hd r \<in> {CHR ''.'', CHR ''e'', CHR ''E''})" using assms by (auto simp: ends_item_def)
  show ?thesis
  proof (cases "n < 0")
    case True
    then obtain k where "scan_digits 0 0 (show_nat (- n) @ r) = (- n, k, r)" "k \<noteq> 0"
      "\<not> (hd (show_nat (- n) @ r) = CHR ''0'' \<and> 1 < k)" using nat [of "- n"] by auto
    then show ?thesis using r True by (simp add: read_number_def show_int_def)
  next
    case False
    then obtain k where k: "scan_digits 0 0 (show_nat n @ r) = (n, k, r)" "k \<noteq> 0"
      "\<not> (hd (show_nat n @ r) = CHR ''0'' \<and> 1 < k)" "show_nat n \<noteq> []" "hd (show_nat n) \<noteq> CHR ''-''" using nat [of n] by auto
    then obtain c cs where "show_nat n = c # cs" "c \<noteq> CHR ''-''" by (cases "show_nat n") auto
    then show ?thesis using r False k by (simp add: read_number_def show_int_def)
  qed
qed

section \<open>A value is read as it was written\<close>

primrec keys_ok :: "py_value \<Rightarrow> bool" where
  "keys_ok PNone = True"
| "keys_ok (PBool b) = True"
| "keys_ok (PInt n) = True"
| "keys_ok (PDec d) = True"
| "keys_ok (PStr s) = True"
| "keys_ok (PList xs) = list_all id (map keys_ok xs)"
| "keys_ok (PDict d) = (dict_wf d \<and> list_all snd (map (map_prod id keys_ok) d))"

definition field_text :: "string \<times> py_value \<Rightarrow> string" where
  "field_text kv = json_string (fst kv) @ '':'' @ json_text (snd kv)"

lemma json_text_dict: "json_text (PDict d) = ''{'' @ join_with '','' (map field_text d) @ ''}''"
  by (simp add: field_text_def [abs_def] case_prod_beta comp_def)

lemma show_int_start: "show_int i \<noteq> []" "hd (show_int i) \<in> insert CHR ''-'' (digit_char ` {0..9})"
proof -
  have "show_int i \<noteq> [] \<and> hd (show_int i) \<in> insert CHR ''-'' (digit_char ` {0..9})"
  proof (cases "i < 0")
    case False
    then have "show_nat i \<noteq> []" "set (show_nat i) \<subseteq> digit_char ` {0..9}" using show_nat_chars [of i] by auto
    moreover from this(1) have "hd (show_nat i) \<in> set (show_nat i)" by simp
    ultimately show ?thesis using False by (simp add: show_int_def subset_iff)
  qed (simp add: show_int_def)
  then show "show_int i \<noteq> []" "hd (show_int i) \<in> insert CHR ''-'' (digit_char ` {0..9})" by blast+
qed

lemma show_int_first: "(of_char c :: int) \<noteq> 45 \<Longrightarrow> \<not> (48 \<le> (of_char c :: int) \<and> (of_char c :: int) \<le> 57) \<Longrightarrow> hd (show_int i) \<noteq> c"
  using show_int_start(2) [of i] by (auto simp: of_char_digit)

lemma text_starts: "serializable v \<Longrightarrow> json_text v \<noteq> [] \<and> \<not> json_space (hd (json_text v)) \<and> hd (json_text v) \<noteq> CHR '']''"
proof (cases v)
  case (PInt n)
  then show ?thesis by (simp add: json_space_def show_int_start show_int_first)
qed (auto simp: json_space_def json_string_def)

lemma skip_space_id: "s \<noteq> [] \<Longrightarrow> \<not> json_space (hd s) \<Longrightarrow> skip_space (s @ r) = s @ r"
  by (cases s) (simp_all add: skip_space_def)

lemma skip_space_stop [simp]:
  "skip_space (CHR '','' # r) = CHR '','' # r" "skip_space (CHR '']'' # r) = CHR '']'' # r"
  "skip_space (CHR ''}'' # r) = CHR ''}'' # r" "skip_space (CHR '':'' # r) = CHR '':'' # r"
  "skip_space (CHR 0x22 # r) = CHR 0x22 # r"
  by (simp_all add: skip_space_def json_space_def)

lemma skip_space_text: "serializable v \<Longrightarrow> skip_space (json_text v @ r) = json_text v @ r"
  using text_starts by (intro skip_space_id) auto

text \<open>Reading \<open>v\<close> back, whatever follows, with enough fuel.\<close>

definition reads :: "py_value \<Rightarrow> bool" where
  "reads v = (serializable v \<and>
     (\<forall>n r. length (json_text v) < n \<longrightarrow> ends_item r \<longrightarrow> read_value n (json_text v @ r) = Some (v, r)))"

lemma readsD: "reads v \<Longrightarrow> length (json_text v) < n \<Longrightarrow> ends_item r \<Longrightarrow> read_value n (json_text v @ r) = Some (v, r)"
  by (simp add: reads_def)

lemma read_items_text:
  "xs \<noteq> [] \<Longrightarrow> list_all reads xs \<Longrightarrow> Suc (length (join_with '','' (map json_text xs))) < n \<Longrightarrow>
    read_items n (join_with '','' (map json_text xs) @ CHR '']'' # r) = Some (xs, r)"
proof (induction xs arbitrary: n)
  case (Cons x xs)
  obtain m where m: "n = Suc m" using Cons.prems(3) by (cases n) auto
  show ?case
  proof (cases xs)
    case Nil
    then show ?thesis using Cons.prems readsD [of x m "CHR '']'' # r"] by (simp add: m)
  next
    case (Cons y ys)
    let ?rest = "join_with '','' (map json_text xs) @ CHR '']'' # r"
    have sk: "skip_space ?rest = ?rest"
      using Cons.prems(2) Cons by (cases ys) (auto simp: reads_def intro!: skip_space_text)
    have "read_value m (json_text x @ CHR '','' # ?rest) = Some (x, CHR '','' # ?rest)"
      using Cons.prems(2,3) Cons by (intro readsD) (simp_all add: m)
    moreover have "read_items m ?rest = Some (xs, r)"
      using Cons.prems(2,3) Cons by (intro Cons.IH) (simp_all add: m)
    ultimately show ?thesis using sk Cons by (simp add: m)
  qed
qed simp

lemma read_fields_text:
  "d \<noteq> [] \<Longrightarrow> list_all (\<lambda>kv. reads (snd kv)) d \<Longrightarrow> Suc (length (join_with '','' (map field_text d))) < n \<Longrightarrow>
    read_fields n (join_with '','' (map field_text d) @ CHR ''}'' # r) = Some (d, r)"
proof (induction d arbitrary: n)
  case (Cons kv d)
  obtain m where m: "n = Suc m" using Cons.prems(3) by (cases n) auto
  obtain k v where kv: "kv = (k, v)" by fastforce
  have v: "reads v" "skip_space (json_text v @ t) = json_text v @ t" for t
    using Cons.prems(2) by (auto simp: kv reads_def intro!: skip_space_text)
  have len: "length (field_text kv) + (if d = [] then 0 else Suc (length (join_with '','' (map field_text d)))) < m"
    using Cons.prems(3) by (cases d) (simp_all add: m)
  have step: "read_fields n (field_text kv @ e # t) = (if e = CHR ''}'' then Some ([kv], t)
      else map_option (\<lambda>(fs, r4). (kv # fs, r4)) (read_fields m (skip_space t)))"
    if e: "e = CHR '','' \<or> e = CHR ''}''" for e t
  proof -
    have "read_value m (json_text v @ e # t) = Some (v, e # t)"
      using e len by (intro readsD [OF v(1)]) (auto simp: kv field_text_def)
    moreover have "skip_space (e # t) = e # t" using e by auto
    ultimately show ?thesis using e by (auto simp: m kv field_text_def json_string_def read_json_string v(2))
  qed
  show ?case
  proof (cases d)
    case Nil
    then show ?thesis using step by simp
  next
    case (Cons kv' d')
    let ?rest = "join_with '','' (map field_text d) @ CHR ''}'' # r"
    have "skip_space ?rest = ?rest"
      using Cons by (cases d') (simp_all add: field_text_def json_string_def)
    moreover have "read_fields m ?rest = Some (d, r)"
      using Cons.prems(2) Cons len by (intro Cons.IH) simp_all
    ultimately show ?thesis using step [of "CHR '',''" ?rest] Cons by simp
  qed
qed simp

lemma foldl_dict_set: "dict_wf (m @ fs) \<Longrightarrow> foldl (\<lambda>m (k, v). dict_set k v m) m fs = m @ fs"
proof (induction fs arbitrary: m)
  case (Cons kv fs)
  obtain k v where kv: "kv = (k, v)" by fastforce
  have "k \<notin> fst ` set m \<Longrightarrow> dict_set k v m = m @ [(k, v)]" for m :: "('a, 'b) dict"
    by (induction m) auto
  then have "dict_set k v m = m @ [(k, v)]" using Cons.prems kv by simp
  then show ?case using Cons.IH [of "m @ [(k, v)]"] Cons.prems by (simp add: kv)
qed simp

lemma read_text: "serializable v \<Longrightarrow> keys_ok v \<Longrightarrow> reads v"
proof (induction v)
  case (PInt i)
  have "read_value n (json_text (PInt i) @ r) = Some (PInt i, r)" if n: "length (json_text (PInt i)) < n" and r: "ends_item r" for n r
  proof -
    obtain c cs where c0: "show_int i = c # cs" by (cases "show_int i") (auto simp: show_int_start)
    then have ch: "c = hd (show_int i)" by simp
    have c: "c \<noteq> CHR 0x22" "c \<noteq> CHR ''[''" "c \<noteq> CHR ''{''" "c \<noteq> CHR ''n''" "c \<noteq> CHR ''t''" "c \<noteq> CHR ''f''"
      unfolding ch by (rule show_int_first; simp)+
    note c = c0 c
    have "\<not> starts_with ''null'' (show_int i @ r)" "\<not> starts_with ''true'' (show_int i @ r)"
      "\<not> starts_with ''false'' (show_int i @ r)" using c by (simp_all add: starts_with_def)
    then show ?thesis using n c read_number_show [OF r, of i] by (cases n) (simp_all del: starts_with_append)
  qed
  then show ?case by (simp add: reads_def)
next
  case (PStr t)
  have "read_value n (json_string t @ r) = Some (PStr t, r)" if "length (json_string t) < n" for n r
    using that by (cases n) (simp_all add: json_string_def read_json_string)
  then show ?case by (simp add: reads_def)
next
  case (PList xs)
  have all: "list_all reads xs" using PList by (simp add: list_all_iff)
  have "read_value n (json_text (PList xs) @ r) = Some (PList xs, r)" if n: "length (json_text (PList xs)) < n" for n r
  proof (cases xs)
    case Nil
    then show ?thesis using that by (cases n) simp_all
  next
    case (Cons y ys)
    obtain m where m: "n = Suc m" using n by (cases n) auto
    let ?body = "join_with '','' (map json_text xs) @ CHR '']'' # r"
    have "?body \<noteq> [] \<and> \<not> json_space (hd ?body) \<and> hd ?body \<noteq> CHR '']''"
      using text_starts [of y] all Cons by (cases ys) (auto simp: reads_def hd_append)
    then obtain d t where d: "?body = d # t" "d \<noteq> CHR '']''" "skip_space ?body = ?body"
      by (cases ?body) (auto simp: skip_space_def)
    have "read_items m ?body = Some (xs, r)" using all Cons that by (intro read_items_text) (simp_all add: m)
    then show ?thesis using d by (simp add: m)
  qed
  then show ?case using PList.prems by (simp add: reads_def)
next
  case (PDict d)
  have "reads (snd kv)" if "kv \<in> set d" for kv
  proof -
    have "serializable (snd kv)" "keys_ok (snd kv)" using PDict.prems that by (auto simp: list_all_iff)
    then show ?thesis using PDict.IH [of kv "snd kv"] that by (cases kv) simp
  qed
  then have all: "list_all (\<lambda>kv. reads (snd kv)) d" by (simp add: list_all_iff)
  have wf: "dict_wf d" using PDict.prems by simp
  have "read_value n (json_text (PDict d) @ r) = Some (PDict d, r)" if n: "length (json_text (PDict d)) < n" for n r
  proof (cases d)
    case Nil
    then show ?thesis using that by (cases n) simp_all
  next
    case (Cons kv kvs)
    obtain m where m: "n = Suc m" using n by (cases n) auto
    let ?body = "join_with '','' (map field_text d) @ CHR ''}'' # r"
    obtain t where d: "?body = CHR 0x22 # t"
      using Cons by (cases kvs) (simp_all add: field_text_def json_string_def)
    have "read_fields m ?body = Some (d, r)"
      using all Cons that by (intro read_fields_text) (simp_all add: m json_text_dict del: json_text.simps)
    then show ?thesis using d foldl_dict_set [of "[]" d] wf by (simp add: m json_text_dict del: json_text.simps)
  qed
  then show ?case using PDict.prems by (simp add: reads_def)
qed (auto simp: reads_def starts_with_def less_Suc_eq_0_disj gr0_conv_Suc numeral_eq_Suc dest!: less_imp_Suc_add)

section \<open>Canonical values\<close>

lemma serializable_canon: "serializable (canon v) = serializable v"
proof (induction v)
  case (PDict d)
  then have "(\<forall>kv \<in> set d. serializable (canon (snd kv))) = (\<forall>kv \<in> set d. serializable (snd kv))"
    by (metis snds.intros)
  then show ?case by (auto simp: list_all_iff)
qed (auto simp: list_all_iff)

lemma dict_wf_sort: "dict_wf d \<Longrightarrow> dict_wf (sort_key fst d)"
  by (simp add: distinct_map)

lemma keys_ok_canon: "keys_ok v \<Longrightarrow> keys_ok (canon v)"
proof (induction v)
  case (PDict d)
  have "keys_ok (canon (snd kv))" if "kv \<in> set d" for kv
    using PDict.IH [of kv "snd kv"] PDict.prems that by (cases kv) (force simp: list_all_iff)
  moreover have "dict_wf (map (map_prod id canon) d)" using PDict.prems by (simp add: comp_def)
  then have "dict_wf (sort_key fst (map (map_prod id canon) d))" by (rule dict_wf_sort)
  ultimately show ?case by (auto simp: list_all_iff)
qed (auto simp: list_all_iff)

lemma canon_canon: "canon (canon v) = canon v"
proof (induction v)
  case (PDict d)
  have e: "map_prod id canon kv = kv" if kv: "kv \<in> set (map (map_prod id canon) d)" for kv
  proof -
    obtain k x where kx: "(k, x) \<in> set d" "kv = (k, canon x)" using kv by auto
    have "canon (canon x) = canon x" by (rule PDict.IH [OF kx(1)]) simp
    then show ?thesis by (simp add: kx(2))
  qed
  have "map (map_prod id canon) (sort_key fst (map (map_prod id canon) d)) = sort_key fst (map (map_prod id canon) d)"
    by (rule map_idI, rule e) simp
  moreover have "sort_key fst (sort_key fst xs) = sort_key fst xs" for xs :: "row"
    by (intro sort_key_id_if_sorted) simp
  ultimately show ?case by simp
qed auto

text \<open>What is written is read back, with the keys of every dictionary in order.\<close>

lemma json_loads_dumps:
  assumes "json_dumps v = Inr t" and "keys_ok v"
  shows "json_loads t = Inr (canon v)"
proof -
  have t: "t = json_text (canon v)" and s: "serializable (canon v)"
    using assms(1) by (auto simp: json_dumps_def serializable_canon split: if_splits)
  have "read_value (Suc (length t)) (t @ []) = Some (canon v, [])"
    unfolding t by (intro readsD read_text s keys_ok_canon assms(2)) simp_all
  moreover have "skip_space t = t" using skip_space_text [OF s, of "[]"] by (simp add: t)
  ultimately show ?thesis by (simp add: json_loads_def skip_space_def)
qed

lemma text_visible: "serializable v \<Longrightarrow> strip (json_text v) \<noteq> []"
proof -
  assume v: "serializable v"
  have "\<not> py_isspace (hd (json_text v))" using v
  proof (cases v)
    case (PInt n)
    have "\<not> py_isspace CHR ''-''" by code_simp
    then show ?thesis using PInt show_int_start(2) [of n] digit_char_props(1) by auto
  qed (auto simp: json_string_def py_isspace_def)
  then obtain c cs where "json_text v = c # cs" "\<not> py_isspace c" using text_starts [OF v] by (cases "json_text v") auto
  then show "strip (json_text v) \<noteq> []" by (simp add: strip_def lstrip_def)
qed

section \<open>Lines are read as they were written\<close>

text \<open>No text or key in the value has the one line break that is not escaped.\<close>

definition one_line_text :: "string \<Rightarrow> bool" where
  "one_line_text s = (char_of (133 :: int) \<notin> set s)"

primrec one_line :: "py_value \<Rightarrow> bool" where
  "one_line PNone = True"
| "one_line (PBool b) = True"
| "one_line (PInt n) = True"
| "one_line (PDec d) = True"
| "one_line (PStr s) = one_line_text s"
| "one_line (PList xs) = list_all id (map one_line xs)"
| "one_line (PDict d) = list_all (\<lambda>kb. one_line_text (fst kb) \<and> snd kb) (map (map_prod id one_line) d)"

definition unbroken :: "string \<Rightarrow> bool" where
  "unbroken s = (\<forall>c \<in> set s. \<not> line_break c)"

lemma unbroken_simps [simp]:
  "unbroken []" "unbroken (c # s) \<longleftrightarrow> \<not> line_break c \<and> unbroken s" "unbroken (s @ t) \<longleftrightarrow> unbroken s \<and> unbroken t"
  by (auto simp: unbroken_def)

lemma unbroken_join: "unbroken sep \<Longrightarrow> list_all unbroken ts \<Longrightarrow> unbroken (join_with sep ts)"
  by (induction sep ts rule: join_with.induct) auto

lemma unbroken_escape: "c \<noteq> char_of (133 :: int) \<Longrightarrow> unbroken (escape_char c)"
proof -
  assume c: "c \<noteq> char_of (133 :: int)"
  then have "(of_char c :: int) \<noteq> 133" using char_code by metis
  moreover have "\<not> line_break (escape_digit n)" if "0 \<le> n" "n < 16" for n
    using that by (simp add: line_break_def escape_digit_def of_char_of flip: take_bit_eq_mod)
  ultimately show ?thesis using of_char_range [of c]
    by (auto simp: escape_char_def line_break_def Let_def pos_imp_zdiv_nonneg_iff)
qed

lemma unbroken_string: "one_line_text s \<Longrightarrow> unbroken (json_string s)"
proof -
  have "one_line_text s \<Longrightarrow> unbroken (concat (map escape_char s))"
    by (induction s) (auto simp: one_line_text_def unbroken_escape)
  then show "one_line_text s \<Longrightarrow> unbroken (json_string s)" by (simp add: json_string_def line_break_def)
qed

lemma unbroken_show_int: "unbroken (show_int n)"
proof -
  have d: "\<not> line_break (digit_char d)" if "d \<in> {0..9}" for d
    using that of_char_digit [of d] by (simp add: line_break_def)
  have "unbroken (show_nat m)" if "0 \<le> m" for m
    using show_nat_chars [OF that] d unfolding unbroken_def by blast
  then show ?thesis by (auto simp: show_int_def line_break_def)
qed

lemma unbroken_text: "one_line v \<Longrightarrow> unbroken (json_text v)"
proof (induction v)
  case (PList xs)
  then have "list_all unbroken (map json_text xs)" by (auto simp: list_all_iff)
  then show ?case by (simp add: unbroken_join line_break_def)
next
  case (PDict d)
  have "unbroken (field_text kv)" if "kv \<in> set d" for kv
  proof -
    have "one_line_text (fst kv)" "one_line (snd kv)" using PDict.prems that by (auto simp: list_all_iff)
    then show ?thesis using PDict.IH [of kv "snd kv"] that
      by (cases kv) (simp add: field_text_def unbroken_string line_break_def)
  qed
  then have "list_all unbroken (map field_text d)" by (simp add: list_all_iff)
  then show ?case unfolding json_text_dict by (simp add: unbroken_join line_break_def)
qed (auto simp: unbroken_string unbroken_show_int line_break_def)

lemma one_line_canon: "one_line v \<Longrightarrow> one_line (canon v)"
proof (induction v)
  case (PDict d)
  have "one_line (canon (snd kv)) \<and> one_line_text (fst kv)" if "kv \<in> set d" for kv
  proof -
    have "one_line_text (fst kv)" "one_line (snd kv)" using PDict.prems that by (auto simp: list_all_iff)
    then show ?thesis using PDict.IH [of kv "snd kv"] that by (cases kv) simp
  qed
  then show ?case by (auto simp: list_all_iff)
qed (auto simp: list_all_iff)

lemma split_line_append:
  "unbroken s \<Longrightarrow> split_lines_from acc (s @ CHR 0x0A # t) = (rev acc @ s) # split_lines_from [] t"
  by (induction s arbitrary: acc) (auto simp: line_break_def split: if_splits)

lemma json_lines_read:
  assumes "json_lines vs = Inr t" and "list_all keys_ok vs" and "list_all one_line vs"
  shows "map json_loads (split_lines t) = map (Inr \<circ> canon) vs"
    and "list_all (\<lambda>l. strip l \<noteq> []) (split_lines t)"
  using assms
proof (induction vs arbitrary: t)
  case (Cons v vs)
  { case 1
    then obtain l r where l: "json_dumps v = Inr l" "json_lines vs = Inr r" "t = l @ CHR 0x0A # r"
      by (auto simp: res_bind_eq_Inr)
    have "unbroken l" using l(1) 1(3) by (auto simp: json_dumps_def unbroken_text one_line_canon split: if_splits)
    then show ?case using Cons.IH(1) [OF l(2)] 1 json_loads_dumps [OF l(1)]
      by (simp add: l(3) split_lines_def split_line_append) }
  { case 2
    then obtain l r where l: "json_dumps v = Inr l" "json_lines vs = Inr r" "t = l @ CHR 0x0A # r"
      by (auto simp: res_bind_eq_Inr)
    have u: "unbroken l" using l(1) 2(3) by (auto simp: json_dumps_def unbroken_text one_line_canon split: if_splits)
    have "strip l \<noteq> []"
      using l(1) text_visible [of "canon v"] by (auto simp: json_dumps_def serializable_canon split: if_splits)
    then show ?case using Cons.IH(2) [OF l(2)] 2 u
      by (simp add: l(3) split_lines_def split_line_append) }
qed (simp_all add: split_lines_def)

end
