(* ===== verification/Dates.thy ===== *)
theory Dates
  imports Values
begin

text \<open>
  Calendar dates as the code reads and writes them: \<open>date.fromisoformat\<close> on \<open>YYYY-MM-DD\<close> and
  \<open>YYYYMMDD\<close> and \<open>date.isoformat\<close>. The week dates that \<open>fromisoformat\<close> also reads are malformed
  here. A date is a triple of year, month and day, so that dates compare as in Python.
\<close>

type_synonym py_date = "int \<times> int \<times> int"

definition leap_year :: "int \<Rightarrow> bool" where
  "leap_year y = (4 dvd y \<and> (\<not> 100 dvd y \<or> 400 dvd y))"

definition month_days :: "int \<Rightarrow> int \<Rightarrow> int" where
  "month_days y m = (if m = 2 then (if leap_year y then 29 else 28) else if m \<in> {4, 6, 9, 11} then 30 else 31)"

fun valid_date :: "py_date \<Rightarrow> bool" where
  "valid_date (y, m, d) = (1 \<le> y \<and> y \<le> 9999 \<and> 1 \<le> m \<and> m \<le> 12 \<and> 1 \<le> d \<and> d \<le> month_days y m)"

text \<open>A text that consists of digits.\<close>

definition parse_digits :: "string \<Rightarrow> int option" where
  "parse_digits s = (case scan_digits 0 0 s of (n, k, r) \<Rightarrow> if k = 0 \<or> r \<noteq> [] then None else Some n)"

definition checked_date :: "string \<Rightarrow> string \<Rightarrow> string \<Rightarrow> py_date option" where
  "checked_date ys ms ds = (case (parse_digits ys, parse_digits ms, parse_digits ds) of
     (Some y, Some m, Some d) \<Rightarrow> if valid_date (y, m, d) then Some (y, m, d) else None
   | _ \<Rightarrow> None)"

definition parse_iso_date :: "string \<Rightarrow> py_date option" where
  "parse_iso_date s =
     (if length s = 10 \<and> s ! 4 = CHR ''-'' \<and> s ! 7 = CHR ''-''
      then checked_date (take 4 s) (take 2 (drop 5 s)) (drop 8 s)
      else if length s = 8 then checked_date (take 4 s) (take 2 (drop 4 s)) (drop 6 s)
      else None)"

text \<open>Zero padding to a number of digits.\<close>

definition pad2 :: "int \<Rightarrow> string" where
  "pad2 n = [digit_char (n div 10 mod 10), digit_char (n mod 10)]"

definition pad4 :: "int \<Rightarrow> string" where
  "pad4 n = [digit_char (n div 1000 mod 10), digit_char (n div 100 mod 10), digit_char (n div 10 mod 10), digit_char (n mod 10)]"

fun iso_format :: "py_date \<Rightarrow> string" where
  "iso_format (y, m, d) = pad4 y @ ''-'' @ pad2 m @ ''-'' @ pad2 d"

section \<open>A date is read as it was written\<close>

lemma parse_pad2: "0 \<le> n \<Longrightarrow> n < 100 \<Longrightarrow> parse_digits (pad2 n) = Some n"
  by (simp add: parse_digits_def pad2_def)

lemma parse_pad4:
  assumes "0 \<le> n" "n < 10000"
  shows "parse_digits (pad4 n) = Some n"
proof -
  have e: "n div 100 = n div 10 div 10" "n div 1000 = n div 10 div 10 div 10" by (simp_all flip: zdiv_zmult2_eq)
  have "n div 10 div 10 div 10 < 10" using assms by simp
  then have "n div 1000 mod 10 = n div 1000" using assms unfolding e by (intro mod_pos_pos_trivial) auto
  then have v: "((n div 1000 mod 10 * 10 + n div 100 mod 10) * 10 + n div 10 mod 10) * 10 + n mod 10 = n"
    unfolding e by (simp only: div_mult_mod_eq)
  have d: "digit_value (digit_char (m mod 10)) = Some (m mod 10)" for m by (rule digit_value_char) simp_all
  have "scan_digits 0 0 (pad4 n) = (((n div 1000 mod 10 * 10 + n div 100 mod 10) * 10 + n div 10 mod 10) * 10 + n mod 10, 4, [])"
    by (simp add: pad4_def d del: digit_value_char)
  then show ?thesis unfolding v by (simp add: parse_digits_def)
qed

lemma month_days_bound: "month_days y m \<le> 31"
  by (simp add: month_days_def)

lemma parse_iso_text:
  "parse_iso_date [a, b, c, d, CHR ''-'', e, f, CHR ''-'', g, h] = checked_date [a, b, c, d] [e, f] [g, h]"
  by (simp add: parse_iso_date_def)

lemma parse_iso_format: "valid_date d \<Longrightarrow> parse_iso_date (iso_format d) = Some d"
proof (cases d)
  case (fields y m dd)
  assume v: "valid_date d"
  then have "dd < 100" using month_days_bound [of y m] by (simp add: fields)
  then have "checked_date (pad4 y) (pad2 m) (pad2 dd) = Some d"
    using v by (simp add: fields checked_date_def parse_pad2 parse_pad4)
  then show ?thesis unfolding fields iso_format.simps pad4_def pad2_def append_Cons append_Nil parse_iso_text .
qed

lemma parse_iso_date_valid: "parse_iso_date s = Some d \<Longrightarrow> valid_date d"
  by (auto simp: parse_iso_date_def checked_date_def split: if_splits option.splits)

declare iso_format.simps [simp del]

end
