(* ===== verification/Data_Lake.thy ===== *)
theory Data_Lake
  imports Json Dates "HOL-Library.Multiset"
begin

text \<open>
  \<open>data_lake.py\<close>: the storage agent that writes datasets, date partitions and run artifacts as
  JSONL files with manifests through a Drive client, and the client that mirrors a Drive in a
  local directory.

  The agent is written against an interface, as in the code; the interface is a record of
  operations, and the laws the agent relies on are a locale. The digest of a payload and the
  rendering of decimals and of identifiers are parameters.
\<close>

section \<open>Interfaces\<close>

text \<open>\<open>DriveClient\<close> and \<open>ReadableDriveClient\<close>, over identifiers \<open>'i\<close> and the client's state \<open>'s\<close>.\<close>

record ('i, 's) drive_client =
  dc_ensure_folder :: "string \<Rightarrow> 'i option \<Rightarrow> ('s, 'i) st"
  dc_upload :: "string \<Rightarrow> string \<Rightarrow> 'i option \<Rightarrow> string \<Rightarrow> ('s, 'i) st"
  dc_readable :: bool
  dc_find_file :: "'s \<Rightarrow> string \<Rightarrow> 'i option \<Rightarrow> string option \<Rightarrow> 'i option res"
  dc_list_files :: "'s \<Rightarrow> 'i \<Rightarrow> string option \<Rightarrow> ('i \<times> string) list res"
  dc_download :: "'s \<Rightarrow> 'i \<Rightarrow> string res"

definition folder_mime :: string where
  "folder_mime = ''application/vnd.google-apps.folder''"

record dataset_manifest =
  dm_dataset :: string
  dm_as_of :: string
  dm_row_count :: int
  dm_schema_version :: string
  dm_source :: string
  dm_checksum :: string
  dm_run_id :: "string option"
  dm_success_count :: int
  dm_failure_count :: int
  dm_partition_count :: int
  dm_partition_keys :: "string list"

definition str_opt :: "string option \<Rightarrow> py_value" where
  "str_opt s = (case s of None \<Rightarrow> PNone | Some t \<Rightarrow> PStr t)"

text \<open>\<open>asdict(manifest)\<close>.\<close>

definition manifest_dict :: "dataset_manifest \<Rightarrow> py_value" where
  "manifest_dict m = PDict [(''dataset'', PStr (dm_dataset m)), (''as_of'', PStr (dm_as_of m)),
     (''row_count'', PInt (dm_row_count m)), (''schema_version'', PStr (dm_schema_version m)),
     (''source'', PStr (dm_source m)), (''checksum_sha256'', PStr (dm_checksum m)),
     (''run_id'', str_opt (dm_run_id m)), (''success_count'', PInt (dm_success_count m)),
     (''failure_count'', PInt (dm_failure_count m)), (''partition_count'', PInt (dm_partition_count m)),
     (''partition_keys'', PList (map PStr (dm_partition_keys m)))]"

section \<open>The local mirror\<close>

text \<open>
  A path is the list of its parts, the first of which is \<open>/\<close> when the path is absolute; an
  identifier is the text of a path. Parts are joined literally: \<open>..\<close> and symbolic links are not
  followed. The directory tree is a dictionary from paths, which lists a directory in its order.
\<close>

type_synonym path = "string list"

datatype fs_node = Folder | File string

type_synonym fs = "(path, fs_node) dict"

definition path_of :: "string \<Rightarrow> path" where
  "path_of s = (if starts_with ''/'' s then [''/''] else [])
     @ filter (\<lambda>p. p \<noteq> [] \<and> p \<noteq> ''.'') (split_on CHR ''/'' s)"

definition is_absolute :: "path \<Rightarrow> bool" where
  "is_absolute p = (p \<noteq> [] \<and> hd p = ''/'')"

text \<open>\<open>p / q\<close>.\<close>

definition path_join :: "path \<Rightarrow> path \<Rightarrow> path" where
  "path_join p q = (if is_absolute q then q else p @ q)"

definition is_dir :: "fs \<Rightarrow> path \<Rightarrow> bool" where
  "is_dir t p = (p = [] \<or> p = [''/''] \<or> dict_get t p = Some Folder)"

definition is_file :: "fs \<Rightarrow> path \<Rightarrow> bool" where
  "is_file t p = (case dict_get t p of Some (File _) \<Rightarrow> True | _ \<Rightarrow> False)"

text \<open>\<open>mkdir(parents=True, exist_ok=True)\<close>: the missing directories from the top down.\<close>

fun paths_below :: "path \<Rightarrow> string list \<Rightarrow> path list" where
  "paths_below p [] = []"
| "paths_below p (n # ns) = (p @ [n]) # paths_below (p @ [n]) ns"

fun make_dirs :: "path list \<Rightarrow> (fs, unit) st" where
  "make_dirs [] t = (Inr (), t)"
| "make_dirs (p # ps) t =
     (if is_dir t p then make_dirs ps t
      else if dict_get t p = None then make_dirs ps (dict_set p Folder t)
      else (Inl (OSError ''File exists''), t))"

definition mkdir :: "path \<Rightarrow> (fs, unit) st" where
  "mkdir p = make_dirs (paths_below [] p)"

definition write_bytes :: "path \<Rightarrow> string \<Rightarrow> (fs, unit) st" where
  "write_bytes p content t = (if is_dir t p then (Inl (OSError ''Is a directory''), t)
     else (Inr (), dict_set p (File content) t))"

definition mirror_resolve :: "path \<Rightarrow> path option \<Rightarrow> path" where
  "mirror_resolve base p = (case p of
     None \<Rightarrow> path_join base [''root'']
   | Some q \<Rightarrow> if q = [] then path_join base [''root''] else if is_absolute q then q else path_join base q)"

definition mirror_ensure_folder :: "path \<Rightarrow> string \<Rightarrow> path option \<Rightarrow> (fs, path) st" where
  "mirror_ensure_folder base name parent =
     (let folder = path_join (mirror_resolve base parent) (path_of name) in
      st_bind (mkdir folder) (\<lambda>_. st_lift (Inr folder)))"

definition mirror_upload :: "path \<Rightarrow> string \<Rightarrow> string \<Rightarrow> path option \<Rightarrow> string \<Rightarrow> (fs, path) st" where
  "mirror_upload base name content folder mime =
     (let target = path_join (mirror_resolve base folder) (path_of name) in
      st_bind (mkdir (butlast target)) (\<lambda>_. st_bind (write_bytes target content) (\<lambda>_. st_lift (Inr target))))"

definition mirror_find_file :: "path \<Rightarrow> fs \<Rightarrow> string \<Rightarrow> path option \<Rightarrow> string option \<Rightarrow> path option res" where
  "mirror_find_file base t name parent mime =
     (let target = path_join (mirror_resolve base parent) (path_of name) in
      Inr (if is_file t target \<or> (mime = Some folder_mime \<and> is_dir t target) then Some target else None))"

definition mirror_list_files :: "path \<Rightarrow> fs \<Rightarrow> path \<Rightarrow> string option \<Rightarrow> (path \<times> string) list res" where
  "mirror_list_files base t parent prefix =
     (let folder = mirror_resolve base (Some parent) in
      Inr (if \<not> is_dir t folder then []
           else map (\<lambda>p. (p, last p)) (filter (\<lambda>p. p \<noteq> [] \<and> p \<noteq> [''/''] \<and> butlast p = folder
                  \<and> (case prefix of None \<Rightarrow> True | Some s \<Rightarrow> starts_with s (last p))) (map fst t))))"

definition mirror_download :: "fs \<Rightarrow> path \<Rightarrow> string res" where
  "mirror_download t p = (case dict_get t p of Some (File c) \<Rightarrow> Inr c | _ \<Rightarrow> Inl (OSError ''No such file or directory''))"

definition local_mirror :: "path \<Rightarrow> (path, fs) drive_client" where
  "local_mirror base = \<lparr>dc_ensure_folder = mirror_ensure_folder base, dc_upload = mirror_upload base, dc_readable = True,
     dc_find_file = mirror_find_file base, dc_list_files = mirror_list_files base, dc_download = mirror_download\<rparr>"

section \<open>The storage agent\<close>

record ('i, 's) storage_agent =
  sa_client :: "('i, 's) drive_client"
  sa_folder_id :: "'i option"
  sa_source :: string
  sa_digest :: "string \<Rightarrow> string"
  sa_show_dec :: "decimal \<Rightarrow> string"
  sa_show_id :: "'i \<Rightarrow> string"

definition validate_trade_date :: "string \<Rightarrow> string res" where
  "validate_trade_date s =
     (case parse_iso_date s of
        None \<Rightarrow> Inl (ValueError ''partition trade_date must be an ISO-8601 date'')
      | Some d \<Rightarrow> if d < (1900, 1, 1) then Inl (ValueError ''partition trade_date is outside supported range'')
          else Inr (iso_format d))"

fun ensure_path :: "('i, 's) drive_client \<Rightarrow> string list \<Rightarrow> 'i option \<Rightarrow> ('s, 'i option) st" where
  "ensure_path dc [] current = st_lift (Inr current)"
| "ensure_path dc (part # parts) current =
     st_bind (dc_ensure_folder dc part current) (\<lambda>f. ensure_path dc parts (Some f))"

text \<open>The assertion that a folder was found.\<close>

definition the_folder :: "'i option \<Rightarrow> ('s, 'i) st" where
  "the_folder f = st_lift (case f of None \<Rightarrow> Inl (AssertionError []) | Some x \<Rightarrow> Inr x)"

definition dataset_parts :: "string \<Rightarrow> string list" where
  "dataset_parts dataset = filter (\<lambda>p. p \<noteq> []) (split_on CHR ''/'' dataset)"

definition dataset_folder :: "('i, 's) storage_agent \<Rightarrow> string \<Rightarrow> string \<Rightarrow> ('s, 'i) st" where
  "dataset_folder sa dataset as_of =
     st_bind (ensure_path (sa_client sa)
         (dataset_parts dataset @ [''date='' @ map (\<lambda>c. if c = CHR '':'' then CHR ''-'' else c) as_of])
         (sa_folder_id sa)) the_folder"

definition partition_folder :: "('i, 's) storage_agent \<Rightarrow> string \<Rightarrow> string \<Rightarrow> ('s, 'i) st" where
  "partition_folder sa dataset trade_date =
     st_bind (ensure_path (sa_client sa) (dataset_parts dataset @ [''trade_date='' @ trade_date]) (sa_folder_id sa)) the_folder"

fun find_path :: "('i, 's) drive_client \<Rightarrow> 's \<Rightarrow> string list \<Rightarrow> 'i option \<Rightarrow> 'i option res" where
  "find_path dc s [] current = Inr current"
| "find_path dc s (part # parts) current =
     res_bind (dc_find_file dc s part current (Some folder_mime)) (\<lambda>f.
       case f of None \<Rightarrow> Inr None | Some x \<Rightarrow> find_path dc s parts (Some x))"

definition readable_client :: "('i, 's) storage_agent \<Rightarrow> unit res" where
  "readable_client sa = raise_if (\<not> dc_readable (sa_client sa))
     (RuntimeError ''configured Drive client does not support dataset reads'')"

definition find_dataset_folder :: "('i, 's) storage_agent \<Rightarrow> 's \<Rightarrow> string \<Rightarrow> 'i option res" where
  "find_dataset_folder sa s dataset =
     res_bind (readable_client sa) (\<lambda>_. find_path (sa_client sa) s (dataset_parts dataset) (sa_folder_id sa))"

text \<open>\<open>f"{dataset.split('/')[-1]}.jsonl"\<close> and \<open>str(row.get(key, ""))\<close>.\<close>

definition data_file_name :: "string \<Rightarrow> string" where
  "data_file_name dataset = last (split_on CHR ''/'' dataset) @ ''.jsonl''"

definition row_text :: "('i, 's) storage_agent \<Rightarrow> row \<Rightarrow> string \<Rightarrow> string" where
  "row_text sa r key = py_str (sa_show_dec sa) (row_get r key (PStr []))"

text \<open>Reading the rows of one partition file: its lines must be objects of the partition's date.\<close>

fun read_rows :: "('i, 's) storage_agent \<Rightarrow> string \<Rightarrow> string list \<Rightarrow> row list res" where
  "read_rows sa trade_date [] = Inr []"
| "read_rows sa trade_date (line # lines) =
     (if strip line = [] then read_rows sa trade_date lines
      else res_bind (json_loads line) (\<lambda>v.
        case v of
          PDict r \<Rightarrow>
            res_bind (validate_trade_date (row_text sa r ''trade_date'')) (\<lambda>d.
              if d \<noteq> trade_date then Inl (ValueError ''dataset row trade_date does not match partition'')
              else res_bind (read_rows sa trade_date lines) (\<lambda>rs. Inr (r # rs)))
        | _ \<Rightarrow> Inl (AttributeError ''object has no attribute get'')))"

fun read_partitions ::
  "('i, 's) storage_agent \<Rightarrow> 's \<Rightarrow> string \<Rightarrow> string list option \<Rightarrow> ('i \<times> string) list \<Rightarrow> row list res" where
  "read_partitions sa s file_name wanted [] = Inr []"
| "read_partitions sa s file_name wanted ((folder, name) # items) =
     (let trade_date = drop 11 name in
      if \<not> starts_with ''trade_date='' name \<or> (case wanted of None \<Rightarrow> False | Some ds \<Rightarrow> trade_date \<notin> set ds)
      then read_partitions sa s file_name wanted items
      else res_bind (dc_find_file (sa_client sa) s file_name (Some folder) None) (\<lambda>f.
        case f of
          None \<Rightarrow> read_partitions sa s file_name wanted items
        | Some data_file \<Rightarrow>
            res_bind (dc_download (sa_client sa) s data_file) (\<lambda>content.
            res_bind (read_rows sa trade_date (split_lines content)) (\<lambda>rs.
            res_bind (read_partitions sa s file_name wanted items) (\<lambda>rest. Inr (rs @ rest))))))"

fun validate_dates :: "string list \<Rightarrow> string list res" where
  "validate_dates [] = Inr []"
| "validate_dates (d # ds) = res_bind (validate_trade_date d) (\<lambda>x. res_bind (validate_dates ds) (\<lambda>xs. Inr (x # xs)))"

definition read_key :: "('i, 's) storage_agent \<Rightarrow> row \<Rightarrow> string \<times> string \<times> string" where
  "read_key sa r = (upper (row_text sa r ''market''), row_text sa r ''symbol'', row_text sa r ''trade_date'')"

definition read_partitioned_jsonl ::
  "('i, 's) storage_agent \<Rightarrow> 's \<Rightarrow> string \<Rightarrow> string list option \<Rightarrow> row list res" where
  "read_partitioned_jsonl sa s dataset trade_dates =
     res_bind (find_dataset_folder sa s dataset) (\<lambda>f.
       case f of
         None \<Rightarrow> Inr []
       | Some folder \<Rightarrow>
           res_bind (case trade_dates of Some (d # ds) \<Rightarrow> map_sum id Some (validate_dates (d # ds)) | _ \<Rightarrow> Inr None) (\<lambda>wanted.
           res_bind (dc_list_files (sa_client sa) s folder (Some ''trade_date='')) (\<lambda>items.
           res_bind (read_partitions sa s (data_file_name dataset) wanted items) (\<lambda>rows.
           Inr (sort_key (read_key sa) rows)))))"

section \<open>Writing datasets\<close>

definition write_manifest :: "('i, 's) storage_agent \<Rightarrow> dataset_manifest \<Rightarrow> 'i \<Rightarrow> ('s, dataset_manifest) st" where
  "write_manifest sa m folder =
     st_bind (st_lift (json_dumps_pretty (manifest_dict m))) (\<lambda>text.
     st_bind (dc_upload (sa_client sa) ''manifest.json'' text (Some folder) ''application/json'') (\<lambda>_.
     st_lift (Inr m)))"

text \<open>The arguments every writer passes on to the manifest.\<close>

record write_args =
  wa_as_of :: string
  wa_schema_version :: string
  wa_run_id :: "string option"
  wa_success_count :: int
  wa_failure_count :: int
  wa_source :: "string option"

definition source_of :: "('i, 's) storage_agent \<Rightarrow> string option \<Rightarrow> string" where
  "source_of sa s = (case s of None \<Rightarrow> sa_source sa | Some t \<Rightarrow> if t = [] then sa_source sa else t)"

definition write_jsonl :: "('i, 's) storage_agent \<Rightarrow> string \<Rightarrow> row list \<Rightarrow> write_args \<Rightarrow> ('s, dataset_manifest) st" where
  "write_jsonl sa dataset rows wa =
     st_bind (st_lift (json_lines (map PDict rows))) (\<lambda>payload.
     st_bind (dataset_folder sa dataset (wa_as_of wa)) (\<lambda>folder.
     st_bind (dc_upload (sa_client sa) (data_file_name dataset) payload (Some folder) ''application/x-ndjson'') (\<lambda>_.
     write_manifest sa \<lparr>dm_dataset = dataset, dm_as_of = wa_as_of wa, dm_row_count = int (length rows),
       dm_schema_version = wa_schema_version wa, dm_source = source_of sa (wa_source wa),
       dm_checksum = sa_digest sa payload, dm_run_id = wa_run_id wa, dm_success_count = wa_success_count wa,
       dm_failure_count = wa_failure_count wa, dm_partition_count = 0, dm_partition_keys = []\<rparr> folder)))"

fun normalize_partitions ::
  "(string, row list) dict \<Rightarrow> (string, row list) dict \<Rightarrow> (string, row list) dict res" where
  "normalize_partitions acc [] = Inr acc"
| "normalize_partitions acc ((raw_key, rows) # ps) =
     res_bind (validate_trade_date raw_key) (\<lambda>d.
       if dict_get acc d \<noteq> None then Inl (ValueError (''duplicate partition key after normalization: '' @ d))
       else normalize_partitions (dict_set d rows acc) ps)"

definition write_key :: "('i, 's) storage_agent \<Rightarrow> row \<Rightarrow> string \<times> string \<times> string" where
  "write_key sa r = (row_text sa r ''market'', row_text sa r ''symbol'', row_text sa r ''trade_date'')"

fun check_row_dates :: "('i, 's) storage_agent \<Rightarrow> string \<Rightarrow> row list \<Rightarrow> unit res" where
  "check_row_dates sa d [] = Inr ()"
| "check_row_dates sa d (r # rs) =
     res_bind (validate_trade_date (row_text sa r ''trade_date'')) (\<lambda>row_date.
       if row_date \<noteq> d then Inl (ValueError (''row trade_date '' @ row_date @ '' does not match partition '' @ d))
       else check_row_dates sa d rs)"

text \<open>\<open>sorted({f(row) for row in rows if row.get(key)})\<close>.\<close>

definition distinct_texts :: "('i, 's) storage_agent \<Rightarrow> (string \<Rightarrow> string) \<Rightarrow> string \<Rightarrow> row list \<Rightarrow> string list" where
  "distinct_texts sa f key rows =
     sort (remdups (map (\<lambda>r. f (strip (row_text sa r key))) (filter (\<lambda>r. truthy (row_get r key PNone)) rows)))"

definition partition_entry :: "('i, 's) storage_agent \<Rightarrow> string \<Rightarrow> row list \<Rightarrow> string \<Rightarrow> py_value" where
  "partition_entry sa d rows payload =
     PDict [(''trade_date'', PStr d), (''row_count'', PInt (int (length rows))),
       (''checksum_sha256'', PStr (sa_digest sa payload)),
       (''markets'', PList (map PStr (distinct_texts sa upper ''market'' rows))),
       (''currencies'', PList (map PStr (distinct_texts sa upper ''currency'' rows))),
       (''sources'', PList (map PStr (distinct_texts sa id ''source'' rows)))]"

text \<open>One partition: its entry of the index and its number of rows.\<close>

definition write_partition :: "('i, 's) storage_agent \<Rightarrow> string \<Rightarrow> string \<Rightarrow> row list \<Rightarrow> ('s, py_value \<times> int) st" where
  "write_partition sa dataset d unsorted =
     (let rows = sort_key (write_key sa) unsorted in
      st_bind (st_lift (check_row_dates sa d rows)) (\<lambda>_.
      st_bind (st_lift (json_lines (map PDict rows))) (\<lambda>payload.
      st_bind (partition_folder sa dataset d) (\<lambda>folder.
      st_bind (dc_upload (sa_client sa) (data_file_name dataset) payload (Some folder) ''application/x-ndjson'') (\<lambda>_.
      st_lift (Inr (partition_entry sa d rows payload, int (length rows))))))))"

fun write_partitions ::
  "('i, 's) storage_agent \<Rightarrow> string \<Rightarrow> (string \<times> row list) list \<Rightarrow> ('s, (py_value \<times> int) list) st" where
  "write_partitions sa dataset [] = st_lift (Inr [])"
| "write_partitions sa dataset ((d, rows) # ps) =
     st_bind (write_partition sa dataset d rows) (\<lambda>e.
     st_bind (write_partitions sa dataset ps) (\<lambda>es. st_lift (Inr (e # es))))"

definition aggregate_dict :: "('i, 's) storage_agent \<Rightarrow> string \<Rightarrow> write_args \<Rightarrow> py_value list \<Rightarrow> py_value" where
  "aggregate_dict sa dataset wa entries =
     PDict [(''dataset'', PStr dataset), (''as_of'', PStr (wa_as_of wa)),
       (''schema_version'', PStr (wa_schema_version wa)), (''source'', PStr (source_of sa (wa_source wa))),
       (''run_id'', str_opt (wa_run_id wa)), (''partitions'', PList entries)]"

definition write_partitioned_jsonl ::
  "('i, 's) storage_agent \<Rightarrow> string \<Rightarrow> (string, row list) dict \<Rightarrow> write_args \<Rightarrow> ('s, dataset_manifest) st" where
  "write_partitioned_jsonl sa dataset partitions wa =
     st_bind (st_lift (normalize_partitions [] partitions)) (\<lambda>normalized.
     let parts = sort_key fst normalized in
     st_bind (write_partitions sa dataset parts) (\<lambda>es.
     st_bind (st_lift (json_dumps (aggregate_dict sa dataset wa (map fst es)))) (\<lambda>aggregate.
     st_bind (dataset_folder sa dataset (wa_as_of wa)) (\<lambda>folder.
     st_bind (dc_upload (sa_client sa) ''partitions.json'' aggregate (Some folder) ''application/json'') (\<lambda>_.
     write_manifest sa \<lparr>dm_dataset = dataset, dm_as_of = wa_as_of wa, dm_row_count = sum_list (map snd es),
       dm_schema_version = wa_schema_version wa, dm_source = source_of sa (wa_source wa),
       dm_checksum = sa_digest sa aggregate, dm_run_id = wa_run_id wa, dm_success_count = wa_success_count wa,
       dm_failure_count = wa_failure_count wa, dm_partition_count = int (length parts),
       dm_partition_keys = map fst parts\<rparr> folder)))))"

section \<open>Run artifacts\<close>

definition run_stage_folder :: "('i, 's) storage_agent \<Rightarrow> string \<Rightarrow> string \<Rightarrow> string \<Rightarrow> ('s, 'i) st" where
  "run_stage_folder sa run_id stage d =
     st_bind (ensure_path (sa_client sa) [''runs'', run_id, ''execution'', stage, ''trade_date='' @ d] (sa_folder_id sa))
       the_folder"

definition stage_key :: "('i, 's) storage_agent \<Rightarrow> row \<Rightarrow> string \<times> string \<times> string \<times> string \<times> string" where
  "stage_key sa r = (row_text sa r ''event_key'', row_text sa r ''symbol'', row_text sa r ''client_order_id'',
     row_text sa r ''audit_id'', row_text sa r ''episode_id'')"

text \<open>\<open>artifact_id\<close> in the manifest is the identifier the client gave the file.\<close>

definition stage_manifest_dict ::
  "string \<Rightarrow> string \<Rightarrow> string \<Rightarrow> nat \<Rightarrow> string \<Rightarrow> string \<Rightarrow> string \<Rightarrow> string \<Rightarrow> py_value" where
  "stage_manifest_dict run_id stage d n checksum schema_version source file_id =
     PDict [(''run_id'', PStr run_id), (''stage'', PStr stage), (''trade_date'', PStr d), (''row_count'', PInt (int n)),
       (''checksum_sha256'', PStr checksum), (''schema_version'', PStr schema_version), (''source'', PStr source),
       (''artifact_id'', PStr file_id)]"

definition write_run_stage_jsonl ::
  "('i, 's) storage_agent \<Rightarrow> string \<Rightarrow> string \<Rightarrow> string \<Rightarrow> row list \<Rightarrow> string \<Rightarrow> string option \<Rightarrow>
     ('s, dataset_manifest) st" where
  "write_run_stage_jsonl sa run_id stage trade_date rows schema_version source =
     (if strip run_id = [] then st_lift (Inl (ValueError ''run_id is required''))
      else if strip stage = [] then st_lift (Inl (ValueError ''stage is required''))
      else st_bind (st_lift (validate_trade_date trade_date)) (\<lambda>d.
        let normalized = sort_key (stage_key sa) rows in
        st_bind (st_lift (json_lines (map PDict normalized))) (\<lambda>payload.
        st_bind (run_stage_folder sa run_id stage d) (\<lambda>folder.
        st_bind (dc_upload (sa_client sa) (stage @ ''.jsonl'') payload (Some folder) ''application/x-ndjson'') (\<lambda>file_id.
        st_bind (st_lift (json_dumps_pretty (stage_manifest_dict run_id stage d (length normalized) (sa_digest sa payload)
            schema_version (source_of sa source) (sa_show_id sa file_id)))) (\<lambda>text.
        st_bind (dc_upload (sa_client sa) ''manifest.json'' text (Some folder) ''application/json'') (\<lambda>_.
        st_lift (Inr \<lparr>dm_dataset = ''runs/'' @ run_id @ ''/execution/'' @ stage, dm_as_of = d,
          dm_row_count = int (length normalized), dm_schema_version = schema_version, dm_source = source_of sa source,
          dm_checksum = sa_digest sa payload, dm_run_id = Some run_id, dm_success_count = 0, dm_failure_count = 0,
          dm_partition_count = 1, dm_partition_keys = [d]\<rparr>))))))))"

definition write_snapshot :: "('i, 's) storage_agent \<Rightarrow> string \<Rightarrow> row list \<Rightarrow> write_args \<Rightarrow> ('s, dataset_manifest) st" where
  "write_snapshot sa dataset rows wa = write_jsonl sa dataset rows wa"

definition write_run_manifest ::
  "('i, 's) storage_agent \<Rightarrow> string \<Rightarrow> row \<Rightarrow> string \<Rightarrow> ('s, 'i) st" where
  "write_run_manifest sa run_id manifest folder_name =
     st_bind (dc_ensure_folder (sa_client sa) folder_name (sa_folder_id sa)) (\<lambda>folder.
     st_bind (st_lift (json_dumps_pretty (PDict manifest))) (\<lambda>text.
     dc_upload (sa_client sa) (run_id @ ''.json'') text (Some folder) ''application/json''))"

text \<open>The comparison of two texts; other values are not compared by the code's callers.\<close>

fun validate_row_timestamps :: "row list \<Rightarrow> unit res" where
  "validate_row_timestamps [] = Inr ()"
| "validate_row_timestamps (r # rs) =
     (case (dict_get r ''available_at'', dict_get r ''effective_date'') of
        (Some a, Some e) \<Rightarrow>
          (case (a, e) of
             (PStr x, PStr y) \<Rightarrow>
               if x < y then Inl (ValueError ''available_at cannot precede effective_date'') else validate_row_timestamps rs
           | (PInt x, PInt y) \<Rightarrow>
               if x < y then Inl (ValueError ''available_at cannot precede effective_date'') else validate_row_timestamps rs
           | _ \<Rightarrow> Inl (TypeError ''not supported between instances''))
      | _ \<Rightarrow> Inl (ValueError ''dataset rows must include effective_date and available_at''))"

section \<open>What the agent relies on\<close>

text \<open>
  The contract of a Drive client: a folder or a file has its place under its parent, a file holds
  what was uploaded to it last, and nothing else changes. \<open>good\<close> are the parents the client is meant for.
\<close>

definition single_name :: "string \<Rightarrow> bool" where
  "single_name n = (n \<noteq> [] \<and> CHR ''/'' \<notin> set n \<and> n \<noteq> ''.'')"

locale drive_store =
  fixes dc :: "('i, 's) drive_client"
    and inv :: "'s \<Rightarrow> bool"
    and child :: "'i option \<Rightarrow> string \<Rightarrow> 'i"
    and folder_at :: "'s \<Rightarrow> 'i \<Rightarrow> bool"
    and content :: "'s \<Rightarrow> 'i \<Rightarrow> string option"
    and good :: "'i option \<Rightarrow> bool"
  assumes ensure_folder: "inv s \<Longrightarrow> good p \<Longrightarrow> single_name n \<Longrightarrow> dc_ensure_folder dc n p s = (r, s') \<Longrightarrow>
      inv s' \<and> content s' = content s \<and> (\<forall>f. folder_at s f \<longrightarrow> folder_at s' f)
      \<and> (\<forall>f. r = Inr f \<longrightarrow> f = child p n \<and> folder_at s' f)"
    and upload: "inv s \<Longrightarrow> good p \<Longrightarrow> single_name n \<Longrightarrow> dc_upload dc n c p m s = (r, s') \<Longrightarrow>
      inv s' \<and> (\<forall>f. folder_at s f \<longrightarrow> folder_at s' f)
      \<and> (\<forall>f. r = Inr f \<longrightarrow> f = child p n \<and> content s' = (content s)(f \<mapsto> c))"
    and find_file: "inv s \<Longrightarrow> good p \<Longrightarrow> single_name n \<Longrightarrow> dc_find_file dc s n p mt =
      Inr (if content s (child p n) \<noteq> None \<or> mt = Some folder_mime \<and> folder_at s (child p n) then Some (child p n) else None)"
    and list_files: "inv s \<Longrightarrow> good (Some f) \<Longrightarrow> \<exists>xs. dc_list_files dc s f (Some pre) = Inr xs \<and> distinct xs
      \<and> set xs = {(child (Some f) n, n) | n.
          (folder_at s (child (Some f) n) \<or> content s (child (Some f) n) \<noteq> None) \<and> starts_with pre n}"
    and download: "content s f = Some c \<Longrightarrow> dc_download dc s f = Inr c"
    and ensure_known: "inv s \<Longrightarrow> good p \<Longrightarrow> single_name n \<Longrightarrow> folder_at s (child p n) \<Longrightarrow>
      dc_ensure_folder dc n p s = (Inr (child p n), s)"
    and upload_known: "inv s \<Longrightarrow> good p \<Longrightarrow> single_name n \<Longrightarrow> content s (child p n) = Some c \<Longrightarrow>
      dc_upload dc n c p m s = (Inr (child p n), s)"
    and readable: "dc_readable dc"
    and good_child: "good p \<Longrightarrow> good (Some (child p n))"
    and child_inject: "good (Some f) \<Longrightarrow> good (Some g) \<Longrightarrow> child (Some f) n = child (Some g) m \<Longrightarrow> f = g \<and> n = m"
begin

text \<open>The place a path leads to, and that its folders are there.\<close>

primrec place :: "'i option \<Rightarrow> string list \<Rightarrow> 'i option" where
  "place p [] = p"
| "place p (n # ns) = place (Some (child p n)) ns"

primrec present :: "'s \<Rightarrow> 'i option \<Rightarrow> string list \<Rightarrow> bool" where
  "present s p [] = True"
| "present s p (n # ns) = (folder_at s (child p n) \<and> present s (Some (child p n)) ns)"

lemma place_append: "place p (ns @ ms) = place (place p ns) ms"
  by (induction ns arbitrary: p) auto

lemma present_append: "present s p (ns @ ms) \<longleftrightarrow> present s p ns \<and> present s (place p ns) ms"
  by (induction ns arbitrary: p) auto

lemma good_place: "good p \<Longrightarrow> good (place p ns)"
  by (induction ns arbitrary: p) (auto intro: good_child)

lemma present_mono: "present s p ns \<Longrightarrow> (\<And>f. folder_at s f \<Longrightarrow> folder_at s' f) \<Longrightarrow> present s' p ns"
  by (induction ns arbitrary: p) auto

lemma place_Some: "ns \<noteq> [] \<Longrightarrow> \<exists>f. place p ns = Some f"
  by (induction ns arbitrary: p) (auto, metis place.simps(1))

lemma ensure_path_effect:
  "inv s \<Longrightarrow> good p \<Longrightarrow> list_all single_name ns \<Longrightarrow> ensure_path dc ns p s = (r, s') \<Longrightarrow>
    inv s' \<and> content s' = content s \<and> (\<forall>f. folder_at s f \<longrightarrow> folder_at s' f)
    \<and> (\<forall>q. r = Inr q \<longrightarrow> q = place p ns \<and> present s' p ns)"
proof (induction ns arbitrary: p s r)
  case (Cons n ns)
  from Cons.prems(4) show ?case unfolding ensure_path.simps
  proof (cases rule: st_bind_cases)
    case (first e)
    then show ?thesis using ensure_folder Cons.prems by fastforce
  next
    case (second f s1)
    have e: "inv s1" "content s1 = content s" "\<And>f. folder_at s f \<Longrightarrow> folder_at s1 f" "f = child p n" "folder_at s1 f"
      using ensure_folder [OF Cons.prems(1,2) _ second(1)] Cons.prems(3) by auto
    have "inv s' \<and> content s' = content s1 \<and> (\<forall>f. folder_at s1 f \<longrightarrow> folder_at s' f)
      \<and> (\<forall>q. r = Inr q \<longrightarrow> q = place (Some f) ns \<and> present s' (Some f) ns)"
      using Cons.prems by (intro Cons.IH [OF e(1) _ _ second(2)]) (auto simp: e(4) intro: good_child)
    then show ?thesis using e by auto
  qed
qed auto

lemma find_path_present:
  "inv s \<Longrightarrow> good p \<Longrightarrow> list_all single_name ns \<Longrightarrow> present s p ns \<Longrightarrow> find_path dc s ns p = Inr (place p ns)"
  by (induction ns arbitrary: p) (auto simp: find_file good_child)

end

section \<open>Rows come back from their lines\<close>

definition canon_row :: "row \<Rightarrow> row" where
  "canon_row r = sort_key fst (map (map_prod id canon) r)"

text \<open>A row that JSON and the lines of a file can carry.\<close>

definition storable :: "row \<Rightarrow> bool" where
  "storable r = (keys_ok (PDict r) \<and> one_line (PDict r))"

lemma canon_PDict: "canon (PDict r) = PDict (canon_row r)"
  by (simp add: canon_row_def)

lemma py_str_canon: "py_str f (canon v) = py_str f v"
  by (cases v) simp_all

lemma dict_get_sorted: "dict_wf d \<Longrightarrow> dict_get (sort_key fst d) k = dict_get d k"
  using map_of_inject_set [of "sort_key fst d" d] dict_wf_sort [of d] by simp

lemma dict_get_map: "dict_get (map (map_prod id f) d) k = map_option f (dict_get d k)"
  by (induction d) auto

lemma dict_get_canon: "keys_ok (PDict r) \<Longrightarrow> dict_get (canon_row r) k = map_option canon (dict_get r k)"
  by (simp add: canon_row_def dict_get_sorted comp_def dict_get_map)

lemma row_text_canon: "keys_ok (PDict r) \<Longrightarrow> row_text sa (canon_row r) key = row_text sa r key"
  by (simp add: row_text_def row_get_def dict_get_or_def dict_get_canon py_str_canon del: keys_ok.simps split: option.splits)

lemma read_rows_written:
  assumes "check_row_dates sa d rows = Inr ()" and "json_lines (map PDict rows) = Inr payload" and "list_all storable rows"
  shows "read_rows sa d (split_lines payload) = Inr (map canon_row rows)"
proof -
  have ok: "list_all keys_ok (map PDict rows)" "list_all one_line (map PDict rows)"
    using assms(3) by (auto simp: storable_def list_all_iff)
  have read: "read_rows sa d ls = Inr (map canon_row rows)"
    if "map json_loads ls = map (\<lambda>r. Inr (PDict (canon_row r))) rows" "list_all (\<lambda>l. strip l \<noteq> []) ls"
      "check_row_dates sa d rows = Inr ()" "list_all storable rows" for ls rows
    using that
  proof (induction ls arbitrary: rows)
    case (Cons l ls)
    then obtain r rs where r: "rows = r # rs" by (cases rows) auto
    have "keys_ok (PDict r)" using Cons.prems(4) by (simp add: r storable_def)
    then show ?case using Cons by (auto simp: r row_text_canon res_bind_eq_Inr split: if_splits)
  qed simp
  show ?thesis
    using json_lines_read [OF assms(2) ok] assms(1,3) by (intro read) (simp_all add: comp_def canon_PDict del: canon.simps)
qed

lemma mset_concat_map: "mset (concat (map f xs)) = (\<Sum>x\<leftarrow>xs. mset (f x))"
  by (induction xs) auto

section \<open>Partitions come back from the store\<close>

lemma trade_date_prefix [simp]:
  "starts_with ''trade_date='' (CHR ''t'' # CHR ''r'' # CHR ''a'' # CHR ''d'' # CHR ''e'' # CHR ''_'' # CHR ''d'' # CHR ''a'' # CHR ''t'' # CHR ''e'' # CHR ''='' # d)"
  by (simp add: starts_with_def)

lemma split_on_parts: "p \<in> set (split_on c s) \<Longrightarrow> c \<notin> set p"
  by (induction s arbitrary: p) (auto split: if_splits list.splits)

lemma single_data_file [simp]: "single_name (data_file_name dataset)"
  using split_on_parts [OF last_in_set [OF split_on_nonempty], of "CHR ''/''" dataset]
  by (auto simp: single_name_def data_file_name_def)

lemma single_parts: "''.'' \<notin> set (dataset_parts dataset) \<Longrightarrow> list_all single_name (dataset_parts dataset)"
  by (auto simp: dataset_parts_def single_name_def list_all_iff dest: split_on_parts)

lemma slashless_digits: "CHR ''/'' \<notin> set (iso_format d)"
proof -
  have "digit_char (n mod 10) \<noteq> CHR ''/''" for n
  proof -
    have "(of_char (digit_char (n mod 10)) :: int) \<noteq> of_char CHR ''/''" by (simp add: of_char_digit)
    then show ?thesis by metis
  qed
  then show ?thesis by (cases d) (auto simp: iso_format.simps pad2_def pad4_def dest: sym)
qed

definition iso_text :: "string \<Rightarrow> bool" where
  "iso_text s = (\<exists>d. valid_date d \<and> \<not> d < (1900, 1, 1) \<and> s = iso_format d)"

lemma validate_trade_date_eq_Inr [res_simps]:
  "validate_trade_date s = Inr t \<longleftrightarrow> (\<exists>d. parse_iso_date s = Some d \<and> \<not> d < (1900, 1, 1) \<and> t = iso_format d)"
proof (cases "parse_iso_date s")
  case (Some d)
  have "validate_trade_date s = (if d < (1900, 1, 1)
      then Inl (ValueError ''partition trade_date is outside supported range'') else Inr (iso_format d))"
    by (simp only: validate_trade_date_def Some option.case)
  then show ?thesis using Some by (cases "d < (1900, 1, 1)") (simp_all only: if_True if_False Inr_inject option.inject, blast+)
qed (simp add: validate_trade_date_def)

lemma validated_date: "validate_trade_date s = Inr d \<Longrightarrow> iso_text d"
  unfolding validate_trade_date_eq_Inr iso_text_def using parse_iso_date_valid by blast

lemma validate_iso_text: "iso_text d \<Longrightarrow> validate_trade_date d = Inr d"
  unfolding validate_trade_date_eq_Inr iso_text_def using parse_iso_format by blast

lemma single_partition [simp]: "iso_text d \<Longrightarrow> single_name (''trade_date='' @ d)"
  using slashless_digits unfolding single_name_def iso_text_def by fastforce

text \<open>What a partition's file holds when its rows are written.\<close>

definition partition_payload :: "('i, 's) storage_agent \<Rightarrow> string \<Rightarrow> row list \<Rightarrow> string \<Rightarrow> bool" where
  "partition_payload sa d rows payload = (check_row_dates sa d (sort_key (write_key sa) rows) = Inr ()
     \<and> json_lines (map PDict (sort_key (write_key sa) rows)) = Inr payload)"

context drive_store
begin

definition usable :: "('i, 's) storage_agent \<Rightarrow> string \<Rightarrow> bool" where
  "usable sa dataset = (sa_client sa = dc \<and> good (sa_folder_id sa) \<and> dataset_parts dataset \<noteq> []
     \<and> ''.'' \<notin> set (dataset_parts dataset))"

definition data_place :: "('i, 's) storage_agent \<Rightarrow> string \<Rightarrow> 'i" where
  "data_place sa dataset = the (place (sa_folder_id sa) (dataset_parts dataset))"

definition part_file :: "('i, 's) storage_agent \<Rightarrow> string \<Rightarrow> string \<Rightarrow> 'i" where
  "part_file sa dataset d = child (Some (child (Some (data_place sa dataset)) (''trade_date='' @ d))) (data_file_name dataset)"

lemma usableD:
  assumes "usable sa dataset"
  shows "sa_client sa = dc" "good (sa_folder_id sa)" "list_all single_name (dataset_parts dataset)"
    "place (sa_folder_id sa) (dataset_parts dataset) = Some (data_place sa dataset)" "good (Some (data_place sa dataset))"
proof -
  show "sa_client sa = dc" "good (sa_folder_id sa)" "list_all single_name (dataset_parts dataset)"
    using assms by (auto simp: usable_def single_parts)
  obtain f where f: "place (sa_folder_id sa) (dataset_parts dataset) = Some f"
    using assms place_Some by (auto simp: usable_def)
  then show "place (sa_folder_id sa) (dataset_parts dataset) = Some (data_place sa dataset)" by (simp add: data_place_def)
  then show "good (Some (data_place sa dataset))" using good_place [of "sa_folder_id sa" "dataset_parts dataset"] assms
    by (simp add: usable_def)
qed

lemma part_file_inject: "usable sa dataset \<Longrightarrow> part_file sa dataset d = part_file sa dataset d' \<Longrightarrow> d = d'"
  unfolding part_file_def by (drule usableD(5)) (metis child_inject good_child same_append_eq)

text \<open>A folder below the dataset, as \<open>_dataset_folder\<close> and \<open>_partition_folder\<close> make it.\<close>

lemma folder_effect:
  assumes "inv s" "usable sa dataset" "single_name n"
    and "st_bind (ensure_path (sa_client sa) (dataset_parts dataset @ [n]) (sa_folder_id sa)) the_folder s = (Inr f, s')"
  shows "inv s'" "content s' = content s" "folder_at s g \<Longrightarrow> folder_at s' g" "f = child (Some (data_place sa dataset)) n"
    "present s' (sa_folder_id sa) (dataset_parts dataset @ [n])"
proof -
  note u = usableD [OF assms(2)]
  obtain q s1 where q: "ensure_path dc (dataset_parts dataset @ [n]) (sa_folder_id sa) s = (Inr q, s1)" "the_folder q s1 = (Inr f, s')"
    using assms(4) by (auto simp: st_bind_Inr u(1))
  have p: "place (sa_folder_id sa) (dataset_parts dataset @ [n]) = Some (child (Some (data_place sa dataset)) n)"
    by (simp add: place_append u(4))
  note e = ensure_path_effect [OF assms(1) u(2) _ q(1)]
  have s: "s1 = s'" "q = Some f" using q(2) by (auto simp: the_folder_def split: option.splits)
  show "inv s'" "content s' = content s" "folder_at s g \<Longrightarrow> folder_at s' g" "f = child (Some (data_place sa dataset)) n"
    "present s' (sa_folder_id sa) (dataset_parts dataset @ [n])"
    using e u(3) assms(3) p s by auto
qed

lemma upload_effect:
  assumes "inv s" "usable sa dataset" "single_name n" "good (Some g)"
    and "dc_upload (sa_client sa) n c (Some g) m s = (Inr f, s')"
  shows "inv s'" "content s' = (content s)(child (Some g) n \<mapsto> c)" "folder_at s h \<Longrightarrow> folder_at s' h"
  using upload [OF assms(1,4,3), of c m "Inr f" s'] assms(5) usableD(1) [OF assms(2)] by auto

lemma write_partition_effect:
  assumes "inv s" "usable sa dataset" "iso_text d" "write_partition sa dataset d rows s = (Inr e, s')"
  shows "inv s'" "folder_at s f \<Longrightarrow> folder_at s' f"
    "\<exists>payload. partition_payload sa d rows payload \<and> content s' = (content s)(part_file sa dataset d \<mapsto> payload)"
    "present s' (sa_folder_id sa) (dataset_parts dataset @ [''trade_date='' @ d])"
proof -
  obtain payload g s1 f1 where w: "check_row_dates sa d (sort_key (write_key sa) rows) = Inr ()"
    "json_lines (map PDict (sort_key (write_key sa) rows)) = Inr payload"
    "partition_folder sa dataset d s = (Inr g, s1)"
    "dc_upload (sa_client sa) (data_file_name dataset) payload (Some g) ''application/x-ndjson'' s1 = (Inr f1, s')"
    using assms(4) by (auto simp: write_partition_def st_bind_Inr Let_def)
  note fo = folder_effect [OF assms(1,2) single_partition [OF assms(3)] w(3) [unfolded partition_folder_def]]
  have g: "good (Some g)" unfolding fo(4) by (intro good_child usableD(5) assms(2))
  note up = upload_effect [OF fo(1) assms(2) single_data_file g w(4)]
  show "inv s'" by (rule up(1))
  show "folder_at s f \<Longrightarrow> folder_at s' f" using fo(3) up(3) by blast
  show "\<exists>payload. partition_payload sa d rows payload \<and> content s' = (content s)(part_file sa dataset d \<mapsto> payload)"
    using w(1,2) up(2) by (auto simp: partition_payload_def fo(2,4) part_file_def)
  show "present s' (sa_folder_id sa) (dataset_parts dataset @ [''trade_date='' @ d])"
    using fo(5) up(3) by (rule present_mono)
qed

lemma write_partitions_effect:
  "inv s \<Longrightarrow> usable sa dataset \<Longrightarrow> list_all (\<lambda>(d, _). iso_text d) ps \<Longrightarrow> dict_wf ps \<Longrightarrow>
    write_partitions sa dataset ps s = (Inr es, s') \<Longrightarrow>
    inv s' \<and> (\<forall>f. folder_at s f \<longrightarrow> folder_at s' f)
    \<and> (\<forall>(d, rows) \<in> set ps. (\<exists>payload. partition_payload sa d rows payload \<and> content s' (part_file sa dataset d) = Some payload)
        \<and> present s' (sa_folder_id sa) (dataset_parts dataset @ [''trade_date='' @ d]))
    \<and> (\<forall>f. f \<notin> part_file sa dataset ` fst ` set ps \<longrightarrow> content s' f = content s f)"
proof (induction ps arbitrary: s es)
  case (Cons dr ps)
  obtain d rows where dr: "dr = (d, rows)" by fastforce
  obtain e s1 es1 where w: "write_partition sa dataset d rows s = (Inr e, s1)" "write_partitions sa dataset ps s1 = (Inr es1, s')"
    using Cons.prems(5) by (auto simp: dr st_bind_Inr)
  have iso: "iso_text d" using Cons.prems(3) by (simp add: dr)
  note p = write_partition_effect [OF Cons.prems(1,2) iso w(1)]
  have ih: "inv s' \<and> (\<forall>f. folder_at s1 f \<longrightarrow> folder_at s' f)
    \<and> (\<forall>(d, rows) \<in> set ps. (\<exists>payload. partition_payload sa d rows payload \<and> content s' (part_file sa dataset d) = Some payload)
        \<and> present s' (sa_folder_id sa) (dataset_parts dataset @ [''trade_date='' @ d]))
    \<and> (\<forall>f. f \<notin> part_file sa dataset ` fst ` set ps \<longrightarrow> content s' f = content s1 f)"
    using Cons.prems w(2) p(1) by (intro Cons.IH) simp_all
  have new: "part_file sa dataset d \<notin> part_file sa dataset ` fst ` set ps"
    using Cons.prems(4) part_file_inject [OF Cons.prems(2)] by (auto simp: dr)
  obtain payload where c: "partition_payload sa d rows payload" "content s1 = (content s)(part_file sa dataset d \<mapsto> payload)"
    using p(3) by blast
  have "content s' (part_file sa dataset d) = Some payload" using ih new c(2) by simp
  moreover have "present s' (sa_folder_id sa) (dataset_parts dataset @ [''trade_date='' @ d])"
    using p(4) ih by (intro present_mono [OF p(4)]) blast
  moreover have "folder_at s' f" if "folder_at s f" for f using p(2) [OF that] ih by blast
  ultimately show ?case using ih c by (auto simp: dr)
qed auto

lemma normalize_partitions_eq:
  "normalize_partitions acc ps = Inr out \<Longrightarrow> dict_wf acc \<Longrightarrow> \<exists>ds. validate_dates (map fst ps) = Inr ds
    \<and> out = acc @ zip ds (map snd ps) \<and> length ds = length ps \<and> dict_wf out \<and> list_all iso_text ds"
proof (induction ps arbitrary: acc)
  case (Cons kr ps)
  obtain k rows where kr: "kr = (k, rows)" by fastforce
  obtain d where d: "validate_trade_date k = Inr d" "dict_get acc d = None" "normalize_partitions (dict_set d rows acc) ps = Inr out"
    using Cons.prems(1) by (auto simp: kr res_bind_eq_Inr split: if_splits)
  have e: "dict_set d rows acc = acc @ [(d, rows)]"
    using foldl_dict_set [of acc "[(d, rows)]"] Cons.prems(2) d(2) by (simp add: map_of_eq_None_iff)
  have "dict_wf (dict_set d rows acc)" using Cons.prems(2) by simp
  from Cons.IH [OF d(3) this] obtain ds where "validate_dates (map fst ps) = Inr ds" "out = (acc @ [(d, rows)]) @ zip ds (map snd ps)"
    "length ds = length ps" "dict_wf out" "list_all iso_text ds" unfolding e by blast
  then show ?case using d(1) validated_date [OF d(1)] by (intro exI [of _ "d # ds"]) (simp add: kr)
qed simp

text \<open>The rows one listed folder contributes.\<close>

lemma read_partitions_written:
  assumes "inv s" "usable sa dataset"
    and "list_all (\<lambda>(f, n). starts_with ''trade_date='' n \<and> f = child (Some (data_place sa dataset)) n) items"
    and "\<And>d. d \<in> set wanted \<Longrightarrow> content s (part_file sa dataset d) = Some (files d) \<and> read_rows sa d (split_lines (files d)) = Inr (rows d)"
  shows "read_partitions sa s (data_file_name dataset) (Some wanted) items
    = Inr (concat (map (\<lambda>(f, n). rows (drop 11 n)) (filter (\<lambda>(f, n). drop 11 n \<in> set wanted) items)))"
  using assms(3)
proof (induction items)
  case (Cons fn items)
  obtain f n where fn: "fn = (f, n)" by fastforce
  note u = usableD [OF assms(2)]
  obtain d where n: "n = ''trade_date='' @ d" "f = child (Some (data_place sa dataset)) n"
    using Cons.prems by (auto simp: fn starts_with_iff)
  have d: "drop 11 n = d" by (simp add: n(1))
  show ?case
  proof (cases "d \<in> set wanted")
    case True
    note w = assms(4) [OF True]
    have at: "child (Some f) (data_file_name dataset) = part_file sa dataset d" by (simp add: part_file_def n)
    have "good (Some f)" unfolding n(2) by (intro good_child u(5))
    then have "dc_find_file dc s (data_file_name dataset) (Some f) None = Inr (Some (part_file sa dataset d))"
      using w by (simp add: find_file [OF assms(1)] at)
    moreover have "dc_download dc s (part_file sa dataset d) = Inr (files d)" using w by (intro download) simp
    ultimately show ?thesis using Cons w True by (simp add: fn u(1) d n(1))
  next
    case False
    then show ?thesis using Cons by (simp add: fn d)
  qed
qed simp

lemma sum_list_distinct: "distinct xs \<Longrightarrow> distinct ys \<Longrightarrow> set xs = set ys \<Longrightarrow>
    (\<Sum>x\<leftarrow>xs. f x) = (\<Sum>x\<leftarrow>ys. (f x :: 'b :: comm_monoid_add))"
  by (metis sum_list_distinct_conv_sum_set)

lemma read_partitions_failing:
  assumes "inv s" "usable sa dataset"
    and "list_all (\<lambda>(f, n). starts_with ''trade_date='' n \<and> f = child (Some (data_place sa dataset)) n) items"
    and "content s (part_file sa dataset d) = Some payload" "read_rows sa d (split_lines payload) = Inl e"
    and "''trade_date='' @ d \<in> snd ` set items"
  shows "read_partitions sa s (data_file_name dataset) (Some [d]) items = Inl e"
  using assms(3,6)
proof (induction items)
  case (Cons fn items)
  obtain f n where fn: "fn = (f, n)" by fastforce
  note u = usableD [OF assms(2)]
  obtain d' where n: "n = ''trade_date='' @ d'" "f = child (Some (data_place sa dataset)) n"
    using Cons.prems by (auto simp: fn starts_with_iff)
  show ?case
  proof (cases "d' = d")
    case True
    have at: "child (Some f) (data_file_name dataset) = part_file sa dataset d" by (simp add: part_file_def n True)
    have "good (Some f)" unfolding n(2) by (intro good_child u(5))
    then have "dc_find_file dc s (data_file_name dataset) (Some f) None = Inr (Some (part_file sa dataset d))"
      using assms(4) by (simp add: find_file [OF assms(1)] at)
    then show ?thesis using download [OF assms(4)] assms(5) by (simp add: fn u(1) n(1) True)
  next
    case False
    then show ?thesis using Cons by (simp add: fn n(1))
  qed
qed simp

text \<open>What a store holds after a write of partitions.\<close>

definition partition_stored :: "('i, 's) storage_agent \<Rightarrow> string \<Rightarrow> 's \<Rightarrow> string \<Rightarrow> row list \<Rightarrow> bool" where
  "partition_stored sa dataset s d rows = (folder_at s (child (Some (data_place sa dataset)) (''trade_date='' @ d))
     \<and> (\<exists>payload. partition_payload sa d rows payload \<and> content s (part_file sa dataset d) = Some payload))"

lemma index_written:
  assumes "inv s1" "usable sa dataset" "CHR ''/'' \<notin> set (wa_as_of wa)"
    and "dataset_folder sa dataset (wa_as_of wa) s1 = (Inr folder, s2)"
    and "dc_upload (sa_client sa) ''partitions.json'' agg (Some folder) ''application/json'' s2 = (Inr f1, s3)"
    and "dc_upload (sa_client sa) ''manifest.json'' mtext (Some folder) ''application/json'' s3 = (Inr f2, s')"
  shows "inv s'" "content s' (part_file sa dataset d) = content s1 (part_file sa dataset d)" "folder_at s1 f \<Longrightarrow> folder_at s' f"
proof -
  note u = usableD [OF assms(2)]
  have "single_name (''date='' @ map (\<lambda>c. if c = CHR '':'' then CHR ''-'' else c) (wa_as_of wa))"
    using assms(3) by (auto simp: single_name_def split: if_splits)
  note e2 = folder_effect [OF assms(1,2) this assms(4) [unfolded dataset_folder_def]]
  have g: "good (Some folder)" unfolding e2(4) by (intro good_child u(5))
  have names: "single_name ''partitions.json''" "single_name ''manifest.json''" by (simp_all add: single_name_def)
  note e3 = upload_effect [OF e2(1) assms(2) names(1) g assms(5)]
  note e4 = upload_effect [OF e3(1) assms(2) names(2) g assms(6)]
  have apart: "part_file sa dataset d \<noteq> child (Some folder) n" for n
  proof
    assume "part_file sa dataset d = child (Some folder) n"
    then have "child (Some (data_place sa dataset)) (''trade_date='' @ d) = folder"
      unfolding part_file_def using child_inject g good_child u(5) by blast
    then show False unfolding e2(4) using child_inject [OF u(5) u(5)] by fastforce
  qed
  show "inv s'" by (rule e4(1))
  show "content s' (part_file sa dataset d) = content s1 (part_file sa dataset d)"
    using apart by (simp add: e4(2) e3(2) e2(2))
  show "folder_at s1 f \<Longrightarrow> folder_at s' f" using e2(3) e3(3) e4(3) by blast
qed

lemma partitions_stored:
  assumes "inv s" "usable sa dataset" "CHR ''/'' \<notin> set (wa_as_of wa)"
    and "write_partitioned_jsonl sa dataset partitions wa s = (Inr m, s')" and "partitions \<noteq> []"
  shows "\<exists>ds. validate_dates (map fst partitions) = Inr ds \<and> length ds = length partitions \<and> distinct ds
      \<and> (\<forall>(d, rows) \<in> set (zip ds (map snd partitions)). partition_stored sa dataset s' d rows)"
    and "inv s'" and "find_dataset_folder sa s' dataset = Inr (Some (data_place sa dataset))"
proof -
  note u = usableD [OF assms(2)]
  let ?p = "sa_folder_id sa" and ?parts = "dataset_parts dataset"
  obtain norm where norm: "normalize_partitions [] partitions = Inr norm"
    using assms(4) by (auto simp: write_partitioned_jsonl_def st_bind_Inr)
  obtain ds where ds: "validate_dates (map fst partitions) = Inr ds" "norm = zip ds (map snd partitions)"
    "length ds = length partitions" "dict_wf norm" "list_all iso_text ds"
    using normalize_partitions_eq [OF norm] by auto
  define srt where "srt = sort_key fst norm"
  obtain es s1 agg folder s2 f1 s3 mtext f2 where w: "write_partitions sa dataset srt s = (Inr es, s1)"
    "dataset_folder sa dataset (wa_as_of wa) s1 = (Inr folder, s2)"
    "dc_upload (sa_client sa) ''partitions.json'' agg (Some folder) ''application/json'' s2 = (Inr f1, s3)"
    "dc_upload (sa_client sa) ''manifest.json'' mtext (Some folder) ''application/json'' s3 = (Inr f2, s')"
    using assms(4) norm by (fastforce simp: write_partitioned_jsonl_def write_manifest_def st_bind_Inr srt_def Let_def)
  have srt: "set srt = set norm" "dict_wf srt" using ds(4) dict_wf_sort by (auto simp: srt_def)
  have iso: "list_all (\<lambda>(d, _). iso_text d) srt" using ds(5) unfolding list_all_iff srt ds(2) by (auto dest: set_zip_leftD)
  have e1: "inv s1" "\<And>d rows. (d, rows) \<in> set norm \<Longrightarrow>
      (\<exists>payload. partition_payload sa d rows payload \<and> content s1 (part_file sa dataset d) = Some payload)
      \<and> present s1 ?p (?parts @ [''trade_date='' @ d])"
    using write_partitions_effect [OF assms(1,2) iso srt(2) w(1)] unfolding srt(1) by auto
  note ix = index_written [OF e1(1) assms(2,3) w(2-4)]
  have there: "present s' ?p (?parts @ [''trade_date='' @ d]) \<and> partition_stored sa dataset s' d rows"
    if "(d, rows) \<in> set norm" for d rows
  proof -
    have "present s' ?p (?parts @ [''trade_date='' @ d])" using e1(2) [OF that] ix(3) by (blast intro: present_mono)
    then show ?thesis using e1(2) [OF that] by (auto simp: partition_stored_def ix(2) present_append u(4))
  qed
  then show "\<exists>ds. validate_dates (map fst partitions) = Inr ds \<and> length ds = length partitions \<and> distinct ds
      \<and> (\<forall>(d, rows) \<in> set (zip ds (map snd partitions)). partition_stored sa dataset s' d rows)"
    using ds by (intro exI [of _ ds]) auto
  show "inv s'" by (rule ix(1))
  obtain d rows where "(d, rows) \<in> set norm" using assms(5) ds(2,3) by (cases norm; cases ds; cases partitions) auto
  then have "present s' ?p ?parts" using there by (auto simp: present_append)
  then show "find_dataset_folder sa s' dataset = Inr (Some (data_place sa dataset))"
    by (simp add: find_dataset_folder_def readable_client_def u(1) readable find_path_present [OF ix(1) u(2,3)] u(4))
qed

lemma dataset_listing:
  assumes "inv s" "usable sa dataset"
  shows "\<exists>xs. dc_list_files dc s (data_place sa dataset) (Some ''trade_date='') = Inr xs \<and> distinct xs
    \<and> list_all (\<lambda>(f, n). starts_with ''trade_date='' n \<and> f = child (Some (data_place sa dataset)) n) xs
    \<and> (\<forall>d. folder_at s (child (Some (data_place sa dataset)) (''trade_date='' @ d)) \<longrightarrow>
          (child (Some (data_place sa dataset)) (''trade_date='' @ d), ''trade_date='' @ d) \<in> set xs)"
  using list_files [OF assms(1) usableD(5) [OF assms(2)], of "''trade_date=''"] by (auto simp: list_all_iff)

text \<open>Reading the dates just written gives the rows just written, whatever the store held before.\<close>

theorem written_partitions_read:
  assumes "inv s" "usable sa dataset" "CHR ''/'' \<notin> set (wa_as_of wa)"
    and "write_partitioned_jsonl sa dataset partitions wa s = (Inr m, s')"
    and "partitions \<noteq> []" "list_all (\<lambda>(_, rows). list_all storable rows) partitions"
  shows "\<exists>rs. read_partitioned_jsonl sa s' dataset (Some (map fst partitions)) = Inr rs
    \<and> mset rs = mset (map canon_row (concat (map snd partitions))) \<and> sorted (map (read_key sa) rs)"
proof -
  let ?at = "\<lambda>d. (child (Some (data_place sa dataset)) (''trade_date='' @ d), ''trade_date='' @ d)"
  note st = partitions_stored [OF assms(1-5)]
  obtain ds where ds: "validate_dates (map fst partitions) = Inr ds" "length ds = length partitions" "distinct ds"
    and stored: "\<forall>(d, rows) \<in> set (zip ds (map snd partitions)). partition_stored sa dataset s' d rows" using st(1) by blast
  define given where "given d = the (dict_get (zip ds (map snd partitions)) d)" for d
  define rows where "rows d = map canon_row (sort_key (write_key sa) (given d))" for d
  define stuff where "stuff d = the (content s' (part_file sa dataset d))" for d
  have given: "map given ds = map snd partitions"
    using ds(2,3) unfolding given_def by (intro nth_equalityI) (simp_all add: map_of_zip_nth)
  have key: "(d, given d) \<in> set (zip ds (map snd partitions))" if "d \<in> set ds" for d
    using that ds(2) unfolding given_def by (metis length_map map_of_SomeD map_of_zip_is_Some option.sel)
  have held: "content s' (part_file sa dataset d) = Some (stuff d) \<and> read_rows sa d (split_lines (stuff d)) = Inr (rows d)"
    and there: "folder_at s' (fst (?at d))" if d: "d \<in> set ds" for d
  proof -
    obtain payload where p: "partition_payload sa d (given d) payload" "content s' (part_file sa dataset d) = Some payload"
      "folder_at s' (fst (?at d))" using stored key [OF d] by (auto simp: partition_stored_def)
    have "given d \<in> set (map snd partitions)" using key [OF d] by (rule set_zip_rightD)
    then have "list_all storable (sort_key (write_key sa) (given d))" using assms(6) by (auto simp: list_all_iff)
    then have "read_rows sa d (split_lines payload) = Inr (rows d)"
      using p(1) unfolding rows_def partition_payload_def by (intro read_rows_written) blast+
    then show "content s' (part_file sa dataset d) = Some (stuff d) \<and> read_rows sa d (split_lines (stuff d)) = Inr (rows d)"
      "folder_at s' (fst (?at d))" using p(2,3) by (simp_all add: stuff_def)
  qed
  obtain xs where xs: "dc_list_files dc s' (data_place sa dataset) (Some ''trade_date='') = Inr xs" "distinct xs"
    "list_all (\<lambda>(f, n). starts_with ''trade_date='' n \<and> f = child (Some (data_place sa dataset)) n) xs"
    "\<And>d. folder_at s' (fst (?at d)) \<Longrightarrow> ?at d \<in> set xs" using dataset_listing [OF st(2) assms(2)] by auto
  let ?mine = "filter (\<lambda>(f, n). drop 11 n \<in> set ds) xs"
  have read: "read_partitions sa s' (data_file_name dataset) (Some ds) xs = Inr (concat (map (\<lambda>(f, n). rows (drop 11 n)) ?mine))"
    by (rule read_partitions_written [OF st(2) assms(2) xs(3) held])
  have "x \<in> ?at ` set ds" if mine: "x \<in> set ?mine" for x
  proof -
    obtain f n where x: "x = (f, n)" "(f, n) \<in> set xs" "drop 11 n \<in> set ds" using mine by auto
    then have "starts_with ''trade_date='' n" "f = child (Some (data_place sa dataset)) n" using xs(3) by (auto simp: list_all_iff)
    then have "x = ?at (drop 11 n)" using x(1) by (auto simp: starts_with_iff)
    then show ?thesis using x(3) by blast
  qed
  moreover have "?at d \<in> set ?mine" if "d \<in> set ds" for d using xs(4) [OF there [OF that]] that by simp
  ultimately have "set ?mine = ?at ` set ds" by blast
  then have "(\<Sum>x\<leftarrow>?mine. mset ((\<lambda>(f, n). rows (drop 11 n)) x)) = (\<Sum>x\<leftarrow>map ?at ds. mset ((\<lambda>(f, n). rows (drop 11 n)) x))"
    using xs(2) ds(3) by (intro sum_list_distinct) (auto simp: distinct_map inj_on_def)
  also have "\<dots> = (\<Sum>rs\<leftarrow>map given ds. image_mset canon_row (mset rs))" by (simp add: comp_def rows_def)
  also have "\<dots> = mset (map canon_row (concat (map snd partitions)))"
    unfolding given by (simp add: mset_concat_map comp_def map_concat)
  finally have ms: "mset (concat (map (\<lambda>(f, n). rows (drop 11 n)) ?mine)) = mset (map canon_row (concat (map snd partitions)))"
    by (simp add: mset_concat_map)
  obtain k0 ks where k: "map fst partitions = k0 # ks" using assms(5) by (cases partitions) auto
  have "read_partitioned_jsonl sa s' dataset (Some (map fst partitions))
      = Inr (sort_key (read_key sa) (concat (map (\<lambda>(f, n). rows (drop 11 n)) ?mine)))"
    using ds(1) xs(1) read by (simp add: read_partitioned_jsonl_def st(3) k usableD(1) [OF assms(2)])
  then show ?thesis using ms by auto
qed

text \<open>Reading a date whose file cannot be read fails.\<close>

theorem written_partition_unreadable:
  assumes "inv s" "usable sa dataset" "CHR ''/'' \<notin> set (wa_as_of wa)" "iso_text d"
    and "write_partitioned_jsonl sa dataset [(d, rows)] wa s = (Inr m, s')"
    and "\<And>payload. partition_payload sa d rows payload \<Longrightarrow> read_rows sa d (split_lines payload) = Inl e"
  shows "read_partitioned_jsonl sa s' dataset (Some [d]) = Inl e"
proof -
  note st = partitions_stored [OF assms(1-3,5), simplified]
  note u = usableD [OF assms(2)]
  have v: "validate_dates [d] = Inr [d]" using validate_iso_text [OF assms(4)] by simp
  then obtain payload where p: "partition_payload sa d rows payload" "content s' (part_file sa dataset d) = Some payload"
    "folder_at s' (child (Some (data_place sa dataset)) (''trade_date='' @ d))"
    using st(1) by (auto simp: partition_stored_def)
  obtain xs where xs: "dc_list_files dc s' (data_place sa dataset) (Some ''trade_date='') = Inr xs"
    "list_all (\<lambda>(f, n). starts_with ''trade_date='' n \<and> f = child (Some (data_place sa dataset)) n) xs"
    "''trade_date='' @ d \<in> snd ` set xs" using dataset_listing [OF st(2) assms(2)] p(3) by force
  have "read_partitions sa s' (data_file_name dataset) (Some [d]) xs = Inl e"
    by (rule read_partitions_failing [OF st(2) assms(2) xs(2) p(2) assms(6) [OF p(1)] xs(3)])
  then show ?thesis using xs(1) v by (simp add: read_partitioned_jsonl_def st(3) u(1))
qed

text \<open>Writing the same rows again, in any order, changes nothing.\<close>

lemma ensure_path_known:
  "inv s \<Longrightarrow> good p \<Longrightarrow> list_all single_name ns \<Longrightarrow> present s p ns \<Longrightarrow> ensure_path dc ns p s = (Inr (place p ns), s)"
  by (induction ns arbitrary: p) (auto simp: st_bind_def ensure_known good_child)

theorem run_stage_written_again:
  assumes "inv s" "sa_client sa = dc" "good (sa_folder_id sa)" "single_name run_id" "single_name stage"
    and "write_run_stage_jsonl sa run_id stage trade_date rows schema_version source s = (Inr m, s')"
    and "mset rows' = mset rows" "inj_on (stage_key sa) (set rows)"
  shows "write_run_stage_jsonl sa run_id stage trade_date rows' schema_version source s' = (Inr m, s')"
proof -
  let ?p = "sa_folder_id sa"
  have srt: "sort_key (stage_key sa) rows' = sort_key (stage_key sa) rows"
    using assms(7,8) by (intro sort_key_inj_key_eq) (metis mset_sort, metis assms(7) mset_eq_setD, simp)
  obtain d payload folder s1 f1 s2 mtext f2 where w: "strip run_id \<noteq> []" "strip stage \<noteq> []" "validate_trade_date trade_date = Inr d"
    "json_lines (map PDict (sort_key (stage_key sa) rows)) = Inr payload"
    "run_stage_folder sa run_id stage d s = (Inr folder, s1)"
    "dc_upload dc (stage @ ''.jsonl'') payload (Some folder) ''application/x-ndjson'' s1 = (Inr f1, s2)"
    "json_dumps_pretty (stage_manifest_dict run_id stage d (length rows) (sa_digest sa payload)
        schema_version (source_of sa source) (sa_show_id sa f1)) = Inr mtext"
    "dc_upload dc ''manifest.json'' mtext (Some folder) ''application/json'' s2 = (Inr f2, s')"
    using assms(6) by (fastforce simp: write_run_stage_jsonl_def st_bind_Inr assms(2) Let_def split: if_splits)
  let ?parts = "[''runs'', run_id, ''execution'', stage, ''trade_date='' @ d]"
  have names: "list_all single_name ?parts"
    using assms(4,5) validated_date [OF w(3)] by (auto simp: single_name_def dest: single_partition)
  obtain q where q: "ensure_path dc ?parts ?p s = (Inr q, s1)" "q = Some folder"
    using w(5) by (auto simp: run_stage_folder_def st_bind_Inr assms(2) the_folder_def split: option.splits)
  note e1 = ensure_path_effect [OF assms(1,3) names q(1)]
  have p1: "inv s1" "present s1 ?p ?parts" "place ?p ?parts = Some folder" using e1 q(2) by auto
  have g: "good (Some folder)" using good_place [OF assms(3), of ?parts] unfolding p1(3) .
  have n: "single_name (stage @ ''.jsonl'')" "single_name ''manifest.json''"
    using assms(5) by (auto simp: single_name_def)
  note e2 = upload [OF p1(1) g n(1) w(6)]
  have i2: "inv s2" using e2 by blast
  note e3 = upload [OF i2 g n(2) w(8)]
  have f: "f1 = child (Some folder) (stage @ ''.jsonl'')" using e2 by blast
  have "child (Some folder) (stage @ ''.jsonl'') \<noteq> child (Some folder) ''manifest.json''"
  proof
    assume "child (Some folder) (stage @ ''.jsonl'') = child (Some folder) ''manifest.json''"
    then have "stage @ ''.jsonl'' = ''manifest.json''" using child_inject [OF g g] by blast
    then have "last (stage @ ''.jsonl'') = last ''manifest.json''" by simp
    then show False by simp
  qed
  then have c: "inv s'" "content s' (child (Some folder) (stage @ ''.jsonl'')) = Some payload"
    "content s' (child (Some folder) ''manifest.json'') = Some mtext" using e2 e3 by auto
  have "present s' ?p ?parts" using p1(2) e2 e3 by (blast intro: present_mono)
  then have "ensure_path dc ?parts ?p s' = (Inr (Some folder), s')"
    using ensure_path_known [OF c(1) assms(3) names] p1(3) by simp
  then have "run_stage_folder sa run_id stage d s' = (Inr folder, s')"
    unfolding run_stage_folder_def st_bind_def by (simp add: assms(2) the_folder_def)
  moreover have "dc_upload dc (stage @ ''.jsonl'') payload (Some folder) t s' = (Inr f1, s')" for t
    unfolding f by (rule upload_known [OF c(1) g n(1) c(2)])
  moreover have "dc_upload dc ''manifest.json'' mtext (Some folder) t s' = (Inr f2, s')" for t
    using upload_known [OF c(1) g n(2) c(3)] e3 by blast
  moreover have "length rows' = length rows" using assms(7) by (metis size_mset)
  ultimately show ?thesis using w assms(6)
    by (simp add: write_run_stage_jsonl_def srt st_bind_def assms(2) Let_def)
qed

end

section \<open>The local mirror keeps the contract\<close>

definition fs_ok :: "fs \<Rightarrow> bool" where
  "fs_ok t = (dict_wf t \<and> (\<forall>p \<in> fst ` set t. p \<noteq> [] \<and> p \<noteq> [''/''] \<and> is_dir t (butlast p)))"

definition file_content :: "fs \<Rightarrow> path \<Rightarrow> string option" where
  "file_content t p = (case dict_get t p of Some (File c) \<Rightarrow> Some c | _ \<Rightarrow> None)"

text \<open>Identifiers are absolute when the mirror's directory is, and then name themselves.\<close>

definition mirror_good :: "path \<Rightarrow> path option \<Rightarrow> bool" where
  "mirror_good base p = (case p of None \<Rightarrow> True | Some q \<Rightarrow> q \<noteq> [] \<and> is_absolute q = is_absolute base)"

definition mirror_child :: "path \<Rightarrow> path option \<Rightarrow> string \<Rightarrow> path" where
  "mirror_child base p n = mirror_resolve base p @ [n]"

lemma path_of_single: "single_name n \<Longrightarrow> path_join p (path_of n) = p @ [n]"
  by (auto simp: single_name_def path_of_def path_join_def is_absolute_def split_on_absent starts_with_iff)

lemma resolve_nonempty [simp]: "mirror_resolve base p \<noteq> []"
  by (auto simp: mirror_resolve_def path_join_def split: option.splits)

lemma resolve_absolute: "mirror_good base p \<Longrightarrow> is_absolute (mirror_resolve base p) = is_absolute base"
  by (auto simp: mirror_good_def mirror_resolve_def path_join_def is_absolute_def hd_append split: option.splits)

lemma resolve_inject: "mirror_good base (Some f) \<Longrightarrow> mirror_good base (Some g) \<Longrightarrow>
    mirror_resolve base (Some f) = mirror_resolve base (Some g) \<Longrightarrow> f = g"
  by (auto simp: mirror_good_def mirror_resolve_def path_join_def split: if_splits)

lemma dir_set: "dict_get t p = None \<Longrightarrow> is_dir (dict_set p Folder t) q \<longleftrightarrow> q = p \<or> is_dir t q"
  by (auto simp: is_dir_def)

lemma file_set: "dict_get t p = None \<Longrightarrow> file_content (dict_set p Folder t) = file_content t"
  by (auto simp: file_content_def fun_eq_iff)

lemma fs_ok_set:
  assumes "fs_ok t" "is_dir t (butlast p)" "\<not> is_dir t p"
  shows "fs_ok (dict_set p v t)"
proof -
  have "is_dir (dict_set p v t) q" if "is_dir t q" for q using that assms(3) by (auto simp: is_dir_def)
  then show ?thesis using assms unfolding fs_ok_def dict_set_key_mem by (auto simp: is_dir_def)
qed

lemma make_dirs_effect:
  "fs_ok t \<Longrightarrow> is_dir t p \<Longrightarrow> make_dirs (paths_below p ns) t = (r, t') \<Longrightarrow>
    fs_ok t' \<and> file_content t' = file_content t \<and> (\<forall>q. is_dir t q \<longrightarrow> is_dir t' q) \<and> (r = Inr () \<longrightarrow> is_dir t' (p @ ns))"
proof (induction ns arbitrary: p t)
  case (Cons n ns)
  show ?case
  proof (cases "is_dir t (p @ [n])")
    case True
    then show ?thesis using Cons.IH [of t "p @ [n]"] Cons.prems by simp
  next
    case False
    show ?thesis
    proof (cases "dict_get t (p @ [n])")
      case None
      then have "fs_ok (dict_set (p @ [n]) Folder t)" using Cons.prems False by (intro fs_ok_set) simp_all
      then show ?thesis
        using Cons.IH [of "dict_set (p @ [n]) Folder t" "p @ [n]"] Cons.prems False None by (simp add: dir_set file_set)
    next
      case (Some v)
      then show ?thesis using Cons.prems False by auto
    qed
  qed
qed auto

lemma mkdir_effect:
  assumes "fs_ok t" "mkdir p t = (r, t')"
  shows "fs_ok t'" "file_content t' = file_content t" "is_dir t q \<Longrightarrow> is_dir t' q" "r = Inr () \<Longrightarrow> is_dir t' p"
  using make_dirs_effect [of t "[]" p r t'] assms by (auto simp: mkdir_def is_dir_def)

lemma parent_dir: "fs_ok t \<Longrightarrow> is_dir t p \<Longrightarrow> is_dir t (butlast p)"
  by (auto simp: is_dir_def fs_ok_def dest!: map_of_SomeD)

lemma dir_prefix: "fs_ok t \<Longrightarrow> is_dir t (p @ q) \<Longrightarrow> is_dir t p"
proof (induction q rule: rev_induct)
  case (snoc n q)
  then show ?case using parent_dir [of t "p @ q @ [n]"] by (simp add: butlast_append)
qed simp

lemma make_dirs_known: "fs_ok t \<Longrightarrow> is_dir t (p @ ns) \<Longrightarrow> make_dirs (paths_below p ns) t = (Inr (), t)"
  by (induction ns arbitrary: p) (auto dest: dir_prefix [of t "_ @ [_]"])

lemma mkdir_known: "fs_ok t \<Longrightarrow> is_dir t p \<Longrightarrow> mkdir p t = (Inr (), t)"
  using make_dirs_known [of t "[]" p] by (simp add: mkdir_def)

lemma file_or_dir: "p \<noteq> [] \<Longrightarrow> p \<noteq> [''/''] \<Longrightarrow> is_dir t p \<or> file_content t p \<noteq> None \<longleftrightarrow> p \<in> fst ` set t"
  by (auto simp: is_dir_def file_content_def dest: map_of_SomeD split: option.splits fs_node.splits)
    (metis fs_node.exhaust image_eqI map_of_eq_None_iff not_None_eq fst_conv)+

lemma mirror_ensure_effect:
  assumes "fs_ok t" "single_name n" "mirror_ensure_folder base n p t = (r, t')"
  shows "fs_ok t' \<and> file_content t' = file_content t \<and> (\<forall>f. is_dir t f \<longrightarrow> is_dir t' f)
    \<and> (\<forall>f. r = Inr f \<longrightarrow> f = mirror_child base p n \<and> is_dir t' f)"
proof -
  have "st_bind (mkdir (mirror_child base p n)) (\<lambda>_. st_lift (Inr (mirror_child base p n))) t = (r, t')"
    using assms(3) by (simp add: mirror_ensure_folder_def path_of_single [OF assms(2)] mirror_child_def Let_def)
  then show ?thesis by (cases rule: st_bind_cases) (use mkdir_effect [OF assms(1)] in fastforce)+
qed

lemma mirror_upload_effect:
  assumes "fs_ok t" "single_name n" "mirror_upload base n c p m t = (r, t')"
  shows "fs_ok t' \<and> (\<forall>f. is_dir t f \<longrightarrow> is_dir t' f)
    \<and> (\<forall>f. r = Inr f \<longrightarrow> f = mirror_child base p n \<and> file_content t' = (file_content t)(f \<mapsto> c))"
proof -
  have "st_bind (mkdir (mirror_resolve base p)) (\<lambda>_. st_bind (write_bytes (mirror_child base p n) c)
      (\<lambda>_. st_lift (Inr (mirror_child base p n)))) t = (r, t')"
    using assms(3) by (simp add: mirror_upload_def path_of_single [OF assms(2)] mirror_child_def Let_def)
  then show ?thesis
  proof (cases rule: st_bind_cases)
    case (first e)
    then show ?thesis using mkdir_effect [OF assms(1)] by auto
  next
    case (second x t1)
    note e = mkdir_effect [OF assms(1) second(1)]
    show ?thesis
    proof (cases "is_dir t1 (mirror_child base p n)")
      case True
      then show ?thesis using second(2) e by (auto simp: write_bytes_def st_bind_def)
    next
      case False
      then have t': "t' = dict_set (mirror_child base p n) (File c) t1" "r = Inr (mirror_child base p n)"
        using second(2) by (auto simp: write_bytes_def st_bind_def)
      have "fs_ok t'" unfolding t' using e False by (intro fs_ok_set) (auto simp: mirror_child_def)
      moreover have "is_dir t' f" if "is_dir t1 f" for f using that False by (auto simp: t' is_dir_def)
      ultimately show ?thesis using e(2,3) by (auto simp: t' file_content_def fun_eq_iff split: option.splits fs_node.splits)
    qed
  qed
qed

lemma mirror_list_effect:
  assumes "fs_ok t"
  shows "\<exists>xs. mirror_list_files base t f (Some pre) = Inr xs \<and> distinct xs \<and> set xs = {(mirror_child base (Some f) n, n) | n.
    (is_dir t (mirror_child base (Some f) n) \<or> file_content t (mirror_child base (Some f) n) \<noteq> None) \<and> starts_with pre n}"
proof -
  let ?dir = "mirror_resolve base (Some f)"
  have child: "is_dir t (mirror_child base (Some f) n) \<or> file_content t (mirror_child base (Some f) n) \<noteq> None
      \<longleftrightarrow> mirror_child base (Some f) n \<in> fst ` set t" for n
    by (rule file_or_dir) (auto simp: mirror_child_def)
  let ?xs = "if \<not> is_dir t ?dir then [] else map (\<lambda>p. (p, last p)) (filter (\<lambda>p. p \<noteq> [] \<and> p \<noteq> [''/''] \<and> butlast p = ?dir
    \<and> starts_with pre (last p)) (map fst t))"
  have keys: "p \<noteq> []" "p \<noteq> [''/'']" "is_dir t (butlast p)" if "p \<in> fst ` set t" for p using assms that by (auto simp: fs_ok_def)
  have "set ?xs = {(mirror_child base (Some f) n, n) | n. mirror_child base (Some f) n \<in> fst ` set t \<and> starts_with pre n}"
  proof (intro set_eqI iffI)
    fix x assume "x \<in> set ?xs"
    then obtain p where p: "p \<in> fst ` set t" "butlast p = ?dir" "starts_with pre (last p)" "x = (p, last p)"
      by (auto split: if_splits)
    then have "p = mirror_child base (Some f) (last p)"
      using append_butlast_last_id [OF keys(1) [OF p(1)]] by (simp add: mirror_child_def)
    then show "x \<in> {(mirror_child base (Some f) n, n) | n. mirror_child base (Some f) n \<in> fst ` set t \<and> starts_with pre n}"
      using p by auto
  next
    fix x assume "x \<in> {(mirror_child base (Some f) n, n) | n. mirror_child base (Some f) n \<in> fst ` set t \<and> starts_with pre n}"
    then obtain n where n: "x = (mirror_child base (Some f) n, n)" "mirror_child base (Some f) n \<in> fst ` set t" "starts_with pre n"
      by blast
    then have "is_dir t ?dir" "?dir @ [n] \<noteq> [''/'']" "?dir @ [n] \<in> fst ` set t"
      using keys [OF n(2)] by (simp_all add: mirror_child_def)
    then show "x \<in> set ?xs" using n(3) unfolding n(1) mirror_child_def
      by (simp add: image_iff)
  qed
  moreover have "distinct ?xs" using assms by (auto simp: distinct_map fs_ok_def inj_on_def)
  moreover have "mirror_list_files base t f (Some pre) = Inr ?xs" by (simp add: mirror_list_files_def Let_def)
  ultimately show ?thesis unfolding child by blast
qed

interpretation mirror: drive_store "local_mirror base" fs_ok "mirror_child base" is_dir file_content "mirror_good base"
  for base :: path
proof
  fix s s' :: fs and p n r
  assume "fs_ok s" "mirror_good base p" "single_name n" "dc_ensure_folder (local_mirror base) n p s = (r, s')"
  then show "fs_ok s' \<and> file_content s' = file_content s \<and> (\<forall>f. is_dir s f \<longrightarrow> is_dir s' f)
    \<and> (\<forall>f. r = Inr f \<longrightarrow> f = mirror_child base p n \<and> is_dir s' f)"
    by (simp add: local_mirror_def mirror_ensure_effect)
next
  fix s s' :: fs and p n c m r
  assume "fs_ok s" "mirror_good base p" "single_name n" "dc_upload (local_mirror base) n c p m s = (r, s')"
  then show "fs_ok s' \<and> (\<forall>f. is_dir s f \<longrightarrow> is_dir s' f)
    \<and> (\<forall>f. r = Inr f \<longrightarrow> f = mirror_child base p n \<and> file_content s' = (file_content s)(f \<mapsto> c))"
    by (simp add: local_mirror_def mirror_upload_effect)
next
  fix s :: fs and p n mt
  assume "fs_ok s" "mirror_good base p" "single_name n"
  then show "dc_find_file (local_mirror base) s n p mt =
      Inr (if file_content s (mirror_child base p n) \<noteq> None \<or> mt = Some folder_mime \<and> is_dir s (mirror_child base p n)
        then Some (mirror_child base p n) else None)"
    by (auto simp: local_mirror_def mirror_find_file_def path_of_single mirror_child_def is_file_def file_content_def
        split: option.splits fs_node.splits)
next
  fix s :: fs and f pre
  assume "fs_ok s"
  then show "\<exists>xs. dc_list_files (local_mirror base) s f (Some pre) = Inr xs \<and> distinct xs
      \<and> set xs = {(mirror_child base (Some f) n, n) | n. (is_dir s (mirror_child base (Some f) n)
          \<or> file_content s (mirror_child base (Some f) n) \<noteq> None) \<and> starts_with pre n}"
    by (simp only: local_mirror_def drive_client.simps mirror_list_effect)
next
  fix s :: fs and f c
  assume "file_content s f = Some c"
  then show "dc_download (local_mirror base) s f = Inr c"
    by (auto simp: local_mirror_def mirror_download_def file_content_def split: option.splits fs_node.splits)
next
  fix s :: fs and p n
  assume "fs_ok s" "single_name n" "is_dir s (mirror_child base p n)"
  then show "dc_ensure_folder (local_mirror base) n p s = (Inr (mirror_child base p n), s)"
    by (simp add: local_mirror_def mirror_ensure_folder_def path_of_single mirror_child_def st_bind_def mkdir_known Let_def)
next
  fix s :: fs and p n c m
  assume s: "fs_ok s" "single_name n" "file_content s (mirror_child base p n) = Some c"
  then have c: "dict_get s (mirror_child base p n) = Some (File c)" by (simp add: file_content_def split: option.splits fs_node.splits)
  then have "mirror_child base p n \<in> fst ` set s" by (metis domI dom_map_of_conv_image_fst)
  then have "is_dir s (mirror_resolve base p)" using s(1) by (fastforce simp: fs_ok_def mirror_child_def)
  moreover have "\<not> is_dir s (mirror_child base p n)" using c by (auto simp: is_dir_def mirror_child_def)
  moreover have "dict_set (mirror_child base p n) (File c) s = s" using c s(1) by (intro dict_set_same) (simp_all add: fs_ok_def)
  ultimately show "dc_upload (local_mirror base) n c p m s = (Inr (mirror_child base p n), s)"
    using s(1,2) by (simp add: local_mirror_def mirror_upload_def path_of_single mirror_child_def st_bind_def mkdir_known write_bytes_def Let_def)
next
  show "dc_readable (local_mirror base)" by (simp add: local_mirror_def)
next
  fix p n
  assume "mirror_good base p"
  then have "is_absolute (mirror_child base p n) = is_absolute base"
    using resolve_absolute [of base p] by (simp add: mirror_child_def is_absolute_def)
  then show "mirror_good base (Some (mirror_child base p n))" by (simp add: mirror_good_def mirror_child_def)
next
  fix f g n m
  assume "mirror_good base (Some f)" "mirror_good base (Some g)" "mirror_child base (Some f) n = mirror_child base (Some g) m"
  then show "f = g \<and> n = m" using resolve_inject by (auto simp: mirror_child_def)
qed

section \<open>A line break JSON does not escape\<close>

lemma read_string_open: "read_string (concat (map escape_char s)) = None"
  by (induction s) (simp_all add: read_string_escape)

lemma split_line_break:
  "unbroken s \<Longrightarrow> line_break c \<Longrightarrow> c \<noteq> CHR 0x0D \<Longrightarrow>
    split_lines_from acc (s @ c # t) = (rev acc @ s) # split_lines_from [] t"
  by (induction s arbitrary: acc) (auto simp: line_break_def split: if_splits)

text \<open>A row with one text field before its date.\<close>

definition named_row :: "string \<Rightarrow> string \<Rightarrow> row" where
  "named_row name d = [(''name'', PStr name), (''trade_date'', PStr d)]"

definition open_text :: "string \<Rightarrow> string" where
  "open_text u = CHR ''{'' # CHR 0x22 # ''name'' @ CHR 0x22 # CHR '':'' # CHR 0x22 # concat (map escape_char u)"

lemma open_text_unreadable: "json_loads (open_text u) = Inl (ValueError ''Expecting value'')"
proof -
  have "read_string (''name'' @ CHR 0x22 # r) = Some (''name'', r)" for r
    using read_json_string [of "''name''" r] by (simp add: escape_char_def)
  then have "read_fields n (tl (open_text u)) = None" for n
    by (cases n) (simp_all add: open_text_def gr0_conv_Suc, case_tac nat, simp_all add: read_string_open)
  then have "read_value n (open_text u) = None" for n by (cases n) (simp_all add: open_text_def)
  then show ?thesis by (simp add: json_loads_def open_text_def skip_space_def json_space_def)
qed

lemma broken_row_unreadable:
  assumes "one_line_text u" and "partition_payload sa d [named_row (u @ char_of (133 :: int) # v) d] payload"
  shows "read_rows sa d (split_lines payload) = Inl (ValueError ''Expecting value'')"
proof -
  let ?c = "char_of (133 :: int) :: char"
  have c: "escape_char ?c = [?c]" "line_break ?c" "?c \<noteq> CHR 0x0D" by code_simp+
  have "canon (PDict (named_row n d)) = PDict (named_row n d)" for n
    by (simp add: named_row_def insort_key.simps)
  then have "payload = json_text (PDict (named_row (u @ ?c # v) d)) @ [CHR 0x0A]"
    using assms(2) by (auto simp: partition_payload_def res_bind_eq_Inr json_dumps_def simp del: json_text.simps split: if_splits)
  then obtain t where t: "payload = open_text u @ ?c # t"
    by (simp add: named_row_def open_text_def json_string_def escape_char_def c(1))
  have "unbroken (concat (map escape_char u))"
    using assms(1) by (induction u) (auto simp: one_line_text_def unbroken_escape)
  then have "unbroken (open_text u)" by (simp add: open_text_def line_break_def)
  then have "split_lines payload = open_text u # split_lines t"
    unfolding t split_lines_def using c(2,3) by (simp add: split_line_break)
  moreover have "strip (open_text u) \<noteq> []" by (simp add: open_text_def strip_def lstrip_def py_isspace_def)
  ultimately show ?thesis by (simp add: open_text_unreadable)
qed

section \<open>Properties\<close>

text \<open>An agent on the local mirror, for a dataset whose name gives a path of plain names.\<close>

definition on_mirror :: "path \<Rightarrow> (path, fs) storage_agent \<Rightarrow> string \<Rightarrow> bool" where
  "on_mirror base sa dataset = (sa_client sa = local_mirror base \<and> mirror_good base (sa_folder_id sa)
     \<and> dataset_parts dataset \<noteq> [] \<and> ''.'' \<notin> set (dataset_parts dataset))"

lemma on_mirror_usable: "on_mirror base sa dataset \<Longrightarrow> mirror.usable base sa dataset"
  by (simp add: on_mirror_def mirror.usable_def)

text \<open>
  (C14) Date partitions are read back as they were written: after a successful write on the local mirror,
  reading the dates of the partitions returns every row that was written once, with its keys in
  order, and nothing else, sorted by market, symbol and date; whatever the mirror held before, and
  however the dates of the partitions were spelled.
\<close>

theorem partitions_are_read_back:
  assumes "fs_ok t" and "on_mirror base sa dataset" and "CHR ''/'' \<notin> set (wa_as_of wa)"
    and "write_partitioned_jsonl sa dataset partitions wa t = (Inr m, t')"
    and "partitions \<noteq> []" and "list_all (\<lambda>(_, rows). list_all storable rows) partitions"
  shows "\<exists>rs. read_partitioned_jsonl sa t' dataset (Some (map fst partitions)) = Inr rs
    \<and> mset rs = mset (map canon_row (concat (map snd partitions))) \<and> sorted (map (read_key sa) rs)"
  by (rule mirror.written_partitions_read [OF assms(1) on_mirror_usable [OF assms(2)] assms(3-6)])

definition example_storage :: "(path, fs) storage_agent" where
  "example_storage = \<lparr>sa_client = local_mirror [''/'', ''lake''], sa_folder_id = None, sa_source = ''paper-live'',
     sa_digest = (\<lambda>s. show_int (int (length s))), sa_show_dec = (\<lambda>_. []), sa_show_id = join_with ''/''\<rparr>"

definition example_write_args :: write_args where
  "example_write_args = \<lparr>wa_as_of = ''2024-01-03T09:00'', wa_schema_version = ''1.0'', wa_run_id = None, wa_success_count = 2,
     wa_failure_count = 0, wa_source = None\<rparr>"

definition example_day :: "string \<Rightarrow> string \<Rightarrow> int \<Rightarrow> row" where
  "example_day symb d n = [(''symbol'', PStr symb), (''trade_date'', PStr d), (''market'', PStr ''KOSPI''), (''volume'', PInt n)]"

definition example_partitions :: "(string, row list) dict" where
  "example_partitions = [(''20240103'', [example_day ''B'' ''2024-01-03'' 5]),
     (''2024-01-02'', [example_day ''B'' ''20240102'' (- 3), example_day ''A'' ''2024-01-02'' 7])]"

theorem partitions_are_read_back_witness:
  "\<exists>rs. read_partitioned_jsonl example_storage (snd (write_partitioned_jsonl example_storage ''market/daily'' example_partitions example_write_args []))
      ''market/daily'' (Some [''20240103'', ''2024-01-02'']) = Inr rs
    \<and> mset rs = mset (map canon_row (concat (map snd example_partitions))) \<and> sorted (map (read_key example_storage) rs)"
proof -
  let ?w = "write_partitioned_jsonl example_storage ''market/daily'' example_partitions example_write_args []"
  have "is_ok (fst ?w)" by code_simp
  then obtain m where w: "?w = (Inr m, snd ?w)" by (metis is_ok_iff prod.collapse)
  have "on_mirror [''/'', ''lake''] example_storage ''market/daily''"
    by (simp add: on_mirror_def example_storage_def mirror_good_def dataset_parts_def)
  moreover have "CHR ''/'' \<notin> set (wa_as_of example_write_args)" by code_simp
  moreover have "list_all (\<lambda>(_, rows). list_all storable rows) example_partitions" by code_simp
  ultimately have "\<exists>rs. read_partitioned_jsonl example_storage (snd ?w) ''market/daily'' (Some (map fst example_partitions)) = Inr rs
    \<and> mset rs = mset (map canon_row (concat (map snd example_partitions))) \<and> sorted (map (read_key example_storage) rs)"
    by (intro partitions_are_read_back [OF _ _ _ w]) (simp_all add: fs_ok_def example_partitions_def)
  then show ?thesis by (simp add: example_partitions_def)
qed

text \<open>
  (C28) Run artifacts are idempotent, as the doc string of \<open>write_run_stage_jsonl\<close> promises: on the local
  mirror, writing the rows of a stage again, in any order, returns the same manifest and leaves
  every folder and file as it is. The rows must differ in the keys they are sorted by.
\<close>

theorem stage_artifact_is_idempotent:
  assumes "fs_ok t" and "sa_client sa = local_mirror base" and "mirror_good base (sa_folder_id sa)"
    and "single_name run_id" and "single_name stage"
    and "write_run_stage_jsonl sa run_id stage trade_date rows schema_version source t = (Inr m, t')"
    and "mset rows' = mset rows" and "distinct (map (stage_key sa) rows)"
  shows "write_run_stage_jsonl sa run_id stage trade_date rows' schema_version source t' = (Inr m, t')"
  using assms(8) unfolding distinct_map
  by (intro mirror.run_stage_written_again [OF assms(1-7)]) (rule conjunct2)

definition example_fills :: "row list" where
  "example_fills = [[(''event_key'', PStr ''r1:B:fill''), (''symbol'', PStr ''B'')], [(''event_key'', PStr ''r1:A:fill''), (''symbol'', PStr ''A'')]]"

theorem stage_artifact_is_idempotent_witness:
  "snd (write_run_stage_jsonl example_storage ''r1'' ''fills'' ''2024-01-02'' (rev example_fills) ''v1'' None
      (snd (write_run_stage_jsonl example_storage ''r1'' ''fills'' ''2024-01-02'' example_fills ''v1'' None [])))
    = snd (write_run_stage_jsonl example_storage ''r1'' ''fills'' ''2024-01-02'' example_fills ''v1'' None [])"
proof -
  let ?w = "write_run_stage_jsonl example_storage ''r1'' ''fills'' ''2024-01-02'' example_fills ''v1'' None []"
  have "is_ok (fst ?w)" by code_simp
  then obtain m where w: "?w = (Inr m, snd ?w)" by (metis is_ok_iff prod.collapse)
  have "distinct (map (stage_key example_storage) example_fills)" by code_simp
  moreover have "single_name ''r1''" "single_name ''fills''" by (simp_all add: single_name_def)
  moreover have "sa_client example_storage = local_mirror [''/'', ''lake'']" "mirror_good [''/'', ''lake''] (sa_folder_id example_storage)"
    by (simp_all add: example_storage_def mirror_good_def)
  moreover have "fs_ok []" "mset (rev example_fills) = mset example_fills" by (simp_all add: fs_ok_def)
  ultimately have "write_run_stage_jsonl example_storage ''r1'' ''fills'' ''2024-01-02'' (rev example_fills) ''v1'' None (snd ?w) = (Inr m, snd ?w)"
    using stage_artifact_is_idempotent w by blast
  then show ?thesis by simp
qed

text \<open>
  (C39) A row the data lake accepts may be unreadable: JSON leaves the line break U+0085 in a text as it is,
  and the file is split there when it is read. Whenever a partition with such a row was written, the
  read of its date raises, so that no row of the dataset is returned.
\<close>

theorem line_break_row_is_unreadable:
  assumes "fs_ok t" and "on_mirror base sa dataset" and "CHR ''/'' \<notin> set (wa_as_of wa)"
    and "iso_text d" and "one_line_text u"
    and "write_partitioned_jsonl sa dataset [(d, [named_row (u @ char_of (133 :: int) # v) d])] wa t = (Inr m, t')"
  shows "read_partitioned_jsonl sa t' dataset (Some [d]) = Inl (ValueError ''Expecting value'')"
  by (rule mirror.written_partition_unreadable [OF assms(1) on_mirror_usable [OF assms(2)] assms(3,4,6)
      broken_row_unreadable [OF assms(5)]])

theorem line_break_row_is_unreadable_witness:
  "read_partitioned_jsonl example_storage (snd (write_partitioned_jsonl example_storage ''news''
      [(''2024-01-02'', [named_row (''a'' @ char_of (133 :: int) # ''b'') ''2024-01-02''])] example_write_args []))
    ''news'' (Some [''2024-01-02'']) = Inl (ValueError ''Expecting value'')"
proof -
  let ?w = "write_partitioned_jsonl example_storage ''news''
    [(''2024-01-02'', [named_row (''a'' @ char_of (133 :: int) # ''b'') ''2024-01-02''])] example_write_args []"
  have "is_ok (fst ?w)" by code_simp
  then obtain m where w: "?w = (Inr m, snd ?w)" by (metis is_ok_iff prod.collapse)
  have "on_mirror [''/'', ''lake''] example_storage ''news''"
    by (simp add: on_mirror_def example_storage_def mirror_good_def dataset_parts_def)
  moreover have "CHR ''/'' \<notin> set (wa_as_of example_write_args)" "one_line_text ''a''" by code_simp+
  moreover have "iso_text ''2024-01-02''"
    by (rule validated_date [of "''2024-01-02''"]) code_simp
  moreover have "fs_ok []" by (simp add: fs_ok_def)
  ultimately show ?thesis using line_break_row_is_unreadable [OF _ _ _ _ _ w] by blast
qed

end
