(* ===== verification/Paper_Execution.thy ===== *)
theory Paper_Execution
  imports Facade_Runs Data_Lake Trading_Cycle
begin

text \<open>
  \<open>paper_execution.py\<close>: the orchestrator that takes the rows of a portfolio through preflight,
  submission, profit accounting and reflection, and stores what happened as artifacts of the run.

  The account handed to it is the account of the facade's gateway. A trail or tracker of the
  orchestrator's own is a state of the orchestrator; without one it uses the facade's trail and the
  trail's tracker. Storage is an agent and the state of its client.
\<close>

section \<open>State\<close>

record ('i, 's) paper_orchestrator =
  px_facade :: facade
  px_ledger :: ledger
  px_memory :: "trade_episode list option"
  px_trail :: "audit_trail option"
  px_tracker :: "manifest_tracker option"
  px_storage :: "('i, 's) storage_agent option"
  px_store :: 's

record execution_result =
  xr_preflight :: preflight_result
  xr_fills :: "fill list"
  xr_pnl_audits :: "string list"
  xr_reflections :: "string list"

text \<open>The keyword arguments of a run.\<close>

record execution_args =
  xa_prices :: "(string, decimal) dict"
  xa_markets :: "(string, string) dict"
  xa_broker :: string
  xa_order_type :: string
  xa_lot_size :: decimal
  xa_run_id :: "string option"
  xa_trade_date :: "string option"

text \<open>What the calls read from outside: those of the preflight, the two of each submission, and the fresh
  identifier and the time of each episode.\<close>

record execution_env =
  xe_preflight :: "nat \<Rightarrow> call_env"
  xe_revalidate :: "nat \<Rightarrow> call_env"
  xe_submit :: "nat \<Rightarrow> call_env"
  xe_episode :: "nat \<Rightarrow> string"
  xe_now :: "nat \<Rightarrow> string"

abbreviation xe_params :: "execution_env \<Rightarrow> nat \<Rightarrow> audit_params" where
  "xe_params xe n \<equiv> ce_params (xe_submit xe n)"

section \<open>Trail, tracker and artifacts\<close>

definition px_audit :: "('i, 's) paper_orchestrator \<Rightarrow> audit_trail option" where
  "px_audit px = (case px_trail px of None \<Rightarrow> fc_audit (px_facade px) | Some t \<Rightarrow> Some t)"

definition px_set_audit :: "audit_trail \<Rightarrow> ('i, 's) paper_orchestrator \<Rightarrow> ('i, 's) paper_orchestrator" where
  "px_set_audit t px = (if px_trail px = None then px\<lparr>px_facade := (px_facade px)\<lparr>fc_audit := Some t\<rparr>\<rparr>
     else px\<lparr>px_trail := Some t\<rparr>)"

definition the_tracker :: "('i, 's) paper_orchestrator \<Rightarrow> manifest_tracker option" where
  "the_tracker px = (case px_tracker px of
     Some tr \<Rightarrow> Some tr
   | None \<Rightarrow> (case px_audit px of None \<Rightarrow> None | Some t \<Rightarrow> at_tracker t))"

definition set_tracker :: "manifest_tracker \<Rightarrow> ('i, 's) paper_orchestrator \<Rightarrow> ('i, 's) paper_orchestrator" where
  "set_tracker tr px = (if px_tracker px \<noteq> None then px\<lparr>px_tracker := Some tr\<rparr>
     else (case px_audit px of None \<Rightarrow> px | Some t \<Rightarrow> px_set_audit (t\<lparr>at_tracker := Some tr\<rparr>) px))"

definition px_bind_stage ::
  "string option \<Rightarrow> string \<Rightarrow> string \<Rightarrow> string option \<Rightarrow> int option \<Rightarrow> string option \<Rightarrow> row \<Rightarrow>
     (('i, 's) paper_orchestrator, unit) st" where
  "px_bind_stage run_id stage status artifact_id row_count checksum metadata px =
     (case (the_tracker px, run_id) of
        (Some tr, Some (c # cs)) \<Rightarrow>
          (case tracker_bind_stage tr (c # cs)
              \<lparr>ra_stage = stage, ra_artifact_id = artifact_id, ra_dataset = None, ra_row_count = row_count,
               ra_checksum_sha256 = checksum, ra_status = status, ra_metadata = metadata\<rparr> True of
             (res, tr') \<Rightarrow> (res_bind res (\<lambda>_. Inr ()), set_tracker tr' px))
      | _ \<Rightarrow> (Inr (), px))"

definition manifest_stage_of :: "string \<Rightarrow> string" where
  "manifest_stage_of stage = dict_get_or [(''fills'', ''fill''), (''pnl'', ''pnl''), (''reflection'', ''reflection'')] stage stage"

definition px_persist_stage ::
  "string option \<Rightarrow> string option \<Rightarrow> string \<Rightarrow> row list \<Rightarrow> (('i, 's) paper_orchestrator, unit) st" where
  "px_persist_stage run_id trade_date stage rows px =
     (case (px_storage px, run_id, trade_date) of
        (Some sa, Some (c # cs), Some (d # ds)) \<Rightarrow>
          if rows = [] then (Inr (), px)
          else (case write_run_stage_jsonl sa (c # cs) stage (d # ds) rows (''execution-'' @ stage @ ''-v1'') None (px_store px) of
              (Inl e, s) \<Rightarrow> (Inl e, px\<lparr>px_store := s\<rparr>)
            | (Inr m, s) \<Rightarrow>
                px_bind_stage run_id (manifest_stage_of stage) ''completed''
                  (Some ((c # cs) @ '':'' @ stage @ '':'' @ (d # ds) @ '':'' @ take 20 (dm_checksum m)))
                  (Some (dm_row_count m)) (Some (dm_checksum m))
                  [(''dataset'', PStr (dm_dataset m)), (''trade_date'', PStr (dm_as_of m)),
                   (''schema_version'', PStr (dm_schema_version m))]
                  (px\<lparr>px_store := s\<rparr>))
      | _ \<Rightarrow> (Inr (), px))"

section \<open>One approved row\<close>

text \<open>The lists the loop fills.\<close>

record execution_log =
  xl_fills :: "fill list"
  xl_pnl_audits :: "string list"
  xl_episodes :: "string list"
  xl_fill_rows :: "row list"
  xl_pnl_rows :: "row list"
  xl_reflection_rows :: "row list"

definition empty_log :: execution_log where
  "empty_log = \<lparr>xl_fills = [], xl_pnl_audits = [], xl_episodes = [], xl_fill_rows = [], xl_pnl_rows = [], xl_reflection_rows = []\<rparr>"

text \<open>An f-string shows \<open>None\<close>; \<open>str(run_manifest_id or "")\<close> does not.\<close>

definition shown_id :: "string option \<Rightarrow> string" where
  "shown_id r = (case r of None \<Rightarrow> ''None'' | Some s \<Rightarrow> s)"

definition id_or_empty :: "string option \<Rightarrow> string" where
  "id_or_empty r = (case r of None \<Rightarrow> [] | Some s \<Rightarrow> s)"

definition fill_row :: "(decimal \<Rightarrow> string) \<Rightarrow> string option \<Rightarrow> fill \<Rightarrow> row" where
  "fill_row sd run_id f =
     [(''event_key'', PStr (shown_id run_id @ '':'' @ fl_symbol f @ '':'' @ fl_order_id f @ '':fill'')),
      (''run_id'', PStr (id_or_empty run_id)), (''symbol'', PStr (fl_symbol f)), (''order_id'', PStr (fl_order_id f)),
      (''side'', PStr (side_value (fl_side f))), (''quantity'', PStr (sd (fl_quantity f))), (''price'', PStr (sd (fl_price f))),
      (''fee'', PStr (sd (fl_fee f))), (''tax'', PStr (sd (fl_tax f))), (''status'', PStr (fl_status f))]"

definition pnl_row :: "(decimal \<Rightarrow> string) \<Rightarrow> string option \<Rightarrow> string \<Rightarrow> string \<Rightarrow> decimal \<Rightarrow> decimal \<Rightarrow> row" where
  "pnl_row sd run_id audit_id symb pnl mark =
     [(''event_key'', PStr (shown_id run_id @ '':'' @ audit_id @ '':pnl'')), (''run_id'', PStr (id_or_empty run_id)),
      (''audit_id'', PStr audit_id), (''symbol'', PStr symb), (''pnl'', PStr (sd pnl)), (''mark'', PStr (sd mark)),
      (''pnl_reference'', PStr (''ledger:'' @ symb))]"

definition reflection_row :: "(decimal \<Rightarrow> string) \<Rightarrow> string option \<Rightarrow> string \<Rightarrow> string \<Rightarrow> string \<Rightarrow> decimal \<Rightarrow> row" where
  "reflection_row sd run_id audit_id episode_id symb pnl =
     [(''event_key'', PStr (shown_id run_id @ '':'' @ audit_id @ '':'' @ episode_id @ '':reflection'')),
      (''run_id'', PStr (id_or_empty run_id)), (''audit_id'', PStr audit_id), (''episode_id'', PStr episode_id),
      (''symbol'', PStr symb), (''pnl'', PStr (sd pnl))]"

definition episode_of ::
  "(decimal \<Rightarrow> string) \<Rightarrow> string \<Rightarrow> string \<Rightarrow> string option \<Rightarrow> fill \<Rightarrow> decimal \<Rightarrow> decimal \<Rightarrow> trade_episode" where
  "episode_of sd uuid now run_id f pnl mark =
     \<lparr>te_episode_id = ''episode-'' @ uuid, te_symbol = fl_symbol f, te_action = side_value (fl_side f),
      te_entry_price = sd (fl_price f), te_exit_price = sd mark, te_pnl = sd pnl,
      te_decision_context = [(''run_manifest_id'', str_opt run_id), (''client_order_id'', PStr (fl_order_id f)),
        (''quantity'', PStr (sd (fl_quantity f)))],
      te_outcome = (if 0 < pnl then ''POSITIVE'' else if pnl < 0 then ''NEGATIVE'' else ''NEUTRAL''), te_created_at = now\<rparr>"

text \<open>The newest record of the fill's order.\<close>

definition submission_of :: "audit_trail \<Rightarrow> fill \<Rightarrow> audit_record option" where
  "submission_of t f = find (\<lambda>r. au_client_order_id r = fl_order_id f \<and> au_symbol r = fl_symbol f) (rev (at_records t))"

text \<open>An operation of the trail, when there is one.\<close>

definition on_audit ::
  "(audit_trail \<Rightarrow> audit_record res \<times> audit_trail) \<Rightarrow> (('i, 's) paper_orchestrator \<times> execution_log, unit) st" where
  "on_audit f pl = (case px_audit (fst pl) of
     None \<Rightarrow> (Inr (), pl)
   | Some t \<Rightarrow> (case f t of (r, t') \<Rightarrow> (map_sum id (\<lambda>_. ()) r, (px_set_audit t' (fst pl), snd pl))))"

definition reflect_fill ::
  "execution_env \<Rightarrow> nat \<Rightarrow> string option \<Rightarrow> audit_record \<Rightarrow> fill \<Rightarrow> decimal \<Rightarrow> decimal \<Rightarrow>
     (('i, 's) paper_orchestrator \<times> execution_log, unit) st" where
  "reflect_fill xe n run_id sub f pnl mark pl =
     (case px_memory (fst pl) of
        None \<Rightarrow> (Inr (), pl)
      | Some mem \<Rightarrow>
          (let sd = ap_show_dec (xe_params xe n); e = episode_of sd (xe_episode xe n) (xe_now xe n) run_id f pnl mark in
           case reflect mem e of
             (Inl x, mem') \<Rightarrow> (Inl x, ((fst pl)\<lparr>px_memory := Some mem'\<rparr>, snd pl))
           | (Inr _, mem') \<Rightarrow>
               st_bind (on_audit (\<lambda>t. audit_record_reflection t (au_audit_id sub) e)) (\<lambda>_ pl'.
                 (Inr (), (fst pl', (snd pl')\<lparr>xl_episodes := xl_episodes (snd pl') @ [te_episode_id e],
                    xl_reflection_rows := xl_reflection_rows (snd pl')
                      @ [reflection_row sd run_id (au_audit_id sub) (te_episode_id e) (fl_symbol f) pnl]\<rparr>)))
               ((fst pl)\<lparr>px_memory := Some mem'\<rparr>, snd pl)))"

text \<open>The body of the \<open>try\<close> block.\<close>

definition book_fill ::
  "execution_env \<Rightarrow> nat \<Rightarrow> execution_args \<Rightarrow> audit_record \<Rightarrow> fill \<Rightarrow>
     (('i, 's) paper_orchestrator \<times> execution_log, unit) st" where
  "book_fill xe n xa sub f pl =
     (let sd = ap_show_dec (xe_params xe n); symb = fl_symbol f in
      case apply_fill (px_ledger (fst pl)) symb (fl_side f) (fl_quantity f) (fl_price f) of
        Inl e \<Rightarrow> (Inl e, pl)
      | Inr (_, l) \<Rightarrow>
          (let px = (fst pl)\<lparr>px_ledger := l\<rparr> in
           case dict_get (xa_prices xa) symb of
             None \<Rightarrow> (Inl (KeyError symb), (px, snd pl))
           | Some mark \<Rightarrow>
               (case total_pnl l symb mark of
                  Inl e \<Rightarrow> (Inl e, (px, snd pl))
                | Inr pnl \<Rightarrow>
                    st_bind (on_audit (\<lambda>t. audit_record_pnl (xe_params xe n) t (au_audit_id sub) pnl (''ledger:'' @ symb))) (\<lambda>_ pl'.
                      reflect_fill xe n (xa_run_id xa) sub f pnl mark
                        (fst pl', (snd pl')\<lparr>xl_pnl_audits := xl_pnl_audits (snd pl') @ [au_audit_id sub],
                           xl_pnl_rows := xl_pnl_rows (snd pl') @ [pnl_row sd (xa_run_id xa) (au_audit_id sub) symb pnl mark]\<rparr>))
                    (px, snd pl))))"

definition log_fill :: "(decimal \<Rightarrow> string) \<Rightarrow> string option \<Rightarrow> fill \<Rightarrow> execution_log \<Rightarrow> execution_log" where
  "log_fill sd run_id f xl = xl\<lparr>xl_fills := xl_fills xl @ [f], xl_fill_rows := xl_fill_rows xl @ [fill_row sd run_id f]\<rparr>"

text \<open>What follows a submission that returned.\<close>

definition account_result ::
  "execution_env \<Rightarrow> nat \<Rightarrow> execution_args \<Rightarrow> trade_result option \<Rightarrow> (('i, 's) paper_orchestrator \<times> execution_log, unit) st" where
  "account_result xe n xa result pl =
     (case result of
        Some (FillResult f) \<Rightarrow>
          if fl_quantity f \<le> 0 \<or> fl_status f \<notin> {''FILLED'', ''PARTIALLY_FILLED''} then (Inr (), pl)
          else (let pl1 = (fst pl, log_fill (ap_show_dec (xe_params xe n)) (xa_run_id xa) f (snd pl)) in
                case px_audit (fst pl) of
                  None \<Rightarrow> (Inr (), pl1)
                | Some t \<Rightarrow>
                    (case submission_of t f of
                       None \<Rightarrow> (Inr (), pl1)
                     | Some sub \<Rightarrow>
                         (case book_fill xe n xa sub f pl1 of
                            (Inr _, pl2) \<Rightarrow> (Inr (), pl2)
                          | (Inl e, pl2) \<Rightarrow> if is_key_error e \<or> is_value_error e then (Inr (), pl2) else (Inl e, pl2))))
      | _ \<Rightarrow> (Inr (), pl))"

definition row_rank_arg :: "row \<Rightarrow> int option res" where
  "row_rank_arg r =
     (if row_get r ''portfolio_rank'' PNone \<noteq> PNone then map_sum id Some (to_int (row_get r ''portfolio_rank'' PNone))
      else if row_get r ''rank'' PNone \<noteq> PNone then map_sum id Some (to_int (row_get r ''rank'' PNone))
      else Inr None)"

definition execute_row ::
  "execution_env \<Rightarrow> nat \<Rightarrow> execution_args \<Rightarrow> row \<Rightarrow> (('i, 's) paper_orchestrator \<times> execution_log, unit) st" where
  "execute_row xe n xa r pl =
     (case row_rank_arg r of
        Inl e \<Rightarrow> (Inl e, pl)
      | Inr rank \<Rightarrow>
          (case submit_portfolio_row (xe_revalidate xe n) (xe_submit xe n) (px_facade (fst pl)) r (xa_prices xa) (xa_markets xa)
               (xa_broker xa) (xa_order_type xa) (xa_lot_size xa) None (xa_run_id xa) rank (xa_run_id xa) of
             (Inl e, fc) \<Rightarrow> (Inl e, ((fst pl)\<lparr>px_facade := fc\<rparr>, snd pl))
           | (Inr result, fc) \<Rightarrow> account_result xe n xa result ((fst pl)\<lparr>px_facade := fc\<rparr>, snd pl)))"

section \<open>A run\<close>

definition rows_by_symbol :: "(decimal \<Rightarrow> string) \<Rightarrow> row list \<Rightarrow> (string, row) dict" where
  "rows_by_symbol sd rows = foldl (\<lambda>d r. dict_set (row_symbol sd r) r d) [] (filter row_selected rows)"

fun execute_approvals ::
  "execution_env \<Rightarrow> execution_args \<Rightarrow> (string, row) dict \<Rightarrow> nat \<Rightarrow> revalidation list \<Rightarrow>
     (('i, 's) paper_orchestrator \<times> execution_log, unit) st" where
  "execute_approvals xe xa by_symbol n [] = st_lift (Inr ())"
| "execute_approvals xe xa by_symbol n (rv # rvs) =
     (case (case rv_intent rv of None \<Rightarrow> None | Some i \<Rightarrow> dict_get by_symbol (oi_symbol i)) of
        None \<Rightarrow> execute_approvals xe xa by_symbol (Suc n) rvs
      | Some r \<Rightarrow> st_bind (execute_row xe n xa r) (\<lambda>_. execute_approvals xe xa by_symbol (Suc n) rvs))"

definition persist_log ::
  "execution_args \<Rightarrow> execution_log \<Rightarrow> (('i, 's) paper_orchestrator, unit) st" where
  "persist_log xa xl =
     st_bind (px_persist_stage (xa_run_id xa) (xa_trade_date xa) ''fills'' (xl_fill_rows xl)) (\<lambda>_.
     st_bind (px_persist_stage (xa_run_id xa) (xa_trade_date xa) ''pnl'' (xl_pnl_rows xl)) (\<lambda>_.
     px_persist_stage (xa_run_id xa) (xa_trade_date xa) ''reflection'' (xl_reflection_rows xl)))"

definition rejected_run ::
  "execution_args \<Rightarrow> preflight_result \<Rightarrow> (('i, 's) paper_orchestrator, execution_result) st" where
  "rejected_run xa pf =
     st_bind (px_bind_stage (xa_run_id xa) ''risk'' ''rejected'' None (Some (int (length (pf_rejected pf)))) None
       [(''preflight_required'', PBool True), (''approved_count'', PInt (int (length (pf_approved pf)))),
        (''rejected_count'', PInt (int (length (pf_rejected pf))))])
     (\<lambda>_. st_lift (Inr \<lparr>xr_preflight = pf, xr_fills = [], xr_pnl_audits = [], xr_reflections = []\<rparr>))"

definition approved_run ::
  "execution_env \<Rightarrow> execution_args \<Rightarrow> row list \<Rightarrow> preflight_result \<Rightarrow> (('i, 's) paper_orchestrator, execution_result) st" where
  "approved_run xe xa rows pf px =
     (case execute_approvals xe xa (rows_by_symbol (ce_show (xe_preflight xe 0)) rows) 0 (pf_approved pf) (px, empty_log) of
        (Inl e, (px1, xl)) \<Rightarrow> (Inl e, px1)
      | (Inr _, (px1, xl)) \<Rightarrow>
          st_bind (persist_log xa xl) (\<lambda>_. st_lift (Inr \<lparr>xr_preflight = pf, xr_fills = xl_fills xl,
             xr_pnl_audits = xl_pnl_audits xl, xr_reflections = xl_episodes xl\<rparr>)) px1)"

definition paper_execute ::
  "execution_env \<Rightarrow> execution_args \<Rightarrow> row list \<Rightarrow> (('i, 's) paper_orchestrator, execution_result) st" where
  "paper_execute xe xa rows px =
     (if get_current_mode (fc_ctl (px_facade px)) \<notin> {PAPER_SANDBOX, VIRTUAL_BACKTEST}
      then (Inl (PermissionError ''PaperExecutionOrchestrator requires PAPER_SANDBOX or VIRTUAL_BACKTEST''), px)
      else case preflight_portfolio (xe_preflight xe) (px_facade px) rows (gs_account (fc_gateway (px_facade px)))
          (xa_prices xa) (xa_markets xa) (xa_broker xa) (xa_order_type xa) (xa_lot_size xa) (xa_run_id xa) (xa_run_id xa) of
        (Inl e, fc) \<Rightarrow> (Inl e, px\<lparr>px_facade := fc\<rparr>)
      | (Inr pf, fc) \<Rightarrow>
          if \<not> all_approved pf then rejected_run xa pf (px\<lparr>px_facade := fc\<rparr>)
          else approved_run xe xa rows pf (px\<lparr>px_facade := fc\<rparr>))"

section \<open>What a run keeps\<close>

text \<open>The well-formedness of what trades and of the profit ledger.\<close>

definition px_ok :: "('i, 's) paper_orchestrator \<Rightarrow> bool" where
  "px_ok px = (facade_ok (px_facade px) \<and> ledger_ok (px_ledger px))"

text \<open>Bookkeeping: only trail, tracker, memory and profit ledger may differ.\<close>

definition same_core :: "('i, 's) paper_orchestrator \<Rightarrow> ('i, 's) paper_orchestrator \<Rightarrow> bool" where
  "same_core px px' = (same_trading (px_facade px) (px_facade px') \<and> px_store px' = px_store px
     \<and> (ledger_ok (px_ledger px) \<longrightarrow> ledger_ok (px_ledger px')))"

lemma same_core_refl [simp]: "same_core px px"
  by (simp add: same_core_def)

lemma same_core_trans: "same_core a b \<Longrightarrow> same_core b c \<Longrightarrow> same_core a c"
  by (auto simp: same_core_def intro: same_trading_trans)

lemma same_core_ok: "same_core px px' \<Longrightarrow> px_ok px \<Longrightarrow> px_ok px'"
  by (auto simp: same_core_def px_ok_def facade_ok_same)

lemma set_audit_core: "same_core px (px_set_audit t px)"
  by (simp add: px_set_audit_def same_core_def same_trading_simps)

lemma set_tracker_core: "same_core px (set_tracker tr px)"
proof -
  have "same_core px (px\<lparr>px_tracker := t\<rparr>)" for t by (simp add: same_core_def)
  then show ?thesis by (auto simp: set_tracker_def set_audit_core split: option.splits)
qed

lemma memory_core: "same_core px (px\<lparr>px_memory := m\<rparr>)"
  by (simp add: same_core_def)

lemma bind_stage_core: "px_bind_stage run_id stage status aid n ck md px = (r, px') \<Longrightarrow> same_core px px'"
  by (auto simp: px_bind_stage_def intro: set_tracker_core split: option.splits list.splits prod.splits)

lemma on_audit_core: "on_audit f pl = (r, pl') \<Longrightarrow> same_core (fst pl) (fst pl')"
  by (auto simp: on_audit_def intro: set_audit_core split: option.splits prod.splits)

lemma reflect_fill_core:
  assumes "reflect_fill xe n run_id sub f pnl mark pl = (r, pl')"
  shows "same_core (fst pl) (fst pl')"
proof (cases "px_memory (fst pl)")
  case None
  then show ?thesis using assms by (simp add: reflect_fill_def)
next
  case (Some mem)
  let ?e = "episode_of (ap_show_dec (xe_params xe n)) (xe_episode xe n) (xe_now xe n) run_id f pnl mark"
  obtain x mem' where m: "reflect mem ?e = (x, mem')" by fastforce
  let ?px = "(fst pl)\<lparr>px_memory := Some mem'\<rparr>"
  obtain y pl1 where a: "on_audit (\<lambda>t. audit_record_reflection t (au_audit_id sub) ?e) (?px, snd pl) = (y, pl1)" by (rule prod.exhaust)
  note c = same_core_trans [OF memory_core on_audit_core [OF a, unfolded fst_conv]]
  show ?thesis using assms Some m a c
    by (cases x; cases y) (auto simp: reflect_fill_def st_bind_def Let_def intro: memory_core)
qed

lemma book_fill_core:
  assumes "book_fill xe n xa sub f pl = (r, pl')"
  shows "same_core (fst pl) (fst pl')"
proof (cases "apply_fill (px_ledger (fst pl)) (fl_symbol f) (fl_side f) (fl_quantity f) (fl_price f)")
  case (Inl e)
  then show ?thesis using assms by (simp add: book_fill_def Let_def)
next
  case (Inr ul)
  obtain u l where ul: "ul = (u, l)" by fastforce
  let ?px = "(fst pl)\<lparr>px_ledger := l\<rparr>"
  have l: "same_core (fst pl) ?px" using apply_fill_ok Inr by (auto simp: same_core_def ul)
  show ?thesis
  proof (cases "\<exists>mark pnl. dict_get (xa_prices xa) (fl_symbol f) = Some mark \<and> total_pnl l (fl_symbol f) mark = Inr pnl")
    case False
    then show ?thesis using assms l Inr by (auto simp: book_fill_def Let_def ul split: option.splits sum.splits)
  next
    case True
    then obtain mark pnl where m: "dict_get (xa_prices xa) (fl_symbol f) = Some mark" "total_pnl l (fl_symbol f) mark = Inr pnl" by blast
    have "st_bind (on_audit (\<lambda>t. audit_record_pnl (xe_params xe n) t (au_audit_id sub) pnl (''ledger:'' @ fl_symbol f))) (\<lambda>_ pl'.
        reflect_fill xe n (xa_run_id xa) sub f pnl mark
          (fst pl', (snd pl')\<lparr>xl_pnl_audits := xl_pnl_audits (snd pl') @ [au_audit_id sub],
             xl_pnl_rows := xl_pnl_rows (snd pl')
               @ [pnl_row (ap_show_dec (xe_params xe n)) (xa_run_id xa) (au_audit_id sub) (fl_symbol f) pnl mark]\<rparr>))
        (?px, snd pl) = (r, pl')"
      using assms Inr m by (simp add: book_fill_def Let_def ul)
    then show ?thesis
    proof (cases rule: st_bind_cases)
      case (first e)
      then show ?thesis using same_core_trans [OF l] on_audit_core by fastforce
    next
      case (second x pl1)
      show ?thesis
        using same_core_trans [OF l same_core_trans [OF on_audit_core [OF second(1), unfolded fst_conv]
              reflect_fill_core [OF second(2), unfolded fst_conv]]] .
    qed
  qed
qed

lemma account_result_core:
  assumes "account_result xe n xa result pl = (r, pl')"
  shows "same_core (fst pl) (fst pl')"
proof -
  have "same_core (fst pl) (fst pl2)"
    if "book_fill xe n xa sub f (fst pl, log_fill sd run_id f (snd pl)) = (x, pl2)" for sub f sd run_id x pl2
    using book_fill_core [OF that] by simp
  then show ?thesis using assms
    by (auto simp: account_result_def Let_def split: option.splits trade_result.splits if_splits prod.splits sum.splits)
qed

lemma execute_row_keeps:
  assumes "execute_row xe n xa r pl = (res, pl')"
  shows "px_ok (fst pl) \<Longrightarrow> px_ok (fst pl')" and "px_store (fst pl') = px_store (fst pl)"
proof -
  have "(px_ok (fst pl) \<longrightarrow> px_ok (fst pl')) \<and> px_store (fst pl') = px_store (fst pl)"
  proof (cases "row_rank_arg r")
    case (Inl e)
    then show ?thesis using assms by (simp add: execute_row_def)
  next
    case (Inr rank)
    obtain x fc where s: "submit_portfolio_row (xe_revalidate xe n) (xe_submit xe n) (px_facade (fst pl)) r (xa_prices xa) (xa_markets xa)
        (xa_broker xa) (xa_order_type xa) (xa_lot_size xa) None (xa_run_id xa) rank (xa_run_id xa) = (x, fc)" by fastforce
    have fc: "px_ok (fst pl) \<Longrightarrow> px_ok ((fst pl)\<lparr>px_facade := fc\<rparr>)" using submit_row_ok [OF s] by (simp add: px_ok_def)
    show ?thesis
    proof (cases x)
      case (Inl e)
      then show ?thesis using assms Inr s fc by (auto simp: execute_row_def)
    next
      case (Inr result)
      then have "account_result xe n xa result ((fst pl)\<lparr>px_facade := fc\<rparr>, snd pl) = (res, pl')"
        using assms \<open>row_rank_arg r = Inr rank\<close> s by (simp add: execute_row_def)
      from account_result_core [OF this] show ?thesis using fc same_core_ok by (fastforce simp: same_core_def)
    qed
  qed
  then show "px_ok (fst pl) \<Longrightarrow> px_ok (fst pl')" "px_store (fst pl') = px_store (fst pl)" by blast+
qed

lemma execute_approvals_keeps:
  "execute_approvals xe xa d n rvs pl = (res, pl') \<Longrightarrow>
    (px_ok (fst pl) \<longrightarrow> px_ok (fst pl')) \<and> px_store (fst pl') = px_store (fst pl)"
proof (induction rvs arbitrary: n pl)
  case (Cons rv rvs)
  show ?case
  proof (cases "case rv_intent rv of None \<Rightarrow> None | Some i \<Rightarrow> dict_get d (oi_symbol i)")
    case None
    then show ?thesis using Cons by simp
  next
    case (Some r)
    then have "st_bind (execute_row xe n xa r) (\<lambda>_. execute_approvals xe xa d (Suc n) rvs) pl = (res, pl')"
      using Cons.prems by simp
    then show ?thesis
    proof (cases rule: st_bind_cases)
      case (first e)
      then show ?thesis using execute_row_keeps [OF first(1)] by simp
    next
      case (second x pl1)
      then show ?thesis using execute_row_keeps [OF second(1)] Cons.IH [OF second(2)] by simp
    qed
  qed
qed simp

lemma bind_stage_ok: "px_bind_stage run_id stage status aid n ck md px = (r, px') \<Longrightarrow> px_ok px \<Longrightarrow> px_ok px'"
  using bind_stage_core same_core_ok by blast

lemma persist_stage_ok:
  assumes "px_persist_stage run_id d stage rows px = (r, px')" and "px_ok px"
  shows "px_ok px'"
proof -
  have "px_ok (px\<lparr>px_store := s\<rparr>)" for s using assms(2) by (simp add: px_ok_def)
  then show ?thesis using assms
    by (auto simp: px_persist_stage_def split: option.splits list.splits if_splits prod.splits sum.splits intro: bind_stage_ok)
qed

lemma persist_log_ok: "persist_log xa xl px = (r, px') \<Longrightarrow> px_ok px \<Longrightarrow> px_ok px'"
  unfolding persist_log_def by (elim st_bind_cases) (blast intro: persist_stage_ok)+

lemma rejected_run_core: "rejected_run xa pf px = (r, px') \<Longrightarrow> same_core px px' \<and> (\<forall>x. r = Inr x \<longrightarrow> xr_fills x = [])"
  unfolding rejected_run_def by (elim st_bind_cases) (auto dest: bind_stage_core)

lemma approved_run_ok:
  assumes "approved_run xe xa rows pf px = (r, px')" and "px_ok px"
  shows "px_ok px'"
proof -
  obtain x px1 xl where a: "execute_approvals xe xa (rows_by_symbol (ce_show (xe_preflight xe 0)) rows) 0 (pf_approved pf) (px, empty_log)
      = (x, (px1, xl))" by (metis prod.exhaust)
  have ok: "px_ok px1" using execute_approvals_keeps [OF a] assms(2) by simp
  show ?thesis
  proof (cases x)
    case (Inl e)
    then show ?thesis using assms(1) a ok by (simp add: approved_run_def)
  next
    case (Inr u)
    then have "st_bind (persist_log xa xl) (\<lambda>_. st_lift (Inr \<lparr>xr_preflight = pf, xr_fills = xl_fills xl,
        xr_pnl_audits = xl_pnl_audits xl, xr_reflections = xl_episodes xl\<rparr>)) px1 = (r, px')"
      using assms(1) a by (simp add: approved_run_def)
    then show ?thesis by (elim st_bind_cases) (use ok persist_log_ok in auto)
  qed
qed

lemma facade_core: "same_trading (px_facade px) fc \<Longrightarrow> same_core px (px\<lparr>px_facade := fc\<rparr>)"
  by (simp add: same_core_def)

lemma execute_keeps_ok:
  assumes "paper_execute xe xa rows px = (r, px')" and ok: "px_ok px"
  shows "px_ok px'"
proof (cases "get_current_mode (fc_ctl (px_facade px)) \<in> {PAPER_SANDBOX, VIRTUAL_BACKTEST}")
  case False
  then show ?thesis using assms by (simp add: paper_execute_def)
next
  case True
  obtain x fc where p: "preflight_portfolio (xe_preflight xe) (px_facade px) rows (gs_account (fc_gateway (px_facade px)))
      (xa_prices xa) (xa_markets xa) (xa_broker xa) (xa_order_type xa) (xa_lot_size xa) (xa_run_id xa) (xa_run_id xa) = (x, fc)"
    by fastforce
  have ok1: "px_ok (px\<lparr>px_facade := fc\<rparr>)" by (rule same_core_ok [OF facade_core [OF preflight_same [OF p]] ok])
  show ?thesis
  proof (cases x)
    case (Inl e)
    then show ?thesis using assms(1) p ok1 True by (auto simp: paper_execute_def)
  next
    case (Inr pf)
    show ?thesis
    proof (cases "all_approved pf")
      case True
      then have "approved_run xe xa rows pf (px\<lparr>px_facade := fc\<rparr>) = (r, px')"
        using assms(1) p Inr \<open>_ \<in> {PAPER_SANDBOX, VIRTUAL_BACKTEST}\<close> by (auto simp: paper_execute_def)
      then show ?thesis using ok1 by (rule approved_run_ok)
    next
      case False
      then have "rejected_run xa pf (px\<lparr>px_facade := fc\<rparr>) = (r, px')"
        using assms(1) p Inr \<open>_ \<in> {PAPER_SANDBOX, VIRTUAL_BACKTEST}\<close> by (auto simp: paper_execute_def)
      then show ?thesis using rejected_run_core same_core_ok ok1 by blast
    qed
  qed
qed

section \<open>Properties\<close>

text \<open>Results taken apart after an evaluation.\<close>

lemma returned_pair: "(case p of (Inl _, _) \<Rightarrow> False | (Inr a, b) \<Rightarrow> P a b) \<Longrightarrow> \<exists>a b. p = (Inr a, b) \<and> P a b"
  by (cases p; cases "fst p") auto

lemma raised_pair: "(case p of (Inr _, _) \<Rightarrow> False | (Inl e, (a, b)) \<Rightarrow> P e a) \<Longrightarrow> \<exists>e a b. p = (Inl e, (a, b)) \<and> P e a"
  by (cases p; cases "fst p") auto

abbreviation preflight_of ::
  "execution_env \<Rightarrow> execution_args \<Rightarrow> row list \<Rightarrow> ('i, 's) paper_orchestrator \<Rightarrow> preflight_result res \<times> facade" where
  "preflight_of xe xa rows px \<equiv> preflight_portfolio (xe_preflight xe) (px_facade px) rows (gs_account (fc_gateway (px_facade px)))
     (xa_prices xa) (xa_markets xa) (xa_broker xa) (xa_order_type xa) (xa_lot_size xa) (xa_run_id xa) (xa_run_id xa)"

text \<open>
  (C24) Every run keeps the runtime well-formed: whatever the rows, and also when the run raises half-way,
  the orders of the gateway stay consistent, no credential stays in a broker adapter, and the
  positions of the profit ledger stay consistent.
\<close>

theorem execution_keeps_runtime_ok:
  assumes "facade_ok (px_facade px)" and "ledger_ok (px_ledger px)"
  shows "facade_ok (px_facade (snd (paper_execute xe xa rows px))) \<and> ledger_ok (px_ledger (snd (paper_execute xe xa rows px)))"
  using execute_keeps_ok [of xe xa rows px "fst (paper_execute xe xa rows px)" "snd (paper_execute xe xa rows px)"] assms
  by (simp add: px_ok_def)

definition example_px :: "(path, fs) paper_orchestrator" where
  "example_px = \<lparr>px_facade = example_facade PAPER_SANDBOX, px_ledger = [], px_memory = Some [], px_trail = None,
     px_tracker = None, px_storage = Some example_storage, px_store = []\<rparr>"

definition example_call :: "string \<Rightarrow> nat \<Rightarrow> call_env" where
  "example_call p n = example_env\<lparr>ce_uuid := p @ show_nat (int n)\<rparr>"

definition example_xe :: execution_env where
  "example_xe = \<lparr>xe_preflight = example_call ''p'', xe_revalidate = example_call ''r'', xe_submit = example_call ''s'',
     xe_episode = (\<lambda>n. ''e''), xe_now = (\<lambda>n. ''now'')\<rparr>"

definition example_xa :: execution_args where
  "example_xa = \<lparr>xa_prices = example_prices, xa_markets = example_markets, xa_broker = ''toss'', xa_order_type = ''MARKET'',
     xa_lot_size = 1, xa_run_id = Some ''run-1'', xa_trade_date = Some ''2024-01-02''\<rparr>"

definition example_target :: "string \<Rightarrow> string \<Rightarrow> row" where
  "example_target symb w = [(''symbol'', PStr symb), (''target_weight'', PStr w), (''portfolio_selected'', PBool True)]"

definition example_portfolio :: "row list" where
  "example_portfolio = [example_target ''005930'' ''0.35'', example_target ''000660'' ''0.23'']"

theorem execution_keeps_runtime_ok_witness:
  "facade_ok (px_facade (snd (paper_execute example_xe example_xa example_portfolio example_px)))"
proof -
  have "facade_ok (px_facade example_px)" "ledger_ok (px_ledger example_px)" by code_simp+
  then show ?thesis by (rule execution_keeps_runtime_ok [THEN conjunct1])
qed

text \<open>
  (C13) A portfolio with a rejected row trades nothing: when the preflight rejects any of the rows, the
  run returns no fill, or raises, with the account, the orders, the brokers and the stored artifacts
  as they were.
\<close>

theorem rejected_portfolio_trades_nothing:
  assumes "preflight_of xe xa rows px = (Inr pf, fc)" and "pf_rejected pf \<noteq> []"
    and "paper_execute xe xa rows px = (r, px')"
  shows "same_trading (px_facade px) (px_facade px') \<and> px_store px' = px_store px \<and> (\<forall>x. r = Inr x \<longrightarrow> xr_fills x = [])"
proof (cases "get_current_mode (fc_ctl (px_facade px)) \<in> {PAPER_SANDBOX, VIRTUAL_BACKTEST}")
  case True
  then have "rejected_run xa pf (px\<lparr>px_facade := fc\<rparr>) = (r, px')"
    using assms by (auto simp: paper_execute_def all_approved_def)
  note c = rejected_run_core [OF this]
  then have "same_core px px'" using facade_core [OF preflight_same [OF assms(1)]] same_core_trans by blast
  then show ?thesis using c by (simp add: same_core_def)
next
  case False
  then show ?thesis using assms(3) by (auto simp: paper_execute_def)
qed

definition overweight_portfolio :: "row list" where
  "overweight_portfolio = [example_target ''005930'' ''0.35'', example_target ''000660'' ''0.9'']"

theorem rejected_portfolio_trades_nothing_witness:
  "px_store (snd (paper_execute example_xe example_xa overweight_portfolio example_px)) = px_store example_px"
proof -
  let ?p = "preflight_of example_xe example_xa overweight_portfolio example_px"
  have "is_ok (fst ?p)" by code_simp
  then obtain pf where pf: "fst ?p = Inr pf" by (auto simp: is_ok_iff)
  have "case fst ?p of Inl _ \<Rightarrow> False | Inr pf \<Rightarrow> pf_rejected pf \<noteq> []" by code_simp
  then have "pf_rejected pf \<noteq> []" by (simp add: pf)
  moreover have "?p = (Inr pf, snd ?p)" using pf by (metis prod.collapse)
  ultimately show ?thesis
    using rejected_portfolio_trades_nothing [OF _ _ prod.collapse [symmetric], THEN conjunct2, THEN conjunct1] by blast
qed



text \<open>
  (C40) The profit of a sale of inherited shares is never accounted: when the orchestrator's ledger holds
  less of a symbol than a fill sold, because the shares were in the account before the run, the fill
  is logged, but neither profit nor reflection is recorded for it, and the run goes on as if nothing
  had happened.
\<close>

theorem inherited_sale_has_no_profit:
  assumes "0 < fl_quantity f" and "fl_status f = ''FILLED''" and "0 < fl_price f" and "fl_side f = SELL"
    and "lp_quantity (ledger_position_of (px_ledger px) (fl_symbol f)) < fl_quantity f"
  shows "account_result xe n xa (Some (FillResult f)) (px, xl)
    = (Inr (), (px, log_fill (ap_show_dec (xe_params xe n)) (xa_run_id xa) f xl))"
proof -
  have "apply_fill (px_ledger px) (fl_symbol f) (fl_side f) (fl_quantity f) (fl_price f)
      = Inl (ValueError ''sell quantity exceeds position'')"
    using assms by (simp add: apply_fill_def position_sell_def ledger_position_of_def)
  then have "book_fill xe n xa sub f (px, xl1) = (Inl (ValueError ''sell quantity exceeds position''), (px, xl1))" for sub xl1
    by (simp add: book_fill_def Let_def)
  then show ?thesis using assms(1,2) by (simp add: account_result_def Let_def split: option.split)
qed

theorem inherited_sale_has_no_profit_witness:
  "xl_pnl_audits (snd (snd (account_result example_xe 0 example_xa (Some (FillResult (fst (example_result SELL MARKET)))) (example_px, empty_log)))) = []"
proof -
  let ?f = "fst (example_result SELL MARKET)"
  have "0 < fl_quantity ?f" "fl_status ?f = ''FILLED''" "0 < fl_price ?f" "fl_side ?f = SELL"
    "lp_quantity (ledger_position_of (px_ledger example_px) (fl_symbol ?f)) < fl_quantity ?f" by code_simp+
  from inherited_sale_has_no_profit [OF this] show ?thesis by (simp add: log_fill_def empty_log_def)
qed

end
