(* ===== verification/Spec2Isabelle.thy ===== *)
theory Spec2Isabelle
  imports Facade_Runs Ledger Plugin_Runtime Trading_Cycle Data_Lake Paper_Execution
begin

text \<open>
  Verification development for the paper-live trading runtime.
\<close>

end
